(* ===== verification/Prelude.thy ===== *)
theory Prelude
  imports Main "HOL-Library.Product_Lexorder" "HOL-Library.List_Lexorder" "HOL-Library.Char_ord"
    "HOL-Library.Sublist" "HOL-Library.Multiset"
begin

text \<open>
  Shared vocabulary of the development: the collections of simplification rules that the
  component theories fill, the generic facts on lists, options and sorting that several of
  them use, and the split rules of error results.

  A Go function that returns \<open>(T, error)\<close> is a value of \<open>'e + 'a\<close>: \<open>Inl\<close> the
  error, \<open>Inr\<close> the result. A function that also changes the outside world takes the world
  as its last argument and returns it beside the result.
\<close>

named_theorems world_simps "frame rules: which fields of the world an operation leaves alone"
named_theorems trace_simps "facts about the calls a handler makes on its response writer"

type_synonym ('e, 'a) result = "'e + 'a"

section \<open>Error results\<close>

definition is_ok :: "('e, 'a) result \<Rightarrow> bool" where
  "is_ok r \<longleftrightarrow> (case r of Inl _ \<Rightarrow> False | Inr _ \<Rightarrow> True)"

lemma is_ok_simps [simp]: "is_ok (Inr x)" "\<not> is_ok (Inl e)"
  by (simp_all add: is_ok_def)

lemma is_ok_iff: "is_ok r \<longleftrightarrow> (\<exists>x. r = Inr x)"
  by (cases r) simp_all

lemmas result_splits = sum.splits prod.splits option.splits if_splits

section \<open>Suffixes and prefixes\<close>

text \<open>The last \<open>k\<close> elements, Go's \<open>xs[len(xs)-k:]\<close>.\<close>

definition last_n :: "nat \<Rightarrow> 'a list \<Rightarrow> 'a list" where
  "last_n k xs = drop (length xs - k) xs"

lemma length_last_n [simp]: "length (last_n k xs) = min k (length xs)"
  by (simp add: last_n_def)

lemma last_n_0 [simp]: "last_n 0 xs = []"
  by (simp add: last_n_def)

lemma last_n_all [simp]: "length xs \<le> k \<Longrightarrow> last_n k xs = xs"
  by (simp add: last_n_def)

lemma take_last_n: "take (length xs - k) xs @ last_n k xs = xs"
  by (simp add: last_n_def)

lemma last_n_append_right: "k \<le> length ys \<Longrightarrow> last_n k (xs @ ys) = last_n k ys"
  by (simp add: last_n_def)

lemma last_n_append_eq [simp]: "last_n (length ys) (xs @ ys) = ys"
  by (simp add: last_n_def)

lemma set_last_n: "set (last_n k xs) \<subseteq> set xs"
  by (simp add: last_n_def set_drop_subset)

section \<open>Sorting by a key\<close>

lemma sort_key_append_above:
  assumes "\<And>x y. x \<in> set xs \<Longrightarrow> y \<in> set ys \<Longrightarrow> f x < f y"
    and "sorted (map f ys)"
  shows "sort_key f (xs @ ys) = sort_key f xs @ ys"
proof (rule properties_for_sort_key)
  show "mset (sort_key f xs @ ys) = mset (xs @ ys)" by simp
  show "sorted (map f (sort_key f xs @ ys))"
    using assms by (auto simp: sorted_append intro: less_imp_le)
  fix k assume "k \<in> set (sort_key f xs @ ys)"
  show "filter (\<lambda>x. f k = f x) (sort_key f xs @ ys) = filter (\<lambda>x. f k = f x) (xs @ ys)"
    using sort_key_stable [of f "f k" xs] by (simp add: eq_commute [of "f k"])
qed

end
