(* ===== verification/Go_Strings.thy ===== *)
theory Go_Strings
  imports Prelude
begin

text \<open>
  The parts of Go's standard library on strings that the gateway uses. A Go string is a
  sequence of bytes, so it is Isabelle's \<open>string\<close>, whose characters are bytes; text beyond
  ASCII is its UTF-8 encoding. Modelled here: \<open>strings.TrimSpace\<close>, \<open>TrimRight\<close>,
  \<open>HasPrefix\<close>, \<open>CutPrefix\<close>, \<open>Contains\<close>, \<open>Split\<close> and \<open>ReplaceAll\<close> on one character,
  \<open>strconv.Itoa\<close> and \<open>Atoi\<close>, \<open>encoding/hex\<close> and the unpadded URL alphabet of
  \<open>encoding/base64\<close>. The lemmas are the round trips and the facts on trimming that the
  request validation rests on.
\<close>

definition byte_of :: "char \<Rightarrow> nat" where
  "byte_of c = of_char c"

definition char_of_byte :: "nat \<Rightarrow> char" where
  "char_of_byte n = char_of n"

lemma byte_of_less [simp]: "byte_of c < 256"
  by (simp add: byte_of_def)

lemma char_of_byte_of [simp]: "char_of_byte (byte_of c) = c"
  by (simp add: byte_of_def char_of_byte_def)

lemma byte_of_char_of_byte [simp]: "n < 256 \<Longrightarrow> byte_of (char_of_byte n) = n"
  by (simp add: byte_of_def char_of_byte_def)

lemma char_of_byte_eq [simp]: "m < 256 \<Longrightarrow> n < 256 \<Longrightarrow> char_of_byte m = char_of_byte n \<longleftrightarrow> m = n"
  by (metis byte_of_char_of_byte)

lemma byte_of_inject [simp]: "byte_of c = byte_of d \<longleftrightarrow> c = d"
  by (metis char_of_byte_of)

section \<open>White space\<close>

text \<open>
  The length in bytes of the white space character (\<open>unicode.IsSpace\<close>) a string starts
  with, 0 when it starts with none: the six ASCII ones, then U+0085 and U+00A0 in two bytes
  and U+1680, U+2000 to U+200A, U+2028, U+2029, U+202F, U+205F and U+3000 in three.
\<close>

definition space3 :: "nat \<Rightarrow> nat \<Rightarrow> nat \<Rightarrow> bool" where
  "space3 a b c \<longleftrightarrow>
     (a = 225 \<and> b = 154 \<and> c = 128) \<or>
     (a = 226 \<and> b = 128 \<and> (128 \<le> c \<and> c \<le> 138 \<or> c = 168 \<or> c = 169 \<or> c = 175)) \<or>
     (a = 226 \<and> b = 129 \<and> c = 159) \<or>
     (a = 227 \<and> b = 128 \<and> c = 128)"

definition space2 :: "nat \<Rightarrow> nat \<Rightarrow> bool" where
  "space2 a b \<longleftrightarrow> a = 194 \<and> (b = 133 \<or> b = 160)"

definition space1 :: "nat \<Rightarrow> bool" where
  "space1 a \<longleftrightarrow> 9 \<le> a \<and> a \<le> 13 \<or> a = 32"

fun space_rune :: "string \<Rightarrow> nat" where
  "space_rune [] = 0"
| "space_rune (a # s) =
     (if space1 (byte_of a) then 1
      else case s of
        [] \<Rightarrow> 0
      | b # s' \<Rightarrow>
          if space2 (byte_of a) (byte_of b) then 2
          else case s' of
            [] \<Rightarrow> 0
          | c # _ \<Rightarrow> if space3 (byte_of a) (byte_of b) (byte_of c) then 3 else 0)"

lemma space_rune_le: "space_rune s \<le> length s"
  by (induction s rule: space_rune.induct) (auto split: list.splits)

text \<open>The white space character a string ends with, found by the same table.\<close>

definition space_suffix :: "string \<Rightarrow> nat" where
  "space_suffix s =
     (if space_rune (last_n 1 s) = 1 then 1
      else if space_rune (last_n 2 s) = 2 then 2
      else if space_rune (last_n 3 s) = 3 then 3
      else 0)"

lemma space_suffix_le: "space_suffix s \<le> length s"
proof -
  have "space_rune (last_n k s) \<le> length s" for k
    using space_rune_le [of "last_n k s"] by simp
  from this [of 1] this [of 2] this [of 3] show ?thesis
    by (auto simp: space_suffix_def)
qed

function TrimLeftSpace :: "string \<Rightarrow> string" where
  "TrimLeftSpace s =
     (if space_rune s = 0 then s else TrimLeftSpace (drop (space_rune s) s))"
  by pat_completeness auto
termination
proof (relation "measure length")
  fix s :: string
  assume "space_rune s \<noteq> 0"
  with space_rune_le [of s] show "(drop (space_rune s) s, s) \<in> measure length"
    by (cases s) auto
qed simp

function TrimRightSpace :: "string \<Rightarrow> string" where
  "TrimRightSpace s =
     (if space_suffix s = 0 then s else TrimRightSpace (take (length s - space_suffix s) s))"
  by pat_completeness auto
termination
proof (relation "measure length")
  fix s :: string
  assume "space_suffix s \<noteq> 0"
  with space_suffix_le [of s] show "(take (length s - space_suffix s) s, s) \<in> measure length"
    by (cases s) auto
qed simp

declare TrimLeftSpace.simps [simp del] TrimRightSpace.simps [simp del]

definition TrimSpace :: "string \<Rightarrow> string" where
  "TrimSpace s = TrimRightSpace (TrimLeftSpace s)"

definition blank :: "string \<Rightarrow> bool" where
  "blank s \<longleftrightarrow> TrimSpace s = []"

lemma TrimLeftSpace_done: "space_rune (TrimLeftSpace s) = 0"
proof (induction s rule: TrimLeftSpace.induct)
  case (1 s)
  then show ?case by (cases "space_rune s = 0") (simp_all add: TrimLeftSpace.simps [of s])
qed

lemma TrimRightSpace_done: "space_suffix (TrimRightSpace s) = 0"
proof (induction s rule: TrimRightSpace.induct)
  case (1 s)
  then show ?case by (cases "space_suffix s = 0") (simp_all add: TrimRightSpace.simps [of s])
qed

lemma TrimRightSpace_prefix: "prefix (TrimRightSpace s) s"
proof (induction s rule: TrimRightSpace.induct)
  case (1 s)
  show ?case
  proof (cases "space_suffix s = 0")
    case True
    then show ?thesis by (simp add: TrimRightSpace.simps [of s])
  next
    case False
    with 1 have "prefix (TrimRightSpace s) (take (length s - space_suffix s) s)"
      by (simp add: TrimRightSpace.simps [of s])
    then show ?thesis using take_is_prefix prefix_order.trans by blast
  qed
qed

lemma TrimLeftSpace_suffix: "suffix (TrimLeftSpace s) s"
proof (induction s rule: TrimLeftSpace.induct)
  case (1 s)
  show ?case
  proof (cases "space_rune s = 0")
    case True
    then show ?thesis by (simp add: TrimLeftSpace.simps [of s])
  next
    case False
    with 1 have "suffix (TrimLeftSpace s) (drop (space_rune s) s)"
      by (simp add: TrimLeftSpace.simps [of s])
    then show ?thesis using suffix_drop suffix_order.trans by blast
  qed
qed

lemma space_rune_append: "space_rune (t @ z) = 0 \<Longrightarrow> space_rune t = 0"
  by (cases t; cases "tl t"; cases "tl (tl t)") (auto split: list.splits if_splits)

lemma space_rune_prefix: "prefix t s \<Longrightarrow> space_rune s = 0 \<Longrightarrow> space_rune t = 0"
  by (auto simp: prefix_def dest: space_rune_append)

lemma TrimSpace_no_lead: "space_rune (TrimSpace s) = 0"
  using space_rune_prefix [OF TrimRightSpace_prefix TrimLeftSpace_done]
  by (simp add: TrimSpace_def)

lemma TrimSpace_no_trail: "space_suffix (TrimSpace s) = 0"
  by (simp add: TrimSpace_def TrimRightSpace_done)

lemma TrimSpace_fixed: "space_rune s = 0 \<Longrightarrow> space_suffix s = 0 \<Longrightarrow> TrimSpace s = s"
  by (simp add: TrimSpace_def TrimLeftSpace.simps [of s] TrimRightSpace.simps [of s])

lemma space_rune_visible: "\<forall>c \<in> set s. 32 < byte_of c \<and> byte_of c < 127 \<Longrightarrow> space_rune s = 0"
  by (cases s rule: space_rune.cases) (auto simp: space1_def space2_def space3_def split: list.split)

lemma TrimSpace_visible:
  assumes "\<forall>c \<in> set s. 32 < byte_of c \<and> byte_of c < 127" shows "TrimSpace s = s"
proof (rule TrimSpace_fixed)
  show "space_rune s = 0" by (rule space_rune_visible [OF assms])
  have "space_rune (last_n k s) = 0" for k
    using assms set_last_n [of k s] by (intro space_rune_visible) auto
  then show "space_suffix s = 0" by (simp add: space_suffix_def)
qed

lemma TrimRightSpace_keeps: "\<not> space1 (byte_of c) \<Longrightarrow> byte_of c < 128 \<Longrightarrow> TrimRightSpace (c # t) \<noteq> []"
proof (induction "c # t" arbitrary: t rule: TrimRightSpace.induct)
  case 1
  let ?s = "c # t" and ?k = "space_suffix (c # t)"
  have k: "?k < length ?s" if "?k \<noteq> 0"
  proof (rule ccontr)
    assume "\<not> ?k < length ?s"
    then have "last_n ?k ?s = ?s" "?k = length ?s" using space_suffix_le [of ?s] by simp_all
    moreover have "space_rune (last_n ?k ?s) = ?k" using that by (auto simp: space_suffix_def split: if_splits)
    moreover have "space_rune ?s = 0" using 1(2,3) by (auto simp: space2_def space3_def split: list.split)
    ultimately show False using that by simp
  qed
  show ?case
  proof (cases "?k = 0")
    case True
    then show ?thesis by (simp add: TrimRightSpace.simps [of ?s])
  next
    case False
    obtain j where j: "length ?s - ?k = Suc j" using k [OF False] by (cases "length ?s - ?k") auto
    then have "take (length ?s - ?k) ?s = c # take j t" by simp
    with 1(1) [OF False _ 1(2,3)] False show ?thesis by (subst TrimRightSpace.simps) simp
  qed
qed

lemma TrimSpace_idem [simp]: "TrimSpace (TrimSpace s) = TrimSpace s"
  by (simp add: TrimSpace_fixed TrimSpace_no_lead TrimSpace_no_trail)

lemma TrimSpace_Nil [simp]: "TrimSpace [] = []"
  by (simp add: TrimSpace_fixed space_suffix_def)

lemma blank_Nil [simp]: "blank []"
  by (simp add: blank_def)

lemma not_blank_nonempty: "\<not> blank s \<Longrightarrow> s \<noteq> []"
  by auto

section \<open>Prefixes, searching, splitting\<close>

definition HasPrefix :: "string \<Rightarrow> string \<Rightarrow> bool" where
  "HasPrefix s p \<longleftrightarrow> take (length p) s = p"

lemma HasPrefix_append [simp]: "HasPrefix (p @ s) p"
  by (simp add: HasPrefix_def)

lemma HasPrefix_iff: "HasPrefix s p \<longleftrightarrow> prefix p s"
  by (metis HasPrefix_def append_eq_conv_conj append_take_drop_id prefix_def)

definition HasSuffix :: "string \<Rightarrow> string \<Rightarrow> bool" where
  "HasSuffix s p \<longleftrightarrow> length p \<le> length s \<and> last_n (length p) s = p"

lemma HasSuffix_last: "HasSuffix s [x] \<longleftrightarrow> s \<noteq> [] \<and> last s = x"
proof (cases s rule: rev_cases)
  case (snoc t y)
  have "last_n (length [y]) (t @ [y]) = [y]" by (rule last_n_append_eq)
  then show ?thesis by (simp add: HasSuffix_def snoc)
qed (simp add: HasSuffix_def)

definition CutPrefix :: "string \<Rightarrow> string \<Rightarrow> string option" where
  "CutPrefix s p = (if HasPrefix s p then Some (drop (length p) s) else None)"

fun Contains :: "string \<Rightarrow> string \<Rightarrow> bool" where
  "Contains [] p \<longleftrightarrow> p = []"
| "Contains (c # s) p \<longleftrightarrow> HasPrefix (c # s) p \<or> Contains s p"

text \<open>\<open>strings.TrimRight(s, cutset)\<close> for a cutset of ASCII characters.\<close>

definition TrimRight :: "string \<Rightarrow> string \<Rightarrow> string" where
  "TrimRight s cs = rev (dropWhile (\<lambda>c. c \<in> set cs) (rev s))"

lemma TrimRight_last: "TrimRight s cs \<noteq> [] \<Longrightarrow> last (TrimRight s cs) \<notin> set cs"
  using hd_dropWhile [of "\<lambda>c. c \<in> set cs" "rev s"]
  by (auto simp: TrimRight_def last_rev)

lemma TrimRight_append [simp]: "set t \<subseteq> set cs \<Longrightarrow> TrimRight (s @ t) cs = TrimRight s cs"
  by (auto simp: TrimRight_def dropWhile_append)

lemma TrimRight_fixed: "s = [] \<or> last s \<notin> set cs \<Longrightarrow> TrimRight s cs = s"
  by (cases s rule: rev_cases) (auto simp: TrimRight_def)

text \<open>\<open>strings.Split(s, sep)\<close> for a separator of one byte: never empty.\<close>

fun SplitChar :: "char \<Rightarrow> string \<Rightarrow> string list" where
  "SplitChar c [] = [[]]"
| "SplitChar c (x # s) =
     (if x = c then [] # SplitChar c s
      else case SplitChar c s of [] \<Rightarrow> [[x]] | w # ws \<Rightarrow> (x # w) # ws)"

text \<open>\<open>strings.ReplaceAll(s, old, new)\<close> for an \<open>old\<close> of one byte.\<close>

definition ReplaceChar :: "char \<Rightarrow> string \<Rightarrow> string \<Rightarrow> string" where
  "ReplaceChar c t s = concat (map (\<lambda>x. if x = c then t else [x]) s)"

section \<open>Decimal numbers\<close>

fun itoa_nat :: "nat \<Rightarrow> string" where
  "itoa_nat n =
     (if n < 10 then [char_of_byte (48 + n)]
      else itoa_nat (n div 10) @ [char_of_byte (48 + n mod 10)])"

declare itoa_nat.simps [simp del]

definition Itoa :: "int \<Rightarrow> string" where
  "Itoa i = (if i < 0 then CHR ''-'' # itoa_nat (nat (- i)) else itoa_nat (nat i))"

definition digit_val :: "char \<Rightarrow> nat option" where
  "digit_val c = (if 48 \<le> byte_of c \<and> byte_of c \<le> 57 then Some (byte_of c - 48) else None)"

fun atoi_nat :: "nat \<Rightarrow> string \<Rightarrow> nat option" where
  "atoi_nat acc [] = Some acc"
| "atoi_nat acc (c # s) =
     (case digit_val c of None \<Rightarrow> None | Some d \<Rightarrow> atoi_nat (10 * acc + d) s)"

text \<open>Go's \<open>int\<close> on the platforms the gateway is built for has 64 bits.\<close>

definition in_int64 :: "int \<Rightarrow> bool" where
  "in_int64 i \<longleftrightarrow> - (2 ^ 63) \<le> i \<and> i < 2 ^ 63"

definition Atoi :: "string \<Rightarrow> int option" where
  "Atoi s =
     (let neg = (case s of c # _ \<Rightarrow> c = CHR ''-'' | [] \<Rightarrow> False);
          body = (case s of c # s' \<Rightarrow> if c = CHR ''-'' \<or> c = CHR ''+'' then s' else s | [] \<Rightarrow> s)
      in if body = [] then None
         else case atoi_nat 0 body of
           None \<Rightarrow> None
         | Some n \<Rightarrow>
             let i = (if neg then - int n else int n)
             in if in_int64 i then Some i else None)"

lemma digit_val_digit [simp]: "n < 10 \<Longrightarrow> digit_val (char_of_byte (48 + n)) = Some n"
  by (simp add: digit_val_def)

lemma atoi_nat_append:
  "atoi_nat acc (s @ t) = (case atoi_nat acc s of None \<Rightarrow> None | Some n \<Rightarrow> atoi_nat n t)"
  by (induction s arbitrary: acc) (auto split: option.splits)

lemma atoi_itoa_nat: "atoi_nat 0 (itoa_nat n) = Some n"
proof (induction n rule: itoa_nat.induct)
  case (1 n)
  show ?case
  proof (cases "n < 10")
    case True
    then show ?thesis by (simp add: itoa_nat.simps [of n])
  next
    case False
    with 1 have "atoi_nat 0 (itoa_nat (n div 10)) = Some (n div 10)" by simp
    with False show ?thesis
      by (simp add: itoa_nat.simps [of n] atoi_nat_append)
  qed
qed

lemma itoa_nat_nonempty [simp]: "itoa_nat n \<noteq> []"
  by (subst itoa_nat.simps) simp

lemma itoa_nat_digits: "c \<in> set (itoa_nat n) \<Longrightarrow> 48 \<le> byte_of c \<and> byte_of c \<le> 57"
proof (induction n rule: itoa_nat.induct)
  case (1 n)
  then show ?case
    by (cases "n < 10") (auto simp: itoa_nat.simps [of n])
qed

lemma itoa_nat_hd:
  assumes "itoa_nat n = c # s"
  shows "c \<noteq> CHR ''-'' \<and> c \<noteq> CHR ''+''"
proof -
  have "48 \<le> byte_of c" using itoa_nat_digits [of c n] assms by simp
  then show ?thesis by (auto simp: byte_of_def)
qed

lemma Atoi_Itoa: "in_int64 i \<Longrightarrow> Atoi (Itoa i) = Some i"
proof (cases "i < 0")
  case True
  assume "in_int64 i"
  with True show ?thesis
    using atoi_itoa_nat [of "nat (- i)"] by (simp add: Atoi_def Itoa_def)
next
  case False
  assume "in_int64 i"
  moreover obtain c s where cs: "itoa_nat (nat i) = c # s"
    using itoa_nat_nonempty by (meson list.exhaust)
  ultimately show ?thesis
    using False itoa_nat_hd [OF cs] atoi_itoa_nat [of "nat i"]
    by (simp add: Atoi_def Itoa_def)
qed

section \<open>Hexadecimal\<close>

definition hex_digit :: "nat \<Rightarrow> char" where
  "hex_digit n = (if n < 10 then char_of_byte (48 + n) else char_of_byte (87 + n))"

definition hex_val :: "char \<Rightarrow> nat option" where
  "hex_val c =
     (let b = byte_of c in
      if 48 \<le> b \<and> b \<le> 57 then Some (b - 48)
      else if 97 \<le> b \<and> b \<le> 102 then Some (b - 87)
      else if 65 \<le> b \<and> b \<le> 70 then Some (b - 55)
      else None)"

definition hex_EncodeToString :: "string \<Rightarrow> string" where
  "hex_EncodeToString bs =
     concat (map (\<lambda>c. [hex_digit (byte_of c div 16), hex_digit (byte_of c mod 16)]) bs)"

fun hex_DecodeString :: "string \<Rightarrow> string option" where
  "hex_DecodeString [] = Some []"
| "hex_DecodeString [_] = None"
| "hex_DecodeString (h # l # s) =
     (case (hex_val h, hex_val l) of
        (Some a, Some b) \<Rightarrow>
          (case hex_DecodeString s of
             None \<Rightarrow> None | Some t \<Rightarrow> Some (char_of_byte (16 * a + b) # t))
      | _ \<Rightarrow> None)"

lemma hex_val_digit [simp]: "n < 16 \<Longrightarrow> hex_val (hex_digit n) = Some n"
  by (auto simp: hex_val_def hex_digit_def Let_def)

lemma hex_roundtrip [simp]: "hex_DecodeString (hex_EncodeToString bs) = Some bs"
proof (induction bs)
  case Nil
  show ?case by (simp add: hex_EncodeToString_def)
next
  case (Cons c bs)
  have "byte_of c div 16 < 16" "byte_of c mod 16 < 16"
    using byte_of_less [of c] by (simp_all add: less_mult_imp_div_less)
  moreover have "hex_DecodeString (concat (map (\<lambda>c. [hex_digit (byte_of c div 16),
      hex_digit (byte_of c mod 16)]) bs)) = Some bs"
    using Cons.IH by (simp add: hex_EncodeToString_def)
  ultimately show ?case
    by (simp add: hex_EncodeToString_def)
qed

lemma hex_encode_inj: "hex_EncodeToString a = hex_EncodeToString b \<Longrightarrow> a = b"
  by (metis hex_roundtrip option.inject)

lemma length_hex_EncodeToString [simp]: "length (hex_EncodeToString bs) = 2 * length bs"
  by (induction bs) (simp_all add: hex_EncodeToString_def)

section \<open>Base64, URL alphabet, no padding\<close>

definition b64_alphabet :: string where
  "b64_alphabet = ''ABCDEFGHIJKLMNOPQRSTUVWXYZabcdefghijklmnopqrstuvwxyz0123456789-_''"

definition b64_char :: "nat \<Rightarrow> char" where
  "b64_char n = b64_alphabet ! n"

fun b64_bytes :: "nat list \<Rightarrow> string" where
  "b64_bytes [] = []"
| "b64_bytes [a] = [b64_char (a div 4), b64_char (a mod 4 * 16)]"
| "b64_bytes [a, b] =
     [b64_char (a div 4), b64_char (a mod 4 * 16 + b div 16), b64_char (b mod 16 * 4)]"
| "b64_bytes (a # b # c # s) =
     [b64_char (a div 4), b64_char (a mod 4 * 16 + b div 16),
      b64_char (b mod 16 * 4 + c div 64), b64_char (c mod 64)] @ b64_bytes s"

definition base64_RawURL :: "string \<Rightarrow> string" where
  "base64_RawURL bs = b64_bytes (map byte_of bs)"

lemma length_b64_alphabet [simp]: "length b64_alphabet = 64"
  by (simp add: b64_alphabet_def)

lemma distinct_b64_alphabet: "distinct b64_alphabet"
  by code_simp

lemma b64_char_eq [simp]: "m < 64 \<Longrightarrow> n < 64 \<Longrightarrow> b64_char m = b64_char n \<longleftrightarrow> m = n"
  using distinct_b64_alphabet by (simp add: b64_char_def nth_eq_iff_index_eq)

lemma b64_char_in: "n < 64 \<Longrightarrow> b64_char n \<in> set b64_alphabet"
  by (simp add: b64_char_def)

lemma length_b64_bytes: "length (b64_bytes bs) = (4 * length bs + 2) div 3"
  by (induction bs rule: b64_bytes.induct) auto

lemma b64_bytes_alphabet:
  "\<forall>b \<in> set bs. b < 256 \<Longrightarrow> set (b64_bytes bs) \<subseteq> set b64_alphabet"
  by (induction bs rule: b64_bytes.induct) (auto intro!: b64_char_in)

lemma mixed_radix:
  fixes x y m :: nat
  assumes "x * m + y = x' * m + y'" "y < m" "y' < m"
  shows "x = x'" "y = y'"
proof -
  have "(x * m + y) div m = (x' * m + y') div m" "(x * m + y) mod m = (x' * m + y') mod m"
    using assms(1) by simp_all
  then show "x = x'" "y = y'" using assms(2,3) by simp_all
qed

lemma div_mod_eqI: "(a :: nat) div m = b div m \<Longrightarrow> a mod m = b mod m \<Longrightarrow> a = b"
  by (metis div_mult_mod_eq)

lemma b64_index:
  fixes a b c :: nat
  shows "a < 256 \<Longrightarrow> a div 4 < 64" "b < 256 \<Longrightarrow> a mod 4 * 16 + b div 16 < 64"
    "c < 256 \<Longrightarrow> b mod 16 * 4 + c div 64 < 64" "c mod 64 < 64" "a mod 4 * 16 < 64" "b mod 16 * 4 < 64"
proof -
  have m: "a mod 4 \<le> 3" "b mod 16 \<le> 15" "c mod 64 < 64" by (simp_all add: less_Suc_eq_le [symmetric])
  show "c mod 64 < 64" "a mod 4 * 16 < 64" "b mod 16 * 4 < 64" using m by simp_all
  show "a div 4 < 64" if "a < 256" using that by (simp add: less_mult_imp_div_less)
  have "b div 16 < 16" if "b < 256" using that by (simp add: less_mult_imp_div_less)
  then show "a mod 4 * 16 + b div 16 < 64" if "b < 256" using that m(1) by fastforce
  have "c div 64 < 4" if "c < 256" using that by (simp add: less_mult_imp_div_less)
  then show "b mod 16 * 4 + c div 64 < 64" if "c < 256" using that m(2) by fastforce
qed

lemma b64_bytes_inj:
  assumes "\<forall>x \<in> set xs. x < 256" "\<forall>y \<in> set ys. y < 256"
    and "length xs = length ys" and "b64_bytes xs = b64_bytes ys"
  shows "xs = ys"
  using assms
proof (induction xs arbitrary: ys rule: b64_bytes.induct)
  case 1
  then show ?case by simp
next
  case (2 a)
  then obtain a' where ys: "ys = [a']" by (cases ys) auto
  with 2 have "a div 4 = a' div 4" "a mod 4 * 16 = a' mod 4 * 16"
    by (auto simp del: mult_cancel2)
  then have "a = a'" by (intro div_mod_eqI [of a 4 a']) simp_all
  then show ?case using ys by simp
next
  case (3 a b)
  then have "length ys = 2" by simp
  then obtain a' b' where ys: "ys = [a', b']"
    by (cases ys; cases "tl ys") auto
  have lt: "b div 16 < 16" "b' div 16 < 16" using "3.prems"(1,2) ys by auto
  have bd: "a < 256" "b < 256" "a' < 256" "b' < 256"
    using "3.prems"(1,2) ys by simp_all
  have eq: "a div 4 = a' div 4" "a mod 4 * 16 + b div 16 = a' mod 4 * 16 + b' div 16"
    "b mod 16 * 4 = b' mod 16 * 4"
    using "3.prems"(4) bd by (simp_all only: ys b64_bytes.simps list.inject b64_char_eq b64_index)
  note mid = mixed_radix [OF eq(2) lt]
  have "a = a'" using eq(1) mid(1) by (rule div_mod_eqI)
  moreover have "b = b'" using mid(2) eq(3) by (intro div_mod_eqI [of b 16 b']) simp_all
  ultimately show ?case using ys by simp
next
  case (4 a b c s)
  then have "3 \<le> length ys" by (simp del: b64_bytes.simps)
  then obtain a' b' c' s' where ys: "ys = a' # b' # c' # s'"
    by (cases ys; cases "tl ys"; cases "tl (tl ys)") auto
  have bd: "a < 256" "b < 256" "c < 256" "a' < 256" "b' < 256" "c' < 256"
    using "4.prems"(1,2) ys by simp_all
  have lt: "b div 16 < 16" "b' div 16 < 16" "c div 64 < 4" "c' div 64 < 4"
    using bd by (simp_all add: less_mult_imp_div_less)
  have eq: "a div 4 = a' div 4"
    "a mod 4 * 16 + b div 16 = a' mod 4 * 16 + b' div 16"
    "b mod 16 * 4 + c div 64 = b' mod 16 * 4 + c' div 64"
    "c mod 64 = c' mod 64" "b64_bytes s = b64_bytes s'"
    using "4.prems"(4) bd
    by (simp_all only: ys b64_bytes.simps append.simps list.inject b64_char_eq b64_index)
  note ab = mixed_radix [OF eq(2) lt(1,2)] and bc = mixed_radix [OF eq(3) lt(3,4)]
  have "a = a'" "b = b'" "c = c'"
    using div_mod_eqI [OF eq(1) ab(1)] div_mod_eqI [OF ab(2) bc(1)] div_mod_eqI [OF bc(2) eq(4)]
    by simp_all
  moreover have "s = s'" using "4.prems" ys eq(5) by (intro "4.IH") auto
  ultimately show ?case using ys by simp
qed

lemma base64_RawURL_inj:
  "length a = length b \<Longrightarrow> base64_RawURL a = base64_RawURL b \<Longrightarrow> a = b"
proof -
  assume "length a = length b" "base64_RawURL a = base64_RawURL b"
  then have "map byte_of a = map byte_of b"
    by (intro b64_bytes_inj) (auto simp: base64_RawURL_def)
  then show ?thesis by (simp add: inj_map_eq_map inj_def)
qed

lemma length_base64_RawURL: "length (base64_RawURL bs) = (4 * length bs + 2) div 3"
  by (simp add: base64_RawURL_def length_b64_bytes)

end
