(* ===== verification/Go_Json.thy ===== *)
theory Go_Json
  imports Go_Strings
begin

text \<open>
  \<open>encoding/json\<close> as the gateway uses it: the values, the encoder of
  \<open>json.NewEncoder(w).Encode\<close> and \<open>json.Marshal\<close> (HTML characters escaped, as is the
  default), the scanner, \<open>json.Unmarshal\<close>, and a \<open>json.Decoder\<close> over a body limited by
  \<open>http.MaxBytesReader\<close>. The decoder reads one value and leaves what follows it alone; when
  the limit cuts the value the error is the limit's. Struct decoding matches a key exactly
  first and then up to case, keeps a field on \<open>null\<close>, and with \<open>DisallowUnknownFields\<close>
  fails on a key of no field. A decoding error is \<open>None\<close>: the callers drop the partial
  result. The recursion of the scanner is bounded by twice the length of its input; \<open>json_scan_eq\<close>
  shows that a larger bound never gives another result. The limit of 10000 levels of nesting is left out.
\<close>

datatype json = JNull | JBool bool | JNum string | JStr string
  | JArr "json list" | JObj "(string \<times> json) list"

section \<open>UTF-8\<close>

definition cont :: "nat \<Rightarrow> bool" where
  "cont b \<longleftrightarrow> 128 \<le> b \<and> b \<le> 191"

text \<open>The length of the well-formed UTF-8 sequence a string starts with, 0 for none.\<close>

definition seq2 :: "nat \<Rightarrow> nat \<Rightarrow> bool" where
  "seq2 a b \<longleftrightarrow> 194 \<le> a \<and> a \<le> 223 \<and> cont b"

definition seq3 :: "nat \<Rightarrow> nat \<Rightarrow> nat \<Rightarrow> bool" where
  "seq3 a b c \<longleftrightarrow>
     (a = 224 \<and> 160 \<le> b \<and> b \<le> 191 \<or> a = 237 \<and> 128 \<le> b \<and> b \<le> 159 \<or>
      225 \<le> a \<and> a \<le> 239 \<and> a \<noteq> 237 \<and> cont b) \<and> cont c"

definition seq4 :: "nat \<Rightarrow> nat \<Rightarrow> nat \<Rightarrow> nat \<Rightarrow> bool" where
  "seq4 a b c d \<longleftrightarrow>
     (a = 240 \<and> 144 \<le> b \<and> b \<le> 191 \<or> 241 \<le> a \<and> a \<le> 243 \<and> cont b \<or>
      a = 244 \<and> 128 \<le> b \<and> b \<le> 143) \<and> cont c \<and> cont d"

definition utf8_head :: "nat list \<Rightarrow> nat" where
  "utf8_head bs = (case bs of
     [] \<Rightarrow> 0
   | a # s \<Rightarrow>
       if a < 128 then 1
       else case s of
         [] \<Rightarrow> 0
       | b # s' \<Rightarrow>
           if seq2 a b then 2
           else case s' of
             [] \<Rightarrow> 0
           | c # s'' \<Rightarrow>
               if seq3 a b c then 3
               else case s'' of
                 [] \<Rightarrow> 0
               | d # _ \<Rightarrow> if seq4 a b c d then 4 else 0)"

definition utf8_len :: "string \<Rightarrow> nat" where
  "utf8_len s = utf8_head (map byte_of (take 4 s))"

lemma utf8_len_le: "utf8_len s \<le> length s"
  by (cases s; cases "tl s"; cases "tl (tl s)"; cases "tl (tl (tl s))")
    (auto simp: utf8_len_def utf8_head_def)

lemma utf8_len_append: "utf8_len s \<noteq> 0 \<Longrightarrow> utf8_len (s @ t) = utf8_len s"
  by (cases s; cases "tl s"; cases "tl (tl s)"; cases "tl (tl (tl s))")
    (auto simp: utf8_len_def utf8_head_def split: list.splits if_splits)

lemma utf8_len_ascii [simp]: "byte_of c < 128 \<Longrightarrow> utf8_len (c # s) = 1"
  by (simp add: utf8_len_def utf8_head_def)

function utf8_valid :: "string \<Rightarrow> bool" where
  "utf8_valid s =
     (if s = [] then True
      else if utf8_len s = 0 then False
      else utf8_valid (drop (utf8_len s) s))"
  by pat_completeness auto
termination
  by (relation "measure length") auto

declare utf8_valid.simps [simp del]

lemma utf8_valid_Nil [simp]: "utf8_valid []"
  by (subst utf8_valid.simps) simp

text \<open>\<open>utf8.EncodeRune\<close>.\<close>

definition utf8_encode :: "nat \<Rightarrow> string" where
  "utf8_encode r = map char_of_byte
     (if r < 128 then [r]
      else if r < 2048 then [192 + r div 64, 128 + r mod 64]
      else if r < 65536 then [224 + r div 4096, 128 + r div 64 mod 64, 128 + r mod 64]
      else [240 + r div 262144, 128 + r div 4096 mod 64, 128 + r div 64 mod 64, 128 + r mod 64])"

definition replacement :: string where
  "replacement = utf8_encode 65533"

section \<open>Encoding\<close>

definition quote :: char where "quote = CHR 0x22"
definition backslash :: char where "backslash = CHR 0x5C"

definition esc_u :: "nat \<Rightarrow> string" where
  "esc_u n = [backslash, CHR ''u'', hex_digit (n div 4096), hex_digit (n div 256 mod 16),
     hex_digit (n div 16 mod 16), hex_digit (n mod 16)]"

definition esc_ascii :: "char \<Rightarrow> string" where
  "esc_ascii c =
     (let b = byte_of c in
      if c = quote \<or> c = backslash then [backslash, c]
      else if b = 8 then [backslash, CHR ''b'']
      else if b = 12 then [backslash, CHR ''f'']
      else if b = 10 then [backslash, CHR ''n'']
      else if b = 13 then [backslash, CHR ''r'']
      else if b = 9 then [backslash, CHR ''t'']
      else if b < 32 \<or> c = CHR ''<'' \<or> c = CHR ''>'' \<or> c = CHR ''&'' then esc_u b
      else [c])"

function esc_string :: "string \<Rightarrow> string" where
  "esc_string [] = []"
| "esc_string (c # s) =
     (if byte_of c < 128 then esc_ascii c @ esc_string s
      else let n = utf8_len (c # s) in
        if n = 0 then esc_u 65533 @ esc_string s
        else if take 3 (c # s) = utf8_encode 8232 then esc_u 8232 @ esc_string (drop 3 (c # s))
        else if take 3 (c # s) = utf8_encode 8233 then esc_u 8233 @ esc_string (drop 3 (c # s))
        else take n (c # s) @ esc_string (drop n (c # s)))"
  by pat_completeness auto
termination
  by (relation "measure length") auto

declare esc_string.simps(2) [simp del]

definition json_string :: "string \<Rightarrow> string" where
  "json_string s = quote # esc_string s @ [quote]"

fun json_encode :: "json \<Rightarrow> string"
  and enc_elems :: "json list \<Rightarrow> string"
  and enc_members :: "(string \<times> json) list \<Rightarrow> string" where
  "json_encode JNull = ''null''"
| "json_encode (JBool b) = (if b then ''true'' else ''false'')"
| "json_encode (JNum t) = t"
| "json_encode (JStr s) = json_string s"
| "json_encode (JArr xs) = ''['' @ enc_elems xs @ '']''"
| "json_encode (JObj ms) = ''{'' @ enc_members ms @ ''}''"
| "enc_elems [] = []"
| "enc_elems (x # xs) = json_encode x @ (if xs = [] then [] else '','' @ enc_elems xs)"
| "enc_members [] = []"
| "enc_members ((k, v) # ms) =
     json_string k @ '':'' @ json_encode v @ (if ms = [] then [] else '','' @ enc_members ms)"

definition json_int :: "int \<Rightarrow> json" where
  "json_int i = JNum (Itoa i)"

text \<open>A pointer field: \<open>null\<close> when nil.\<close>

definition json_opt :: "('a \<Rightarrow> json) \<Rightarrow> 'a option \<Rightarrow> json" where
  "json_opt f x = (case x of None \<Rightarrow> JNull | Some y \<Rightarrow> f y)"

section \<open>Scanning\<close>

text \<open>
  \<open>PMore\<close>: the input ends inside the value. \<open>PErr\<close>: no continuation of the input is a value.
\<close>

datatype 'a pres = POk 'a string | PMore | PErr

definition pmap :: "('a \<Rightarrow> 'b) \<Rightarrow> 'a pres \<Rightarrow> 'b pres" where
  "pmap f p = (case p of POk x s \<Rightarrow> POk (f x) s | PMore \<Rightarrow> PMore | PErr \<Rightarrow> PErr)"

lemma pmap_simps [simp]: "pmap f (POk x s) = POk (f x) s" "pmap f PMore = PMore" "pmap f PErr = PErr"
  by (simp_all add: pmap_def)

definition is_ws :: "char \<Rightarrow> bool" where
  "is_ws c \<longleftrightarrow> byte_of c = 32 \<or> byte_of c = 9 \<or> byte_of c = 10 \<or> byte_of c = 13"

definition skip_ws :: "string \<Rightarrow> string" where
  "skip_ws s = dropWhile is_ws s"

fun expect :: "string \<Rightarrow> 'a \<Rightarrow> string \<Rightarrow> 'a pres" where
  "expect [] x s = POk x s"
| "expect (c # p) x [] = PMore"
| "expect (c # p) x (d # s) = (if c = d then expect p x s else PErr)"

fun hex_n :: "nat \<Rightarrow> nat \<Rightarrow> string \<Rightarrow> nat pres" where
  "hex_n 0 acc s = POk acc s"
| "hex_n (Suc k) acc [] = PMore"
| "hex_n (Suc k) acc (c # s) =
     (case hex_val c of None \<Rightarrow> PErr | Some d \<Rightarrow> hex_n k (16 * acc + d) s)"

lemma hex_n_length: "hex_n k acc s = POk r t \<Longrightarrow> length t + k = length s"
  by (induction k acc s rule: hex_n.induct) (auto split: option.splits)

definition hex4 :: "string \<Rightarrow> nat pres" where
  "hex4 s = hex_n (Suc (Suc (Suc (Suc 0)))) 0 s"

lemma hex4_length: "hex4 s = POk r t \<Longrightarrow> length t < length s"
  by (auto simp: hex4_def dest: hex_n_length)

definition surrogate :: "nat \<Rightarrow> bool" where
  "surrogate r \<longleftrightarrow> 55296 \<le> r \<and> r \<le> 57343"

text \<open>A \<open>\\u\<close> escape of code unit \<open>r\<close>: a surrogate needs its pair, else it is U+FFFD.\<close>

definition unescape_u :: "nat \<Rightarrow> string \<Rightarrow> string \<times> string" where
  "unescape_u r s =
     (if surrogate r then
        (case s of
           b # u # s' \<Rightarrow>
             if b = backslash \<and> u = CHR ''u'' then
               (case hex4 s' of
                  POk lo t \<Rightarrow>
                    if r \<le> 56319 \<and> 56320 \<le> lo \<and> lo \<le> 57343
                    then (utf8_encode ((r - 55296) * 1024 + (lo - 56320) + 65536), t)
                    else (replacement, s)
                | _ \<Rightarrow> (replacement, s))
             else (replacement, s)
         | _ \<Rightarrow> (replacement, s))
      else (utf8_encode r, s))"

lemma unescape_u_length: "length (snd (unescape_u r s)) \<le> length s"
  by (auto simp: unescape_u_def split: list.splits pres.splits dest!: hex4_length)

definition simple_esc :: "char \<Rightarrow> char option" where
  "simple_esc e =
     (if e = quote \<or> e = backslash \<or> e = CHR ''/'' then Some e
      else if e = CHR ''b'' then Some (char_of_byte 8)
      else if e = CHR ''f'' then Some (char_of_byte 12)
      else if e = CHR ''n'' then Some (char_of_byte 10)
      else if e = CHR ''r'' then Some (char_of_byte 13)
      else if e = CHR ''t'' then Some (char_of_byte 9)
      else None)"

text \<open>The inside of a string, after its opening quote.\<close>

function parse_str :: "string \<Rightarrow> string pres" where
  "parse_str [] = PMore"
| "parse_str (c # s) =
     (if c = quote then POk [] s
      else if c = backslash then
        (case s of
           [] \<Rightarrow> PMore
         | e # t \<Rightarrow>
             if e = CHR ''u'' then
               (case hex4 t of
                  POk r u \<Rightarrow> pmap ((@) (fst (unescape_u r u))) (parse_str (snd (unescape_u r u)))
                | PMore \<Rightarrow> PMore
                | PErr \<Rightarrow> PErr)
             else
               (case simple_esc e of None \<Rightarrow> PErr | Some x \<Rightarrow> pmap ((#) x) (parse_str t)))
      else if byte_of c < 32 then PErr
      else if utf8_len (c # s) = 0 then pmap ((@) replacement) (parse_str s)
      else pmap ((@) (take (utf8_len (c # s)) (c # s))) (parse_str (drop (utf8_len (c # s)) (c # s))))"
  by pat_completeness auto
termination
proof (relation "measure length")
  fix c s e t r u
  assume "s = e # t" "hex4 t = POk r u"
  then show "(snd (unescape_u r u), c # s) \<in> measure length"
    using unescape_u_length [of r u] by (auto dest!: hex4_length)
qed auto

declare parse_str.simps(2) [simp del]

section \<open>Numbers\<close>

definition is_digit :: "char \<Rightarrow> bool" where
  "is_digit c \<longleftrightarrow> digit_val c \<noteq> None"

text \<open>One digit or more, kept in front of what \<open>k\<close> reads after them.\<close>

definition digits1 :: "string \<Rightarrow> (string \<Rightarrow> string pres) \<Rightarrow> string pres" where
  "digits1 s k = (case s of
     [] \<Rightarrow> PMore
   | c # _ \<Rightarrow> if is_digit c then pmap ((@) (takeWhile is_digit s)) (k (dropWhile is_digit s)) else PErr)"

definition num_exp :: "string \<Rightarrow> string pres" where
  "num_exp s = (case s of
     c # t \<Rightarrow>
       if c = CHR ''e'' \<or> c = CHR ''E'' then
         (case t of
            d # t' \<Rightarrow>
              if d = CHR ''+'' \<or> d = CHR ''-'' then pmap (\<lambda>r. c # d # r) (digits1 t' (POk []))
              else pmap ((#) c) (digits1 t (POk []))
          | [] \<Rightarrow> PMore)
       else POk [] s
   | [] \<Rightarrow> POk [] s)"

definition num_frac :: "string \<Rightarrow> string pres" where
  "num_frac s = (case s of
     c # t \<Rightarrow> if c = CHR ''.'' then pmap ((#) c) (digits1 t num_exp) else num_exp s
   | [] \<Rightarrow> POk [] s)"

definition num_int :: "string \<Rightarrow> string pres" where
  "num_int s = (case s of
     [] \<Rightarrow> PMore
   | c # t \<Rightarrow> if c = CHR ''0'' then pmap ((#) c) (num_frac t) else digits1 s num_frac)"

definition parse_num :: "string \<Rightarrow> string pres" where
  "parse_num s = (case s of
     c # t \<Rightarrow> if c = CHR ''-'' then pmap ((#) c) (num_int t) else num_int s
   | [] \<Rightarrow> PMore)"

section \<open>Values\<close>

fun json_value :: "nat \<Rightarrow> string \<Rightarrow> json pres"
  and json_elems :: "nat \<Rightarrow> string \<Rightarrow> json list pres"
  and json_members :: "nat \<Rightarrow> string \<Rightarrow> (string \<times> json) list pres" where
  "json_value 0 s = PErr"
| "json_value (Suc n) s =
     (case s of
        [] \<Rightarrow> PMore
      | c # t \<Rightarrow>
          if c = CHR ''{'' then
            (case skip_ws t of
               [] \<Rightarrow> PMore
             | d # u \<Rightarrow> if d = CHR ''}'' then POk (JObj []) u else pmap JObj (json_members n (d # u)))
          else if c = CHR ''['' then
            (case skip_ws t of
               [] \<Rightarrow> PMore
             | d # u \<Rightarrow> if d = CHR '']'' then POk (JArr []) u else pmap JArr (json_elems n (d # u)))
          else if c = quote then pmap JStr (parse_str t)
          else if c = CHR ''t'' then expect ''rue'' (JBool True) t
          else if c = CHR ''f'' then expect ''alse'' (JBool False) t
          else if c = CHR ''n'' then expect ''ull'' JNull t
          else pmap JNum (parse_num s))"
| "json_elems 0 s = PErr"
| "json_elems (Suc n) s =
     (case json_value n s of
        POk v t \<Rightarrow>
          (case skip_ws t of
             [] \<Rightarrow> PMore
           | c # u \<Rightarrow>
               if c = CHR '']'' then POk [v] u
               else if c = CHR '','' then pmap ((#) v) (json_elems n (skip_ws u))
               else PErr)
      | PMore \<Rightarrow> PMore | PErr \<Rightarrow> PErr)"
| "json_members 0 s = PErr"
| "json_members (Suc n) s =
     (case s of
        [] \<Rightarrow> PMore
      | q # t \<Rightarrow>
          if q \<noteq> quote then PErr
          else case parse_str t of
            POk k u \<Rightarrow>
              (case skip_ws u of
                 [] \<Rightarrow> PMore
               | c # w \<Rightarrow>
                   if c \<noteq> CHR '':'' then PErr
                   else case json_value n (skip_ws w) of
                     POk v x \<Rightarrow>
                       (case skip_ws x of
                          [] \<Rightarrow> PMore
                        | d # y \<Rightarrow>
                            if d = CHR ''}'' then POk [(k, v)] y
                            else if d = CHR '','' then pmap ((#) (k, v)) (json_members n (skip_ws y))
                            else PErr)
                   | PMore \<Rightarrow> PMore | PErr \<Rightarrow> PErr)
          | PMore \<Rightarrow> PMore | PErr \<Rightarrow> PErr)"

definition json_scan :: "string \<Rightarrow> json pres" where
  "json_scan s = json_value (2 * length s + 1) (skip_ws s)"

subsection \<open>The bound on the recursion\<close>

lemma skip_ws_length: "length (skip_ws s) \<le> length s"
  by (simp add: skip_ws_def length_dropWhile_le)

lemma skip_ws_shorter: "skip_ws s = c # t \<Longrightarrow> length t < length s"
  using skip_ws_length [of s] by simp

lemma expect_length: "expect p x s = POk v t \<Longrightarrow> length t \<le> length s"
  by (induction p x s rule: expect.induct) (auto split: if_splits)

lemma pmap_POk: "pmap f p = POk y t \<longleftrightarrow> (\<exists>x. p = POk x t \<and> y = f x)"
  by (cases p) auto

lemma parse_str_length: "parse_str s = POk v t \<Longrightarrow> length t < length s"
proof (induction s arbitrary: v rule: parse_str.induct)
  case (2 c s)
  note prem = 2(5) and esc_u = 2(1) and esc = 2(2) and bad = 2(3) and plain = 2(4)
  show ?case
  proof (cases "c = quote")
    case True
    then show ?thesis using prem by (simp add: parse_str.simps(2))
  next
    case nq: False
    show ?thesis
    proof (cases "c = backslash")
      case bs: True
      with nq prem obtain e u where s: "s = e # u" by (cases s) (auto simp: parse_str.simps(2))
      show ?thesis
      proof (cases "e = CHR ''u''")
        case eu: True
        with nq bs prem s obtain r x y where "hex4 u = POk r x" "parse_str (snd (unescape_u r x)) = POk y t"
          by (auto simp: parse_str.simps(2) pmap_POk split: pres.splits)
        then show ?thesis
          using esc_u [OF nq bs s eu] s hex4_length [of u r x] unescape_u_length [of r x] by fastforce
      next
        case False
        with nq bs prem s obtain x y where "simple_esc e = Some x" "parse_str u = POk y t"
          by (auto simp: parse_str.simps(2) pmap_POk split: option.splits)
        then show ?thesis using esc [OF nq bs s False] s by fastforce
      qed
    next
      case nb: False
      with nq prem have k: "\<not> byte_of c < 32" by (auto simp: parse_str.simps(2))
      show ?thesis
      proof (cases "utf8_len (c # s) = 0")
        case True
        then obtain y where "parse_str s = POk y t" using prem nq nb k by (auto simp: parse_str.simps(2) pmap_POk)
        then show ?thesis using bad [OF nq nb k True] by fastforce
      next
        case False
        then obtain y where "parse_str (drop (utf8_len (c # s)) (c # s)) = POk y t"
          using prem nq nb k by (auto simp: parse_str.simps(2) pmap_POk)
        from plain [OF nq nb k False this] show ?thesis using False by simp
      qed
    qed
  qed
qed simp

lemma digits1_length:
  assumes "digits1 s k = POk v t" "\<And>u w. k u = POk w t \<Longrightarrow> length t \<le> length u"
  shows "length t < length s"
  using assms
  by (cases s) (auto simp: digits1_def pmap_POk split: if_splits intro: le_less_trans [OF _ le_imp_less_Suc [OF length_dropWhile_le]])

lemma num_exp_length: "num_exp s = POk v t \<Longrightarrow> length t \<le> length s"
  by (auto simp: num_exp_def pmap_POk split: list.splits if_splits dest!: digits1_length)

lemma digits1_exp: "digits1 s num_exp = POk v t \<Longrightarrow> length t < length s"
  by (rule digits1_length) (auto dest: num_exp_length)

lemma num_frac_length: "num_frac s = POk v t \<Longrightarrow> length t \<le> length s"
  by (cases s) (auto simp: num_frac_def pmap_POk split: if_splits
      dest!: digits1_exp num_exp_length)

lemma digits1_frac: "digits1 s num_frac = POk v t \<Longrightarrow> length t < length s"
  by (rule digits1_length) (auto dest: num_frac_length)

lemma num_int_length: "num_int s = POk v t \<Longrightarrow> length t < length s"
  by (cases s) (auto simp: num_int_def pmap_POk less_Suc_eq_le split: if_splits
      dest!: digits1_frac num_frac_length)

lemma parse_num_length: "parse_num s = POk v t \<Longrightarrow> length t < length s"
  by (cases s) (auto simp: parse_num_def pmap_POk less_SucI split: if_splits dest!: num_int_length)

lemma json_length:
  "json_value n s = POk v t \<Longrightarrow> length t < length s"
  "json_elems n s = POk vs t \<Longrightarrow> length t < length s"
  "json_members n s = POk ms t \<Longrightarrow> length t < length s"
proof (induction n s and n s and n s arbitrary: v t and vs t and ms t rule: json_value_json_elems_json_members.induct)
  case (2 n s)
  obtain c u where s: "s = c # u" using 2(3) by (cases s) auto
  show ?case
  proof (cases "c = CHR ''{'' \<or> c = CHR ''[''")
    case True
    then obtain d x where u: "skip_ws u = d # x" using 2(3) s by (cases "skip_ws u") auto
    then have x: "length (d # x) \<le> length u" using skip_ws_length [of u] by simp
    have "length t < length (d # x)"
      using True 2(3) 2(1) [OF s _ u] 2(2) [OF s _ _ u] unfolding s
      by (auto simp: u pmap_POk split: if_splits)
    with x show ?thesis unfolding s by simp
  next
    case False
    then show ?thesis
      using 2(3) unfolding s
      by (auto simp: pmap_POk less_Suc_eq_le split: if_splits dest!: parse_str_length expect_length parse_num_length)
  qed
next
  case (4 n s)
  obtain x u where v: "json_value n s = POk x u" using 4(3) by (auto split: pres.splits)
  obtain c y where u: "skip_ws u = c # y" using 4(3) v by (cases "skip_ws u") auto
  have l: "length u < length s" by (rule 4(1) [OF v])
  have "length t \<le> length y"
    using 4(3) 4(2) [OF v u] skip_ws_length [of y] unfolding json_elems.simps v
    by (auto simp: u pmap_POk split: if_splits)
  then show ?case using skip_ws_shorter [OF u] l by simp
next
  case (6 n s)
  obtain q a where s: "s = q # a" "q = quote" using 6(3) by (cases s) (auto split: if_splits)
  obtain k u where k: "parse_str a = POk k u" using 6(3) s by (auto split: pres.splits)
  obtain w where u: "skip_ws u = CHR '':'' # w" using 6(3) s k by (cases "skip_ws u") (auto split: if_splits)
  obtain x z where v: "json_value n (skip_ws w) = POk x z" using 6(3) s k u by (auto split: pres.splits)
  obtain d y where z: "skip_ws z = d # y" using 6(3) s k u v by (cases "skip_ws z") auto
  have "length t \<le> length y"
    using 6(3) 6(2) [OF s(1) _ k u _ v z] skip_ws_length [of y] unfolding s
    by (auto simp: k u v z pmap_POk split: if_splits)
  moreover have "length z < length (skip_ws w)" by (rule 6(1) [OF s(1) _ k u _ v]) (simp_all add: s)
  ultimately show ?case
    using skip_ws_shorter [OF z] skip_ws_shorter [OF u] skip_ws_length [of w] parse_str_length [OF k] unfolding s by simp
qed simp_all

text \<open>Above twice the length of the input, more fuel changes nothing.\<close>

lemma json_fuel_Suc:
  "(2 * length s + 1 \<le> n \<longrightarrow> json_value (Suc n) s = json_value n s) \<and>
   (2 * length s + 2 \<le> n \<longrightarrow> json_elems (Suc n) s = json_elems n s) \<and>
   (2 * length s + 2 \<le> n \<longrightarrow> json_members (Suc n) s = json_members n s)"
proof (induction n arbitrary: s)
  case (Suc n)
  note V = Suc [THEN conjunct1, THEN mp] and E = Suc [THEN conjunct2, THEN conjunct1, THEN mp]
    and M = Suc [THEN conjunct2, THEN conjunct2, THEN mp]
  have value_step: "json_value (Suc (Suc n)) s = json_value (Suc n) s" if n: "2 * length s + 1 \<le> Suc n"
  proof (cases s)
    case (Cons c t)
    have "json_members (Suc n) (d # u) = json_members n (d # u)" "json_elems (Suc n) (d # u) = json_elems n (d # u)"
      if "skip_ws t = d # u" for d u
      using n Cons skip_ws_shorter [OF that] by (intro M E; simp)+
    then show ?thesis
      unfolding Cons json_value.simps(2) by (auto split: list.split)
  qed simp
  have elems_step: "json_elems (Suc (Suc n)) s = json_elems (Suc n) s" if n: "2 * length s + 2 \<le> Suc n"
  proof -
    have v: "json_value (Suc n) s = json_value n s" using n by (intro V) simp
    have "json_elems (Suc n) (skip_ws u) = json_elems n (skip_ws u)"
      if "json_value n s = POk x t" "skip_ws t = c # u" for x t c u
    proof (rule E)
      show "2 * length (skip_ws u) + 2 \<le> n"
        using n json_length(1) [OF that(1)] skip_ws_shorter [OF that(2)] skip_ws_length [of u] by simp
    qed
    then show ?thesis
      unfolding json_elems.simps(2) v by (auto split: pres.split list.split)
  qed
  have members_step: "json_members (Suc (Suc n)) s = json_members (Suc n) s" if n: "2 * length s + 2 \<le> Suc n"
  proof (cases s)
    case (Cons q a)
    have v: "json_value (Suc n) (skip_ws w) = json_value n (skip_ws w)"
      and m: "\<And>x z d y. json_value n (skip_ws w) = POk x z \<Longrightarrow> skip_ws z = d # y \<Longrightarrow>
        json_members (Suc n) (skip_ws y) = json_members n (skip_ws y)"
      if k: "parse_str a = POk k u" and u: "skip_ws u = c # w" for k u c w
    proof -
      have w: "length w < length u" "length u < length a" using skip_ws_shorter [OF u] parse_str_length [OF k] .
      then show "json_value (Suc n) (skip_ws w) = json_value n (skip_ws w)"
        using n Cons skip_ws_length [of w] by (intro V) simp
      fix x z d y assume x: "json_value n (skip_ws w) = POk x z" "skip_ws z = d # y"
      show "json_members (Suc n) (skip_ws y) = json_members n (skip_ws y)"
        using n Cons w json_length(1) [OF x(1)] skip_ws_shorter [OF x(2)] skip_ws_length [of y] skip_ws_length [of w]
        by (intro M) simp
    qed
    then show ?thesis
      unfolding Cons json_members.simps(2) by (auto split: pres.split list.split)
  qed simp
  show ?case using value_step elems_step members_step by blast
qed simp

lemma json_fuel_enough:
  assumes "2 * length s + 1 \<le> n"
  shows "json_value n s = json_value (2 * length s + 1) s"
  using assms by (induction rule: dec_induct) (simp_all only: json_fuel_Suc [THEN conjunct1, THEN mp])

lemma json_scan_eq: "2 * length s + 1 \<le> n \<Longrightarrow> json_scan s = json_value n (skip_ws s)"
  unfolding json_scan_def
  using json_fuel_enough [of "skip_ws s" n] json_fuel_enough [of "skip_ws s" "2 * length s + 1"] skip_ws_length [of s] by simp

text \<open>\<open>json.Unmarshal\<close>: one value with white space around it.\<close>

definition json_unmarshal :: "string \<Rightarrow> json option" where
  "json_unmarshal s =
     (case json_scan s of POk v t \<Rightarrow> if skip_ws t = [] then Some v else None | _ \<Rightarrow> None)"

text \<open>
  \<open>json.NewDecoder(http.MaxBytesReader(w, body, limit))\<close>, its first value. An object or an
  array ends with its bracket; any other value needs the byte after it, or the end.
\<close>

datatype body_error = BodyTooLarge | BodyInvalid

definition bracketed :: "json \<Rightarrow> bool" where
  "bracketed v \<longleftrightarrow> (case v of JArr _ \<Rightarrow> True | JObj _ \<Rightarrow> True | _ \<Rightarrow> False)"

definition json_decode_limited :: "int \<Rightarrow> string \<Rightarrow> body_error + json" where
  "json_decode_limited limit body =
     (let over = (limit < int (length body)) in
      case json_scan (if over then take (nat limit) body else body) of
        POk v t \<Rightarrow> if over \<and> t = [] \<and> \<not> bracketed v then Inl BodyTooLarge else Inr v
      | PMore \<Rightarrow> Inl (if over then BodyTooLarge else BodyInvalid)
      | PErr \<Rightarrow> Inl BodyInvalid)"

section \<open>Decoding into structs\<close>

text \<open>
  Key folding (\<open>foldName\<close>): ASCII letters up to case, and the two characters beyond ASCII
  that fold to an ASCII letter, U+017F (to s) and U+212A (to k).
\<close>

function fold_name :: "string \<Rightarrow> string" where
  "fold_name [] = []"
| "fold_name (c # s) =
     (if take 2 (c # s) = utf8_encode 383 then CHR ''s'' # fold_name (drop 2 (c # s))
      else if take 3 (c # s) = utf8_encode 8490 then CHR ''k'' # fold_name (drop 3 (c # s))
      else (if 65 \<le> byte_of c \<and> byte_of c \<le> 90 then char_of_byte (byte_of c + 32) else c) # fold_name s)"
  by pat_completeness auto
termination
  by (relation "measure length") auto

type_synonym 'a field = "string \<times> (json \<Rightarrow> 'a \<Rightarrow> 'a option)"

definition find_field :: "'a field list \<Rightarrow> string \<Rightarrow> (json \<Rightarrow> 'a \<Rightarrow> 'a option) option" where
  "find_field fs k =
     (case map_of fs k of
        Some f \<Rightarrow> Some f
      | None \<Rightarrow> map_of (map (\<lambda>(n, f). (fold_name n, f)) fs) (fold_name k))"

fun decode_members :: "bool \<Rightarrow> 'a field list \<Rightarrow> (string \<times> json) list \<Rightarrow> 'a \<Rightarrow> 'a option" where
  "decode_members strict fs [] a = Some a"
| "decode_members strict fs ((k, v) # ms) a =
     (case find_field fs k of
        None \<Rightarrow> if strict then None else decode_members strict fs ms a
      | Some f \<Rightarrow>
          (case f v a of None \<Rightarrow> None | Some a' \<Rightarrow> decode_members strict fs ms a'))"

definition decode_struct :: "bool \<Rightarrow> 'a field list \<Rightarrow> json \<Rightarrow> 'a \<Rightarrow> 'a option" where
  "decode_struct strict fs v a =
     (case v of JNull \<Rightarrow> Some a | JObj ms \<Rightarrow> decode_members strict fs ms a | _ \<Rightarrow> None)"

definition dec_string :: "(string \<Rightarrow> 'a \<Rightarrow> 'a) \<Rightarrow> json \<Rightarrow> 'a \<Rightarrow> 'a option" where
  "dec_string upd v a = (case v of JNull \<Rightarrow> Some a | JStr s \<Rightarrow> Some (upd s a) | _ \<Rightarrow> None)"

definition dec_bool :: "(bool \<Rightarrow> 'a \<Rightarrow> 'a) \<Rightarrow> json \<Rightarrow> 'a \<Rightarrow> 'a option" where
  "dec_bool upd v a = (case v of JNull \<Rightarrow> Some a | JBool b \<Rightarrow> Some (upd b a) | _ \<Rightarrow> None)"

definition dec_int :: "(int \<Rightarrow> 'a \<Rightarrow> 'a) \<Rightarrow> json \<Rightarrow> 'a \<Rightarrow> 'a option" where
  "dec_int upd v a =
     (case v of
        JNull \<Rightarrow> Some a
      | JNum t \<Rightarrow> (case Atoi t of None \<Rightarrow> None | Some i \<Rightarrow> Some (upd i a))
      | _ \<Rightarrow> None)"

text \<open>
  A pointer field is nil on \<open>null\<close>; otherwise \<open>dec\<close> reads into what it points to, a zero value
  when it was nil.
\<close>

definition dec_ptr :: "(json \<Rightarrow> 'b \<Rightarrow> 'b option) \<Rightarrow> 'b \<Rightarrow> ('a \<Rightarrow> 'b option) \<Rightarrow> ('b option \<Rightarrow> 'a \<Rightarrow> 'a)
    \<Rightarrow> json \<Rightarrow> 'a \<Rightarrow> 'a option" where
  "dec_ptr dec zero get upd v a =
     (case v of
        JNull \<Rightarrow> Some (upd None a)
      | _ \<Rightarrow> (case dec v (case get a of None \<Rightarrow> zero | Some b \<Rightarrow> b) of
                 None \<Rightarrow> None | Some b \<Rightarrow> Some (upd (Some b) a)))"

text \<open>A field that is a struct: it decodes into the value it has.\<close>

definition dec_nested :: "(json \<Rightarrow> 'b \<Rightarrow> 'b option) \<Rightarrow> ('a \<Rightarrow> 'b) \<Rightarrow> ('b \<Rightarrow> 'a \<Rightarrow> 'a) \<Rightarrow> json \<Rightarrow> 'a \<Rightarrow> 'a option" where
  "dec_nested dec get upd v a = (case dec v (get a) of None \<Rightarrow> None | Some b \<Rightarrow> Some (upd b a))"

text \<open>Slice elements decode into the elements the slice already has (a repeated key).\<close>

fun decode_elems :: "(json \<Rightarrow> 'b \<Rightarrow> 'b option) \<Rightarrow> 'b \<Rightarrow> 'b list \<Rightarrow> json list \<Rightarrow> 'b list option" where
  "decode_elems f zero old [] = Some []"
| "decode_elems f zero old (v # vs) =
     (case f v (case old of [] \<Rightarrow> zero | b # _ \<Rightarrow> b) of
        None \<Rightarrow> None
      | Some b \<Rightarrow>
          (case decode_elems f zero (tl old) vs of None \<Rightarrow> None | Some bs \<Rightarrow> Some (b # bs)))"

definition dec_slice :: "(json \<Rightarrow> 'b \<Rightarrow> 'b option) \<Rightarrow> 'b \<Rightarrow> ('a \<Rightarrow> 'b list) \<Rightarrow> ('b list \<Rightarrow> 'a \<Rightarrow> 'a)
    \<Rightarrow> json \<Rightarrow> 'a \<Rightarrow> 'a option" where
  "dec_slice f zero get upd v a =
     (case v of
        JNull \<Rightarrow> Some (upd [] a)
      | JArr vs \<Rightarrow> (case decode_elems f zero (get a) vs of None \<Rightarrow> None | Some bs \<Rightarrow> Some (upd bs a))
      | _ \<Rightarrow> None)"

section \<open>Reading back what was written\<close>

lemma utf8_len_take: "utf8_len s = n \<Longrightarrow> n \<noteq> 0 \<Longrightarrow> utf8_len (take n s @ t) = n"
  by (cases s; cases "tl s"; cases "tl (tl s)"; cases "tl (tl (tl s))")
    (auto simp: utf8_len_def utf8_head_def split: list.splits if_splits)

lemma utf8_len_cases: "utf8_len s = 0 \<or> utf8_len s = 1 \<or> utf8_len s = 2 \<or> utf8_len s = 3 \<or> utf8_len s = 4"
  by (auto simp: utf8_len_def utf8_head_def split: list.splits)

lemma utf8_encode_8232: "utf8_encode 8232 = map char_of_byte [226, 128, 168]"
  and utf8_encode_8233: "utf8_encode 8233 = map char_of_byte [226, 128, 169]"
  by (simp_all add: utf8_encode_def)

lemma utf8_len_8232:
  assumes "take 3 s = utf8_encode 8232 \<or> take 3 s = utf8_encode 8233"
  shows "utf8_len s = 3"
proof -
  obtain x where "take 3 s = map char_of_byte [226, 128, x]" "x = 168 \<or> x = 169"
    using assms by (auto simp: utf8_encode_8232 utf8_encode_8233)
  then have "utf8_len (take 3 s @ drop 3 s) = 3"
    by (auto simp: utf8_len_def utf8_head_def seq2_def seq3_def cont_def)
  then show ?thesis by simp
qed

lemma quote_byte [simp]: "byte_of quote = 34" and backslash_byte [simp]: "byte_of backslash = 92"
  by (simp_all add: quote_def backslash_def byte_of_def)

lemma byte_neqI: "byte_of c \<noteq> byte_of d \<Longrightarrow> c \<noteq> d"
  by auto

lemma quote_neq [simp]: "quote \<noteq> backslash" "backslash \<noteq> quote"
  by (auto dest: arg_cong [where f = byte_of])

lemma hex_n_esc [simp]:
  "n < 65536 \<Longrightarrow>
   hex4 (hex_digit (n div 4096) # hex_digit (n div 256 mod 16) # hex_digit (n div 16 mod 16)
     # hex_digit (n mod 16) # t) = POk n t"
proof -
  assume "n < 65536"
  then have "n div 4096 < 16" by (simp add: less_mult_imp_div_less)
  moreover have "16 * (16 * (16 * (n div 4096) + n div 256 mod 16) + n div 16 mod 16) + n mod 16 = n"
  proof -
    have "n div 256 = n div 16 div 16" "n div 4096 = n div 16 div 16 div 16"
      by (simp_all add: div_mult2_eq [symmetric])
    then show ?thesis by (simp add: mult_div_mod_eq)
  qed
  ultimately show ?thesis by (simp add: hex4_def)
qed

lemma esc_u_parse:
  assumes "n < 65536" "\<not> surrogate n"
  shows "parse_str (esc_u n @ t) = pmap ((@) (utf8_encode n)) (parse_str t)"
  using assms by (simp add: esc_u_def parse_str.simps(2) unescape_u_def)

lemma esc_short:
  "esc_ascii (char_of_byte 8) = [backslash, CHR ''b'']" "simple_esc (CHR ''b'') = Some (char_of_byte 8)"
  "esc_ascii (char_of_byte 9) = [backslash, CHR ''t'']" "simple_esc (CHR ''t'') = Some (char_of_byte 9)"
  "esc_ascii (char_of_byte 10) = [backslash, CHR ''n'']" "simple_esc (CHR ''n'') = Some (char_of_byte 10)"
  "esc_ascii (char_of_byte 12) = [backslash, CHR ''f'']" "simple_esc (CHR ''f'') = Some (char_of_byte 12)"
  "esc_ascii (char_of_byte 13) = [backslash, CHR ''r'']" "simple_esc (CHR ''r'') = Some (char_of_byte 13)"
  by code_simp+

lemma esc_ascii_parse:
  assumes "byte_of c < 128"
  shows "parse_str (esc_ascii c @ t) = pmap ((#) c) (parse_str t)"
proof -
  have e: "utf8_encode (byte_of c) = [c]" using assms by (simp add: utf8_encode_def)
  have b: "c = char_of_byte k" if "byte_of c = k" for k using that by auto
  have u: "parse_str (esc_u (byte_of c) @ t) = pmap ((#) c) (parse_str t)"
    using assms esc_u_parse [of "byte_of c" t] by (cases "parse_str t") (simp_all add: e surrogate_def)
  consider "c = quote \<or> c = backslash" | "byte_of c \<in> {8, 9, 10, 12, 13}"
    | "byte_of c < 32 \<or> c = CHR ''<'' \<or> c = CHR ''>'' \<or> c = CHR ''&''"
      "c \<noteq> quote" "c \<noteq> backslash" "byte_of c \<notin> {8, 9, 10, 12, 13}"
    | "\<not> (byte_of c < 32 \<or> c = CHR ''<'' \<or> c = CHR ''>'' \<or> c = CHR ''&'')" "c \<noteq> quote" "c \<noteq> backslash"
      "byte_of c \<notin> {8, 9, 10, 12, 13}"
    by blast
  then show ?thesis
  proof cases
    case 1
    then have "c \<noteq> CHR ''u''" by (auto simp: quote_def backslash_def)
    with 1 show ?thesis by (auto simp: esc_ascii_def parse_str.simps(2) simple_esc_def)
  next
    case 2
    then have "c \<in> {char_of_byte 8, char_of_byte 9, char_of_byte 10, char_of_byte 12, char_of_byte 13}"
      using b by blast
    then show ?thesis by (auto simp: esc_short parse_str.simps(2))
  next
    case 3
    then have "esc_ascii c = esc_u (byte_of c)" by (auto simp: esc_ascii_def Let_def)
    then show ?thesis using u by simp
  next
    case 4
    then have "esc_ascii c = [c]" by (auto simp: esc_ascii_def Let_def)
    moreover have "(@) [c] = (#) c" by auto
    ultimately show ?thesis using 4 assms by (simp add: parse_str.simps(2))
  qed
qed

lemma parse_esc_string:
  assumes "utf8_valid s"
  shows "parse_str (esc_string s @ quote # t) = POk s t"
  using assms
proof (induction s rule: esc_string.induct)
  case 1
  then show ?case by (simp add: parse_str.simps(2))
next
  case (2 c s)
  let ?n = "utf8_len (c # s)"
  have n0: "?n \<noteq> 0" and v: "utf8_valid (drop ?n (c # s))"
    using "2.prems" by (auto simp: utf8_valid.simps [of "c # s"] split: if_splits)
  show ?case
  proof (cases "byte_of c < 128")
    case True
    then have "parse_str (esc_string s @ quote # t) = POk s t" using v "2.IH"(1) by simp
    with True show ?thesis by (simp add: esc_string.simps(2) esc_ascii_parse)
  next
    case False
    show ?thesis
    proof (cases "take 3 (c # s) = utf8_encode 8232 \<or> take 3 (c # s) = utf8_encode 8233")
      case True
      then have n3: "?n = 3" by (rule utf8_len_8232)
      have IH: "parse_str (esc_string (drop 3 (c # s)) @ quote # t) = POk (drop 3 (c # s)) t"
      proof (cases "take 3 (c # s) = utf8_encode 8232")
        case True
        then show ?thesis using "2.IH"(3) [OF False refl n0] v n3 by simp
      next
        case False8: False
        with True have "take 3 (c # s) = utf8_encode 8233" by simp
        then show ?thesis using "2.IH"(4) [OF False refl n0 False8] v n3 by simp
      qed
      obtain k where k: "k = 8232 \<or> k = 8233" "take 3 (c # s) = utf8_encode k" using True by auto
      then have "esc_string (c # s) = esc_u k @ esc_string (drop 3 (c # s))"
        using False n3 by (auto simp: esc_string.simps(2) Let_def utf8_encode_8232 utf8_encode_8233)
      then have "parse_str (esc_string (c # s) @ quote # t) = POk (take 3 (c # s) @ drop 3 (c # s)) t"
        using IH k esc_u_parse [of k "esc_string (drop 3 (c # s)) @ quote # t"]
        by (auto simp: surrogate_def)
      then show ?thesis by (simp only: append_take_drop_id)
    next
      case ordinary: False
      have IH: "parse_str (esc_string (drop ?n (c # s)) @ quote # t) = POk (drop ?n (c # s)) t"
        using "2.IH"(5) [OF False refl n0] ordinary v by blast
      have enc: "esc_string (c # s) = take ?n (c # s) @ esc_string (drop ?n (c # s))"
        using False n0 ordinary by (simp add: esc_string.simps(2) Let_def)
      define r where "r = esc_string (drop ?n (c # s)) @ quote # t"
      obtain w where w: "take ?n (c # s) = c # w" using n0 by (cases ?n) auto
      have len: "utf8_len (c # w @ r) = ?n"
        using utf8_len_take [of "c # s" ?n r] n0 w by simp
      have "c \<noteq> quote" "c \<noteq> backslash" using False by auto
      then have "parse_str (c # w @ r) = pmap ((@) (take ?n (c # w @ r))) (parse_str (drop ?n (c # w @ r)))"
        using False len n0 by (simp add: parse_str.simps(2))
      moreover have "?n = length (c # w)" using w utf8_len_le [of "c # s"] by (metis length_take min.absorb2)
      ultimately have "parse_str (c # w @ r) = pmap ((@) (c # w)) (parse_str r)" by simp
      moreover have "esc_string (c # s) @ quote # t = c # w @ r" using enc w by (simp add: r_def)
      moreover have "(c # w) @ drop ?n (c # s) = c # s"
        using w append_take_drop_id [of ?n "c # s"] by simp
      ultimately show ?thesis using IH by (simp only: r_def [symmetric] pmap_simps)
    qed
  qed
qed

text \<open>Values without numbers whose strings are well-formed UTF-8.\<close>

fun textual :: "json \<Rightarrow> bool" where
  "textual (JNum t) \<longleftrightarrow> False"
| "textual (JStr s) \<longleftrightarrow> utf8_valid s"
| "textual (JArr xs) \<longleftrightarrow> list_all textual xs"
| "textual (JObj ms) \<longleftrightarrow> list_all (\<lambda>(k, v). utf8_valid k \<and> textual v) ms"
| "textual _ \<longleftrightarrow> True"

lemma skip_ws_Cons [simp]: "\<not> is_ws c \<Longrightarrow> skip_ws (c # s) = c # s"
  by (simp add: skip_ws_def)

lemma not_ws [simp]: "\<not> is_ws quote" "\<not> is_ws CHR ''{''" "\<not> is_ws CHR ''}''" "\<not> is_ws CHR ''[''"
  "\<not> is_ws CHR '']''" "\<not> is_ws CHR '',''" "\<not> is_ws CHR '':''" "\<not> is_ws CHR ''t''"
  "\<not> is_ws CHR ''f''" "\<not> is_ws CHR ''n''"
  by code_simp+

lemma quote_neq_chars [simp]: "quote \<noteq> CHR ''{''" "quote \<noteq> CHR ''[''" "quote \<noteq> CHR ''}''" "quote \<noteq> CHR '']''"
  by (simp_all add: quote_def)

lemma json_encode_head:
  assumes "textual j"
  obtains c w where "json_encode j = c # w" "\<not> is_ws c" "c \<noteq> CHR '']''"
proof (cases j)
  case (JBool b)
  then show ?thesis using that by (cases b) auto
qed (use assms that in \<open>auto simp: json_string_def\<close>)

lemma enc_elems_head:
  assumes "list_all textual xs" "xs \<noteq> []"
  obtains c w where "enc_elems xs = c # w" "\<not> is_ws c" "c \<noteq> CHR '']''"
proof -
  obtain x r where x: "xs = x # r" using assms(2) by (cases xs) auto
  with assms(1) have "textual x" by simp
  then obtain c w where "json_encode x = c # w" "\<not> is_ws c" "c \<noteq> CHR '']''"
    by (rule json_encode_head)
  with x show ?thesis using that by simp
qed

lemma json_encode_parse:
  "textual j \<Longrightarrow> length (json_encode j) \<le> n \<Longrightarrow> json_value n (json_encode j @ t) = POk j t"
  "list_all textual xs \<Longrightarrow> xs \<noteq> [] \<Longrightarrow> length (enc_elems xs) < n \<Longrightarrow>
    json_elems n (enc_elems xs @ CHR '']'' # t) = POk xs t"
  "list_all (\<lambda>(k, v). utf8_valid k \<and> textual v) ms \<Longrightarrow> ms \<noteq> [] \<Longrightarrow> length (enc_members ms) < n \<Longrightarrow>
    json_members n (enc_members ms @ CHR ''}'' # t) = POk ms t"
proof (induction j and xs and ms arbitrary: n t and n t and n t
    rule: json_encode_enc_elems_enc_members.induct)
  case 1
  then show ?case by (cases n) (auto simp: quote_def)
next
  case (2 b)
  then show ?case by (cases n; cases b) (auto simp: quote_def)
next
  case (3 s)
  then show ?case by simp
next
  case (4 s)
  then show ?case by (cases n) (simp_all add: json_string_def parse_esc_string)
next
  case (5 xs)
  then obtain m where n: "n = Suc m" by (cases n) auto
  show ?case
  proof (cases "xs = []")
    case True
    then show ?thesis by (simp add: n)
  next
    case False
    then obtain c w where cw: "enc_elems xs = c # w" "\<not> is_ws c" "c \<noteq> CHR '']''"
      using "5.prems"(1) enc_elems_head [of xs] by auto
    have "json_elems m (enc_elems xs @ CHR '']'' # t) = POk xs t"
      using "5.IH" [of m t] "5.prems" False n by simp
    then show ?thesis using cw by (simp add: n)
  qed
next
  case (6 ms)
  then obtain m where n: "n = Suc m" by (cases n) auto
  show ?case
  proof (cases "ms = []")
    case True
    then show ?thesis by (simp add: n)
  next
    case False
    then obtain w where cw: "enc_members ms = quote # w"
      by (cases ms) (auto simp: json_string_def)
    have "json_members m (enc_members ms @ CHR ''}'' # t) = POk ms t"
      using "6.IH" [of m t] "6.prems" False n by simp
    then show ?thesis using cw by (simp add: n)
  qed
next
  case 7
  then show ?case by simp
next
  case (8 x xs)
  then obtain m where n: "n = Suc m" by (cases n) auto
  have v: "json_value m (json_encode x @ u) = POk x u" for u
    using "8.IH"(1) [of m u] "8.prems" n by auto
  show ?case
  proof (cases "xs = []")
    case True
    then show ?thesis using v by (simp add: n)
  next
    case False
    then obtain c w where cw: "enc_elems xs = c # w" "\<not> is_ws c" "c \<noteq> CHR '']''"
      using "8.prems"(1) enc_elems_head [of xs] by auto
    have "json_elems m (enc_elems xs @ CHR '']'' # t) = POk xs t"
      using "8.IH"(2) [of m t] "8.prems" False n by auto
    then show ?thesis using cw v False by (simp add: n)
  qed
next
  case 9
  then show ?case by simp
next
  case (10 k x ms)
  then obtain m where n: "n = Suc m" by (cases n) auto
  have v: "json_value m (json_encode x @ u) = POk x u" for u
    using "10.IH"(1) [of m u] "10.prems" n by auto
  have s: "parse_str (esc_string k @ quote # u) = POk k u" for u
    using "10.prems"(1) by (intro parse_esc_string) simp
  have "textual x" using "10.prems"(1) by simp
  then obtain d e where de: "json_encode x = d # e" "\<not> is_ws d" by (rule json_encode_head)
  have sk: "skip_ws (json_encode x @ u) = json_encode x @ u" for u using de by simp
  show ?case
  proof (cases "ms = []")
    case True
    then show ?thesis using v s sk by (simp add: n json_string_def)
  next
    case False
    then obtain w where cw: "enc_members ms = quote # w"
      by (cases ms) (auto simp: json_string_def)
    have "json_members m (enc_members ms @ CHR ''}'' # t) = POk ms t"
      using "10.IH"(2) [of m t] "10.prems" False n by auto
    then show ?thesis using cw v s sk False by (simp add: n json_string_def)
  qed
qed

lemma json_scan_encode: "textual j \<Longrightarrow> json_scan (json_encode j @ t) = POk j t"
proof -
  assume j: "textual j"
  then obtain c w where cw: "json_encode j = c # w" "\<not> is_ws c" by (rule json_encode_head)
  have "json_value (2 * length (json_encode j @ t) + 1) (json_encode j @ t) = POk j t"
    using j by (rule json_encode_parse(1)) simp
  then show ?thesis using cw by (simp add: json_scan_def)
qed

lemma json_unmarshal_encode: "textual j \<Longrightarrow> json_unmarshal (json_encode j) = Some j"
  using json_scan_encode [of j "[]"] by (simp add: json_unmarshal_def skip_ws_def)

text \<open>ASCII text is well formed, and a lower-case ASCII key folds to itself.\<close>

lemma utf8_valid_ascii: "\<forall>c \<in> set s. byte_of c < 128 \<Longrightarrow> utf8_valid s"
  by (induction s) (simp_all add: utf8_valid.simps)

lemma fold_name_lower:
  "\<forall>c \<in> set s. byte_of c < 128 \<and> \<not> (65 \<le> byte_of c \<and> byte_of c \<le> 90) \<Longrightarrow> fold_name s = s"
proof (induction s)
  case (Cons c s)
  have "take 2 (c # s) \<noteq> utf8_encode 383" "take 3 (c # s) \<noteq> utf8_encode 8490"
    using Cons.prems by (auto simp: utf8_encode_def)
  with Cons show ?case by auto
qed simp

end
