(* ===== verification/Runtime.thy ===== *)
theory Runtime
  imports Go_Json "HOL-Library.Word"
begin

text \<open>
  The outside world of the gateway as one record that every stateful operation takes and
  returns: the clock, the random source, the log, the outbound HTTP calls and the fate of
  each database round trip. The components extend the record with their tables.

  What is not the program's own is a field: \<open>uuid_in\<close> and \<open>text_ok\<close> are Postgres' input
  functions for \<open>uuid\<close> and \<open>text\<close> values, \<open>citext_key\<close> the key under which \<open>citext\<close>
  compares, \<open>parse_float\<close> and \<open>format_float\<close> the decimal conversions of \<open>float64\<close> bit
  patterns (the program only passes such values through),
  \<open>url_ok\<close> whether \<open>net/url\<close> parses a URL, \<open>err_text\<close> the driver's error texts,
  \<open>format_time\<close> the rendering of an instant in a layout, \<open>uuids\<close> the results of \<open>gen_random_uuid()\<close>, \<open>rng\<close> those of
  \<open>crypto/rand\<close>, \<open>net\<close> the answers of the network. Time is in nanoseconds; each reading of
  the clock first lets the next of \<open>ticks\<close> pass, so runs may take any time.
\<close>

lemma find_SomeD: "find P xs = Some x \<Longrightarrow> x \<in> set xs \<and> P x"
  by (induction xs) (auto split: if_splits)

lemma find_NoneD: "find P xs = None \<Longrightarrow> x \<in> set xs \<Longrightarrow> \<not> P x"
  by (induction xs) (auto split: if_splits)

text \<open>Go's integer division truncates towards zero.\<close>

definition trunc_div :: "int \<Rightarrow> int \<Rightarrow> int" where
  "trunc_div a b = (if 0 \<le> a then a div b else - ((- a) div b))"

section \<open>Log lines\<close>

datatype logval = LStr string | LInt int | LBool bool

datatype loglevel = LevelDebug | LevelInfo | LevelWarn | LevelError

record logline =
  l_level :: loglevel
  l_msg :: string
  l_attrs :: "(string \<times> logval) list"

text \<open>A \<open>slog.Logger\<close>: the least level it emits and the attributes bound to it.\<close>

fun level_rank :: "loglevel \<Rightarrow> nat" where
  "level_rank LevelDebug = 0"
| "level_rank LevelInfo = 1"
| "level_rank LevelWarn = 2"
| "level_rank LevelError = 3"

record Logger =
  lg_level :: loglevel
  lg_attrs :: "(string \<times> logval) list"

section \<open>Outbound HTTP\<close>

record http_out =
  out_method :: string
  out_url :: string
  out_headers :: "(string \<times> string) list"
  out_body :: string

text \<open>How the reading of a response body ends: at its end, or with an error.\<close>

datatype body_end = EndEOF | EndErr

record http_in =
  in_status :: int
  in_body :: string
  in_end :: body_end

datatype net_result = NetErr | NetResp http_in

text \<open>
  \<open>pgx.ErrNoRows\<close>, a server error with its SQLSTATE, and everything else (a connection that
  cannot be had or is lost, a cancelled context).
\<close>

datatype pgerr = NoRows | SqlState string | ConnErr

section \<open>The world\<close>

text \<open>
  The fate of a database round trip: the statement runs and its result arrives; it is never
  run; or it runs and the result is lost (a timeout or a broken connection), so the caller
  sees an error for a statement that took effect.
\<close>

type_synonym float64 = "64 word"

datatype outcome = Delivered | NotSent | Unacked

record env =
  clock :: int
  ticks :: "int list"
  outcomes :: "outcome list"
  uuids :: "nat \<Rightarrow> string"
  uuid_next :: nat
  rng :: "nat \<Rightarrow> nat \<Rightarrow> string option"
  rng_next :: nat
  uuid_in :: "string \<Rightarrow> string option"
  text_ok :: "string \<Rightarrow> bool"
  citext_key :: "string \<Rightarrow> string"
  net :: "nat \<Rightarrow> http_out \<Rightarrow> net_result"
  net_log :: "http_out list"
  logs :: "logline list"
  default_logger :: Logger
  parse_float :: "string \<Rightarrow> float64 option"
  format_float :: "float64 \<Rightarrow> string"
  url_ok :: "string \<Rightarrow> bool"
  err_text :: "pgerr \<Rightarrow> string"
  format_time :: "string \<Rightarrow> int \<Rightarrow> string"

text \<open>\<open>time.Now()\<close> and Postgres' \<open>now()\<close>: the clock moves by the next tick and is read.\<close>

definition now :: "'a env_scheme \<Rightarrow> int \<times> 'a env_scheme" where
  "now w = (let t = clock w + (case ticks w of [] \<Rightarrow> 0 | d # _ \<Rightarrow> d)
            in (t, w\<lparr>clock := t, ticks := tl (ticks w)\<rparr>))"

text \<open>A \<open>timestamptz\<close> keeps microseconds.\<close>

definition pg_now :: "'a env_scheme \<Rightarrow> int \<times> 'a env_scheme" where
  "pg_now w = (case now w of (t, w') \<Rightarrow> (t div 1000, w'))"

definition gen_uuid :: "'a env_scheme \<Rightarrow> string \<times> 'a env_scheme" where
  "gen_uuid w = (uuids w (uuid_next w), w\<lparr>uuid_next := Suc (uuid_next w)\<rparr>)"

text \<open>\<open>rand.Read\<close> into a buffer of \<open>n\<close> bytes; \<open>None\<close> when it fails.\<close>

definition rand_read :: "nat \<Rightarrow> 'a env_scheme \<Rightarrow> string option \<times> 'a env_scheme" where
  "rand_read n w = (rng w (rng_next w) n, w\<lparr>rng_next := Suc (rng_next w)\<rparr>)"

definition log_line :: "logline \<Rightarrow> 'a env_scheme \<Rightarrow> 'a env_scheme" where
  "log_line l w = w\<lparr>logs := logs w @ [l]\<rparr>"

text \<open>\<open>logger.LogAttrs\<close>: a line below the logger's level is not emitted.\<close>

definition LogAttrs :: "Logger \<Rightarrow> loglevel \<Rightarrow> string \<Rightarrow> (string \<times> logval) list
    \<Rightarrow> 'a env_scheme \<Rightarrow> 'a env_scheme" where
  "LogAttrs lg lvl msg as w =
     (if level_rank lvl < level_rank (lg_level lg) then w
      else log_line \<lparr>l_level = lvl, l_msg = msg, l_attrs = lg_attrs lg @ as\<rparr> w)"

definition Logger_With :: "Logger \<Rightarrow> (string \<times> logval) list \<Rightarrow> Logger" where
  "Logger_With lg as = lg\<lparr>lg_attrs := lg_attrs lg @ as\<rparr>"

definition http_do :: "http_out \<Rightarrow> 'a env_scheme \<Rightarrow> net_result \<times> 'a env_scheme" where
  "http_do r w = (net w (length (net_log w)) r, w\<lparr>net_log := net_log w @ [r]\<rparr>)"

section \<open>Database round trips\<close>

definition unique_violation :: pgerr where "unique_violation = SqlState ''23505''"
definition fk_violation :: pgerr where "fk_violation = SqlState ''23503''"
definition check_violation :: pgerr where "check_violation = SqlState ''23514''"
definition invalid_text :: pgerr where "invalid_text = SqlState ''22P02''"
definition bad_encoding :: pgerr where "bad_encoding = SqlState ''22021''"

lemma pgerr_distinct [simp]:
  "unique_violation \<noteq> fk_violation" "unique_violation \<noteq> check_violation"
  "unique_violation \<noteq> invalid_text" "unique_violation \<noteq> bad_encoding"
  "fk_violation \<noteq> unique_violation" "fk_violation \<noteq> invalid_text"
  "check_violation \<noteq> unique_violation" "invalid_text \<noteq> unique_violation"
  "invalid_text \<noteq> bad_encoding" "bad_encoding \<noteq> invalid_text" "bad_encoding \<noteq> unique_violation"
  "unique_violation \<noteq> NoRows" "fk_violation \<noteq> NoRows" "invalid_text \<noteq> NoRows" "bad_encoding \<noteq> NoRows"
  "NoRows \<noteq> unique_violation" "NoRows \<noteq> invalid_text"
  "unique_violation \<noteq> ConnErr" "invalid_text \<noteq> ConnErr" "ConnErr \<noteq> unique_violation" "ConnErr \<noteq> invalid_text"
  "fk_violation \<noteq> ConnErr" "check_violation \<noteq> ConnErr" "bad_encoding \<noteq> ConnErr"
  by (simp_all add: unique_violation_def fk_violation_def check_violation_def invalid_text_def bad_encoding_def)

text \<open>
  What a text that is no UUID is refused with when it is sent for a uuid column: a text the database
  cannot even take, with a NUL or bytes that are no UTF-8, fails before it is read as a UUID.
\<close>

definition uuid_error :: "'a env_scheme \<Rightarrow> string \<Rightarrow> pgerr" where
  "uuid_error w s = (if text_ok w s then invalid_text else bad_encoding)"

lemma uuid_error_cases:
  "uuid_error w s \<noteq> NoRows" "uuid_error w s \<noteq> unique_violation" "uuid_error w s \<noteq> ConnErr" "text_ok w s \<Longrightarrow> uuid_error w s = invalid_text"
  by (simp_all add: uuid_error_def)

declare uuid_error_cases [simp]

definition next_outcome :: "'a env_scheme \<Rightarrow> outcome \<times> 'a env_scheme" where
  "next_outcome w =
     (case outcomes w of [] \<Rightarrow> (Delivered, w) | x # xs \<Rightarrow> (x, w\<lparr>outcomes := xs\<rparr>))"

text \<open>A statement outside a transaction: it commits on its own.\<close>

definition pg_exec :: "('a env_scheme \<Rightarrow> (pgerr, 'r) result \<times> 'a env_scheme) \<Rightarrow> 'a env_scheme
    \<Rightarrow> (pgerr, 'r) result \<times> 'a env_scheme" where
  "pg_exec stmt w =
     (case next_outcome w of
        (Delivered, w') \<Rightarrow> stmt w'
      | (NotSent, w') \<Rightarrow> (Inl ConnErr, w')
      | (Unacked, w') \<Rightarrow> (Inl ConnErr, snd (stmt w')))"

text \<open>No fault is scheduled: every later round trip is delivered.\<close>

definition healthy :: "'a env_scheme \<Rightarrow> bool" where
  "healthy w \<longleftrightarrow> outcomes w = []"

lemma pg_exec_healthy [simp]: "healthy w \<Longrightarrow> pg_exec stmt w = stmt w"
  by (simp add: pg_exec_def next_outcome_def healthy_def)

lemma pg_exec_cases:
  obtains (run) w' where "pg_exec stmt w = stmt w'" "w' = w \<or> (\<exists>os. w' = w\<lparr>outcomes := os\<rparr>)"
  | (lost) os where "pg_exec stmt w = (Inl ConnErr, w\<lparr>outcomes := os\<rparr>)"
  | (unacked) w' where "pg_exec stmt w = (Inl ConnErr, snd (stmt w'))" "\<exists>os. w' = w\<lparr>outcomes := os\<rparr>"
  by (cases "outcomes w"; cases "hd (outcomes w)")
    (auto simp: pg_exec_def next_outcome_def)

text \<open>
  A rule for facts that every round trip keeps: the statement keeps them, and they do not
  depend on the schedule of outcomes.
\<close>

lemma pg_exec_keeps:
  assumes "\<And>os. f (w\<lparr>outcomes := os\<rparr>) = f w"
    and "\<And>w'. f (snd (stmt w')) = f w'"
  shows "f (snd (pg_exec stmt w)) = f w"
  by (cases stmt w rule: pg_exec_cases) (auto simp: assms)

lemma pg_exec_Inr:
  assumes "pg_exec stmt w = (Inr x, w2)"
  obtains w1 where "stmt w1 = (Inr x, w2)" "w1 = w \<or> (\<exists>os. w1 = w\<lparr>outcomes := os\<rparr>)"
  using assms by (cases stmt w rule: pg_exec_cases) auto

text \<open>
  What a round trip may do to a table \<open>f\<close>, from what its statement does: the caller gets the
  statement's result, or a connection error and the statement took effect or did not.
\<close>

lemma pg_exec_rule:
  assumes "pg_exec stmt w = (r, w')"
    and "\<And>os. f (w\<lparr>outcomes := os\<rparr>) = f w"
    and "\<And>w1 x w2. stmt w1 = (x, w2) \<Longrightarrow> P (f w1) x (f w2)"
  shows "P (f w) r (f w') \<or> (r = Inl ConnErr \<and> (f w' = f w \<or> (\<exists>x. P (f w) x (f w'))))"
proof (cases stmt w rule: pg_exec_cases)
  case (run w1)
  then have "f w1 = f w" using assms(2) by auto
  moreover have "stmt w1 = (r, w')" using run assms(1) by simp
  ultimately show ?thesis using assms(3) by metis
next
  case (lost os)
  then show ?thesis using assms(1,2) by simp
next
  case (unacked w1)
  then have "f w1 = f w" using assms(2) by auto
  moreover have "stmt w1 = (fst (stmt w1), w')" using unacked assms(1) by auto
  ultimately have "P (f w) (fst (stmt w1)) (f w')" using assms(3) by metis
  then show ?thesis using unacked assms(1) by auto
qed

lemma pg_exec_effect:
  assumes "pg_exec stmt w = (r, w')"
    and "\<And>os. f (w\<lparr>outcomes := os\<rparr>) = f w"
    and "\<And>w1 x w2. stmt w1 = (x, w2) \<Longrightarrow> P (f w1) x (f w2)"
    and "\<And>e. P (f w) (Inl e) (f w)"
  shows "\<exists>x. P (f w) x (f w') \<and> (r = x \<or> r = Inl ConnErr)"
  using pg_exec_rule [of stmt w r w' f P, OF assms(1-3)] assms(4) [of ConnErr] by auto

end
