(* ===== verification/Conv_Interface.thy ===== *)
theory Conv_Interface
  imports Runtime
begin

text \<open>
  The data types of \<open>backend/internal/conversation/conversation.go\<close> and the interface
  \<open>ConvRepo\<close> that the gateway core declares over the repository
  (gatewaycore/gatewaycore.go): a record of its four operations and a locale of the laws the
  repository promises. \<open>Conversation\<close> interprets the locale, \<open>Gatewaycore\<close> proves the core's
  lemmas inside it.
\<close>

definition RoleSystem :: string where "RoleSystem = ''system''"
definition RoleUser :: string where "RoleUser = ''user''"
definition RoleAssistant :: string where "RoleAssistant = ''assistant''"

lemma roles_distinct [simp]:
  "RoleSystem \<noteq> RoleUser" "RoleSystem \<noteq> RoleAssistant" "RoleUser \<noteq> RoleAssistant"
  "RoleUser \<noteq> RoleSystem" "RoleAssistant \<noteq> RoleSystem" "RoleAssistant \<noteq> RoleUser"
  by (simp_all add: RoleSystem_def RoleUser_def RoleAssistant_def)

record Conversation =
  cv_ID :: string
  cv_APIKeyID :: string
  cv_Model :: string
  cv_CreatedAt :: int
  cv_UpdatedAt :: int

record StoredMessage =
  sm_ID :: string
  sm_ConversationID :: string
  sm_Role :: string
  sm_Content :: string
  sm_TokenCount :: "int option"
  sm_CreatedAt :: int

record NewMessage =
  nm_Role :: string
  nm_Content :: string
  nm_TokenCount :: "int option"

datatype conv_error = conversation_ErrNotFound | conversation_wrapped pgerr

record 'w ConvRepo =
  CreateConversation :: "string \<Rightarrow> string \<Rightarrow> 'w \<Rightarrow> (conv_error, Conversation) result \<times> 'w"
  GetConversation :: "string \<Rightarrow> string \<Rightarrow> 'w \<Rightarrow> (conv_error, Conversation) result \<times> 'w"
  LoadHistory :: "string \<Rightarrow> 'w \<Rightarrow> (conv_error, StoredMessage list) result \<times> 'w"
  AppendMessages :: "string \<Rightarrow> NewMessage list \<Rightarrow> 'w \<Rightarrow> (conv_error, unit) result \<times> 'w"

definition sm_pair :: "StoredMessage \<Rightarrow> string \<times> string" where
  "sm_pair m = (sm_Role m, sm_Content m)"

definition nm_pair :: "NewMessage \<Rightarrow> string \<times> string" where
  "nm_pair m = (nm_Role m, nm_Content m)"

text \<open>
  \<open>hist w c\<close> is the history session id \<open>c\<close> names, oldest first; \<open>same w c d\<close> says two ids
  name the same session, \<open>owns w a c\<close> that session \<open>c\<close> belongs to credential \<open>a\<close>, and
  \<open>settled w c\<close> that no message of \<open>c\<close> is dated later than now.
\<close>

locale conv_repo =
  fixes repo :: "'w ConvRepo"
    and hist :: "'w \<Rightarrow> string \<Rightarrow> StoredMessage list"
    and same :: "'w \<Rightarrow> string \<Rightarrow> string \<Rightarrow> bool"
    and owns :: "'w \<Rightarrow> string \<Rightarrow> string \<Rightarrow> bool"
    and settled :: "'w \<Rightarrow> string \<Rightarrow> bool"
  assumes create_new: "CreateConversation repo a m w = (Inr c, w') \<Longrightarrow>
          owns w' a (cv_ID c) \<and> cv_Model c = m"
    and create_keeps: "hist (snd (CreateConversation repo a m w)) = hist w"
    and get_owned: "GetConversation repo a s w = (Inr c, w') \<Longrightarrow> owns w a (cv_ID c)"
    and get_keeps: "hist (snd (GetConversation repo a s w)) = hist w"
    and load_hist: "LoadHistory repo d w = (Inr ms, w') \<Longrightarrow> ms = hist w d"
    and load_keeps: "hist (snd (LoadHistory repo d w)) = hist w"
    and load_settled: "settled w d \<Longrightarrow> settled (snd (LoadHistory repo d w)) d"
    and load_same: "same (snd (LoadHistory repo d w)) = same w"
    and append_ok: "AppendMessages repo d ns w = (Inr (), w') \<Longrightarrow> settled w d \<Longrightarrow>
          map sm_pair (hist w' d) = map sm_pair (hist w d) @ map nm_pair ns"
    and append_atomic: "AppendMessages repo d ns w = (Inl e, w') \<Longrightarrow> settled w d \<Longrightarrow>
          map sm_pair (hist w' d) = map sm_pair (hist w d)
          \<or> map sm_pair (hist w' d) = map sm_pair (hist w d) @ map nm_pair ns"
    and append_roles: "x \<in> set (hist (snd (AppendMessages repo d ns w)) f) \<Longrightarrow>
          x \<in> set (hist w f) \<or> sm_pair x \<in> nm_pair ` set ns"
    and append_other: "\<not> same w d f \<Longrightarrow> hist (snd (AppendMessages repo d ns w)) f = hist w f"

end
