(* ===== verification/Key_Interface.thy ===== *)
theory Key_Interface
  imports Runtime
begin

text \<open>
  The data types of \<open>backend/internal/apikey/apikey.go\<close> and the two interfaces its clients
  declare over it: \<open>credentialStore\<close> (gateway/auth.go) and \<open>keyStore\<close> (admin/keys.go), each
  a record of operations and a locale of the laws its provider promises. The repository
  interprets both locales; the middleware and the admin handlers prove their lemmas inside.
\<close>

section \<open>Rows and parameters\<close>

record APIKey =
  ak_ID :: string
  ak_KeyID :: string
  ak_SecretHash :: string
  ak_Name :: string
  ak_Persona :: "string option"
  ak_CreatedBy :: "string option"
  ak_CreatedAt :: int
  ak_RevokedAt :: "int option"
  ak_LastUsedAt :: "int option"

record Metadata =
  md_ID :: string
  md_KeyID :: string
  md_Name :: string
  md_Persona :: "string option"
  md_CreatedBy :: "string option"
  md_CreatedAt :: int
  md_RevokedAt :: "int option"
  md_LastUsedAt :: "int option"

record CreateParams =
  cp_KeyID :: string
  cp_SecretHash :: string
  cp_Name :: string
  cp_Persona :: "string option"
  cp_CreatedBy :: "string option"

record UpdateParams =
  up_Name :: string
  up_Persona :: "string option"

datatype apikey_error = apikey_ErrNotFound | apikey_ErrKeyIDTaken | apikey_wrapped pgerr

text \<open>The columns \<open>metaColumns\<close> selects: all but the secret hash.\<close>

definition metadata_of :: "APIKey \<Rightarrow> Metadata" where
  "metadata_of k = \<lparr>md_ID = ak_ID k, md_KeyID = ak_KeyID k, md_Name = ak_Name k,
     md_Persona = ak_Persona k, md_CreatedBy = ak_CreatedBy k, md_CreatedAt = ak_CreatedAt k,
     md_RevokedAt = ak_RevokedAt k, md_LastUsedAt = ak_LastUsedAt k\<rparr>"

definition ak_active :: "APIKey \<Rightarrow> bool" where
  "ak_active k \<longleftrightarrow> ak_RevokedAt k = None"

definition active_with :: "string \<Rightarrow> APIKey \<Rightarrow> bool" where
  "active_with kid k \<longleftrightarrow> ak_KeyID k = kid \<and> ak_RevokedAt k = None"

text \<open>\<open>UPDATE\<close>s of one row: its revocation, and its label and persona.\<close>

definition revoke_row :: "string \<Rightarrow> int \<Rightarrow> APIKey \<Rightarrow> APIKey" where
  "revoke_row j t k =
     (if ak_ID k = j \<and> ak_RevokedAt k = None then k\<lparr>ak_RevokedAt := Some t\<rparr> else k)"

definition relabel_row :: "string \<Rightarrow> UpdateParams \<Rightarrow> APIKey \<Rightarrow> APIKey" where
  "relabel_row j q k =
     (if ak_ID k = j then k\<lparr>ak_Name := up_Name q, ak_Persona := up_Persona q\<rparr> else k)"

text \<open>What authenticates: a row without its last-use time.\<close>

definition untouched :: "APIKey \<Rightarrow> APIKey" where
  "untouched k = k\<lparr>ak_LastUsedAt := None\<rparr>"

section \<open>Interfaces\<close>

record 'w credentialStore =
  GetActiveByKeyID :: "string \<Rightarrow> 'w \<Rightarrow> (apikey_error, APIKey) result \<times> 'w"
  TouchLastUsed :: "string \<Rightarrow> 'w \<Rightarrow> (apikey_error, unit) result \<times> 'w"

record 'w keyStore =
  ks_Create :: "CreateParams \<Rightarrow> 'w \<Rightarrow> (apikey_error, APIKey) result \<times> 'w"
  ks_GetByID :: "string \<Rightarrow> 'w \<Rightarrow> (apikey_error, Metadata) result \<times> 'w"
  ks_List :: "'w \<Rightarrow> (apikey_error, Metadata list) result \<times> 'w"
  ks_Update :: "string \<Rightarrow> UpdateParams \<Rightarrow> 'w \<Rightarrow> (apikey_error, Metadata) result \<times> 'w"
  ks_Revoke :: "string \<Rightarrow> 'w \<Rightarrow> (apikey_error, unit) result \<times> 'w"

text \<open>
  \<open>rows\<close> is the abstract table and \<open>ready k w\<close> says that the store can answer for key id
  \<open>k\<close>: it is reachable and the id is text it accepts.
\<close>

locale credential_store =
  fixes st :: "'w credentialStore"
    and rows :: "'w \<Rightarrow> APIKey list"
    and ready :: "string \<Rightarrow> 'w \<Rightarrow> bool"
  assumes get_active: "GetActiveByKeyID st kid w = (Inr k, w') \<Longrightarrow> k \<in> set (rows w) \<and> active_with kid k"
    and get_rows: "rows (snd (GetActiveByKeyID st kid w)) = rows w"
    and get_ready: "ready kid w \<Longrightarrow> fst (GetActiveByKeyID st kid w) =
          (case find (active_with kid) (rows w) of None \<Rightarrow> Inl apikey_ErrNotFound | Some k \<Rightarrow> Inr k)"
    and touch_rows: "map untouched (rows (snd (TouchLastUsed st i w))) = map untouched (rows w)"

text \<open>
  The management side: creation appends an active row, an update changes name and persona of
  one row only, a revocation the revocation time of active rows with that id; nothing else
  changes any row.
\<close>

locale key_store =
  fixes ks :: "'w keyStore"
    and rows :: "'w \<Rightarrow> APIKey list"
  assumes create_row: "ks_Create ks p w = (Inr k, w') \<Longrightarrow>
          rows w' = rows w @ [k] \<and> ak_KeyID k = cp_KeyID p \<and> ak_SecretHash k = cp_SecretHash p
          \<and> ak_Name k = cp_Name p \<and> ak_Persona k = cp_Persona p
          \<and> ak_RevokedAt k = None \<and> ak_LastUsedAt k = None"
    and create_taken: "k \<in> set (rows w) \<Longrightarrow> ak_KeyID k = cp_KeyID p \<Longrightarrow> \<not> is_ok (fst (ks_Create ks p w))"
    and get_row: "ks_GetByID ks i w = (rm, w') \<Longrightarrow> rows w' = rows w \<and> (\<forall>m. rm = Inr m \<longrightarrow> m \<in> metadata_of ` set (rows w))"
    and list_rows: "ks_List ks w = (rs, w') \<Longrightarrow> rows w' = rows w \<and> (\<forall>ms. rs = Inr ms \<longrightarrow> mset ms = mset (map metadata_of (rows w)))"
    and update_row: "ks_Update ks i q w = (Inr m, w') \<Longrightarrow> m \<in> metadata_of ` set (rows w') \<and>
          rows w' = map (relabel_row (md_ID m) q) (rows w)"
    and update_keeps: "map (\<lambda>k. (ak_ID k, ak_KeyID k, ak_SecretHash k, ak_RevokedAt k)) (rows (snd (ks_Update ks i q w)))
          = map (\<lambda>k. (ak_ID k, ak_KeyID k, ak_SecretHash k, ak_RevokedAt k)) (rows w)"
    and revoke_rows: "rows (snd (ks_Revoke ks i w)) = rows w \<or>
          (\<exists>j t. rows (snd (ks_Revoke ks i w)) = map (revoke_row j t) (rows w))"
begin

lemma update_missing: "k' \<in> set (rows (snd (ks_Update ks i q w))) \<Longrightarrow>
  \<exists>k \<in> set (rows w). ak_KeyID k = ak_KeyID k' \<and> ak_SecretHash k = ak_SecretHash k' \<and> ak_RevokedAt k = ak_RevokedAt k'"
proof -
  let ?f = "\<lambda>k. (ak_ID k, ak_KeyID k, ak_SecretHash k, ak_RevokedAt k)"
  assume "k' \<in> set (rows (snd (ks_Update ks i q w)))"
  then have "?f k' \<in> ?f ` set (rows (snd (ks_Update ks i q w)))" by (rule imageI)
  also have "\<dots> = ?f ` set (rows w)"
    by (simp only: update_keeps flip: list.set_map)
  finally obtain k where "k \<in> set (rows w)" "?f k' = ?f k" by blast
  then show ?thesis by (intro bexI [of _ k]) simp_all
qed

text \<open>No operation makes a row active again or changes the secret behind a key id.\<close>

lemma revoke_only_revokes:
  assumes "k' \<in> set (rows (snd (ks_Revoke ks i w)))" and "ak_RevokedAt k' = None"
  shows "k' \<in> set (rows w)"
proof -
  consider "rows (snd (ks_Revoke ks i w)) = rows w"
    | j t where "rows (snd (ks_Revoke ks i w)) = map (revoke_row j t) (rows w)"
    using revoke_rows by blast
  then show ?thesis using assms by cases (auto simp: revoke_row_def split: if_splits)
qed

end

end
