(* ===== verification/User_Repo.thy ===== *)
theory User_Repo
  imports Runtime
begin

text \<open>
  \<open>backend/internal/user/user.go\<close> over the \<open>users\<close> table of migration 20260606000002: the
  row type, the table as a list of rows in insertion order, and one definition per repository
  method, each a single SQL statement and the mapping of its error. The table's constraints
  are the primary key on \<open>id\<close> and the unique index on the case-insensitive \<open>email\<close>; the
  invariant says the rows satisfy them, and every method keeps it. The interface that the login
  handler asks for is the locale \<open>user_getter\<close>, interpreted here.
\<close>

record User =
  u_ID :: string
  u_Email :: string
  u_PasswordHash :: string
  u_IsSuperuser :: bool
  u_CreatedAt :: int
  u_UpdatedAt :: int

datatype user_error = user_ErrNotFound | user_ErrEmailTaken | user_wrapped pgerr

record users_db = env +
  users :: "User list"

definition user_Create :: "string \<Rightarrow> string \<Rightarrow> bool \<Rightarrow> 'a users_db_scheme
    \<Rightarrow> (user_error, User) result \<times> 'a users_db_scheme" where
  "user_Create email hash su w =
     (case pg_exec (\<lambda>w.
          if \<not> text_ok w email \<or> \<not> text_ok w hash then (Inl bad_encoding, w)
          else case gen_uuid w of (i, w1) \<Rightarrow>
          case pg_now w1 of (t, w2) \<Rightarrow>
            if list_ex (\<lambda>u. u_ID u = i \<or> citext_key w2 (u_Email u) = citext_key w2 email) (users w2)
            then (Inl unique_violation, w2)
            else let u = \<lparr>u_ID = i, u_Email = email, u_PasswordHash = hash, u_IsSuperuser = su,
                          u_CreatedAt = t, u_UpdatedAt = t\<rparr>
                 in (Inr u, w2\<lparr>users := users w2 @ [u]\<rparr>)) w of
        (Inr u, w') \<Rightarrow> (Inr u, w')
      | (Inl e, w') \<Rightarrow>
          if e = unique_violation then (Inl user_ErrEmailTaken, w') else (Inl (user_wrapped e), w'))"

definition user_getOne :: "('a users_db_scheme \<Rightarrow> (pgerr, User) result \<times> 'a users_db_scheme)
    \<Rightarrow> 'a users_db_scheme \<Rightarrow> (user_error, User) result \<times> 'a users_db_scheme" where
  "user_getOne query w =
     (case pg_exec query w of
        (Inr u, w') \<Rightarrow> (Inr u, w')
      | (Inl e, w') \<Rightarrow>
          if e = NoRows then (Inl user_ErrNotFound, w') else (Inl (user_wrapped e), w'))"

definition user_GetByEmail :: "string \<Rightarrow> 'a users_db_scheme
    \<Rightarrow> (user_error, User) result \<times> 'a users_db_scheme" where
  "user_GetByEmail email w =
     user_getOne (\<lambda>w.
       if \<not> text_ok w email then (Inl bad_encoding, w)
       else case find (\<lambda>u. citext_key w (u_Email u) = citext_key w email) (users w) of
         None \<Rightarrow> (Inl NoRows, w) | Some u \<Rightarrow> (Inr u, w)) w"

definition user_GetByID :: "string \<Rightarrow> 'a users_db_scheme
    \<Rightarrow> (user_error, User) result \<times> 'a users_db_scheme" where
  "user_GetByID i w =
     user_getOne (\<lambda>w.
       case uuid_in w i of
         None \<Rightarrow> (Inl (uuid_error w i), w)
       | Some j \<Rightarrow> (case find (\<lambda>u. u_ID u = j) (users w) of
           None \<Rightarrow> (Inl NoRows, w) | Some u \<Rightarrow> (Inr u, w))) w"

definition user_UpdatePassword :: "string \<Rightarrow> string \<Rightarrow> 'a users_db_scheme
    \<Rightarrow> (user_error, User) result \<times> 'a users_db_scheme" where
  "user_UpdatePassword i hash w =
     user_getOne (\<lambda>w.
       if \<not> text_ok w hash then (Inl bad_encoding, w)
       else case uuid_in w i of
         None \<Rightarrow> (Inl (uuid_error w i), w)
       | Some j \<Rightarrow> (case pg_now w of (t, w1) \<Rightarrow>
           let f = (\<lambda>u. if u_ID u = j then u\<lparr>u_PasswordHash := hash, u_UpdatedAt := t\<rparr> else u)
           in case find (\<lambda>u. u_ID u = j) (users w1) of
             None \<Rightarrow> (Inl NoRows, w1)
           | Some u \<Rightarrow> (Inr (f u), w1\<lparr>users := map f (users w1)\<rparr>))) w"

section \<open>The table's constraints\<close>

definition users_inv :: "'a users_db_scheme \<Rightarrow> bool" where
  "users_inv w \<longleftrightarrow>
     distinct (map u_ID (users w)) \<and> distinct (map (\<lambda>u. citext_key w (u_Email u)) (users w))"

lemma users_inv_outcomes [simp]: "users_inv (w\<lparr>outcomes := os\<rparr>) = users_inv w"
  by (simp add: users_inv_def)

lemma now_users [world_simps, simp]:
  "users (snd (now w)) = users w" "citext_key (snd (now w)) = citext_key w"
  "uuid_in (snd (now w)) = uuid_in w" "text_ok (snd (now w)) = text_ok w"
  by (simp_all add: now_def Let_def)

lemma gen_uuid_users [world_simps, simp]:
  "users (snd (gen_uuid w)) = users w" "citext_key (snd (gen_uuid w)) = citext_key w"
  by (simp_all add: gen_uuid_def)

lemma pg_exec_invariant:
  assumes "\<And>w os. P (w\<lparr>outcomes := os\<rparr>) = P w"
    and "\<And>w. P w \<Longrightarrow> P (snd (stmt w))" and "P w"
  shows "P (snd (pg_exec stmt w))"
  using assms by (cases stmt w rule: pg_exec_cases) auto

lemma user_Create_inv: "users_inv w \<Longrightarrow> users_inv (snd (user_Create email hash su w))"
proof -
  assume w: "users_inv w"
  have "users_inv (snd (pg_exec (\<lambda>w.
          if \<not> text_ok w email \<or> \<not> text_ok w hash then (Inl bad_encoding, w)
          else case gen_uuid w of (i, w1) \<Rightarrow>
          case pg_now w1 of (t, w2) \<Rightarrow>
            if list_ex (\<lambda>u. u_ID u = i \<or> citext_key w2 (u_Email u) = citext_key w2 email) (users w2)
            then (Inl unique_violation, w2)
            else let u = \<lparr>u_ID = i, u_Email = email, u_PasswordHash = hash, u_IsSuperuser = su,
                          u_CreatedAt = t, u_UpdatedAt = t\<rparr>
                 in (Inr u, w2\<lparr>users := users w2 @ [u]\<rparr>)) w))"
    using w by (rule pg_exec_invariant [rotated 2])
      (auto simp: users_inv_def gen_uuid_def pg_now_def now_def Let_def list_ex_iff image_iff)
  then show ?thesis by (auto simp: user_Create_def split: result_splits)
qed

lemma user_getOne_world: "snd (user_getOne query w) = snd (pg_exec query w)"
  by (simp add: user_getOne_def split: result_splits)

lemma user_UpdatePassword_inv: "users_inv w \<Longrightarrow> users_inv (snd (user_UpdatePassword i hash w))"
  unfolding user_UpdatePassword_def user_getOne_world
  by (rule pg_exec_invariant)
    (auto simp: users_inv_def pg_now_def now_def Let_def comp_def if_distrib cong: if_cong map_cong
      split: option.splits)

lemma user_GetByEmail_world: "healthy w \<Longrightarrow> snd (user_GetByEmail e w) = w"
  by (simp add: user_GetByEmail_def user_getOne_world split: option.split)

lemma GetByEmail_healthy:
  "healthy w \<Longrightarrow> text_ok w e \<Longrightarrow> user_GetByEmail e w =
     (case find (\<lambda>u. citext_key w (u_Email u) = citext_key w e) (users w) of
        None \<Rightarrow> Inl user_ErrNotFound | Some u \<Rightarrow> Inr u, w)"
  by (simp add: user_GetByEmail_def user_getOne_def split: option.split)

lemma find_email:
  assumes "users_inv w" "u \<in> set (users w)" "citext_key w (u_Email u) = citext_key w e"
  shows "find (\<lambda>u. citext_key w (u_Email u) = citext_key w e) (users w) = Some u"
proof -
  obtain v where v: "find (\<lambda>u. citext_key w (u_Email u) = citext_key w e) (users w) = Some v"
    using assms(2,3) by (cases "find (\<lambda>u. citext_key w (u_Email u) = citext_key w e) (users w)") (auto dest: find_NoneD)
  then have "v \<in> set (users w)" "citext_key w (u_Email v) = citext_key w (u_Email u)"
    using assms(3) by (auto dest: find_SomeD)
  then show ?thesis using v assms(1,2) by (auto simp: users_inv_def distinct_map inj_on_def)
qed

lemma GetByEmail_Inr:
  assumes "user_GetByEmail e w = (Inr u, w1)" shows "u \<in> set (users w)" "\<exists>os. w1 = w\<lparr>outcomes := os\<rparr>"
proof -
  let ?q = "\<lambda>w. if \<not> text_ok w e then (Inl bad_encoding, w)
      else case find (\<lambda>u. citext_key w (u_Email u) = citext_key w e) (users w) of
        None \<Rightarrow> (Inl NoRows, w) | Some u \<Rightarrow> (Inr u, w)"
  from assms have "pg_exec ?q w = (Inr u, w1)"
    by (auto simp: user_GetByEmail_def user_getOne_def split: prod.splits sum.splits if_splits)
  then obtain v where v: "?q v = (Inr u, w1)" "v = w \<or> (\<exists>os. v = w\<lparr>outcomes := os\<rparr>)" by (rule pg_exec_Inr)
  then have "u \<in> set (users v)" "w1 = v" by (auto split: if_splits option.splits dest: find_SomeD)
  moreover have "w = w\<lparr>outcomes := outcomes w\<rparr>" by simp
  ultimately show "u \<in> set (users w)" "\<exists>os. w1 = w\<lparr>outcomes := os\<rparr>" using v(2)
    by (auto intro: exI [of _ "outcomes w"])
qed

section \<open>The interface of the login handler\<close>

text \<open>
  \<open>userGetter\<close> of admin/login.go. \<open>accounts\<close> is the abstract table, \<open>same_email\<close> how it compares
  emails, and \<open>ready e w\<close> says that the store can answer for the email \<open>e\<close>.
\<close>

type_synonym 'w userGetter = "string \<Rightarrow> 'w \<Rightarrow> (user_error, User) result \<times> 'w"

locale user_getter =
  fixes getter :: "'w userGetter"
    and accounts :: "'w \<Rightarrow> User list"
    and same_email :: "'w \<Rightarrow> string \<Rightarrow> string \<Rightarrow> bool"
    and ready :: "string \<Rightarrow> 'w \<Rightarrow> bool"
  assumes get_found: "getter e w = (Inr u, w') \<Longrightarrow> u \<in> set (accounts w) \<and> same_email w (u_Email u) e"
    and get_accounts: "accounts (snd (getter e w)) = accounts w"
    and get_some: "ready e w \<Longrightarrow> u \<in> set (accounts w) \<Longrightarrow> same_email w (u_Email u) e \<Longrightarrow> getter e w = (Inr u, w)"
    and get_none: "ready e w \<Longrightarrow> \<forall>u \<in> set (accounts w). \<not> same_email w (u_Email u) e \<Longrightarrow>
          getter e w = (Inl user_ErrNotFound, w)"

definition users_ready :: "string \<Rightarrow> 'a users_db_scheme \<Rightarrow> bool" where
  "users_ready e w \<longleftrightarrow> healthy w \<and> text_ok w e \<and> users_inv w"

definition same_citext :: "'a users_db_scheme \<Rightarrow> string \<Rightarrow> string \<Rightarrow> bool" where
  "same_citext w a b \<longleftrightarrow> citext_key w a = citext_key w b"

lemma GetByEmail_found: "user_GetByEmail e w = (Inr u, w') \<Longrightarrow> citext_key w (u_Email u) = citext_key w e"
  by (auto simp: user_GetByEmail_def user_getOne_def split: prod.splits sum.splits if_splits option.splits
      elim!: pg_exec_Inr dest!: find_SomeD)

lemma GetByEmail_users: "users (snd (user_GetByEmail e w)) = users w"
  unfolding user_GetByEmail_def user_getOne_world by (rule pg_exec_keeps) (simp_all split: option.split)

interpretation repo_users: user_getter user_GetByEmail users same_citext users_ready
proof
  fix e u and w w' :: "'a users_db_scheme"
  show "user_GetByEmail e w = (Inr u, w') \<Longrightarrow> u \<in> set (users w) \<and> same_citext w (u_Email u) e"
    by (simp add: same_citext_def GetByEmail_Inr(1) GetByEmail_found)
  show "users (snd (user_GetByEmail e w)) = users w" by (rule GetByEmail_users)
  show "users_ready e w \<Longrightarrow> u \<in> set (users w) \<Longrightarrow> same_citext w (u_Email u) e \<Longrightarrow> user_GetByEmail e w = (Inr u, w)"
    by (simp add: users_ready_def same_citext_def GetByEmail_healthy find_email)
  show "users_ready e w \<Longrightarrow> \<forall>u \<in> set (users w). \<not> same_citext w (u_Email u) e \<Longrightarrow>
      user_GetByEmail e w = (Inl user_ErrNotFound, w)"
    by (auto simp: users_ready_def same_citext_def GetByEmail_healthy find_None_iff split: option.split)
qed

end
