(* ===== verification/Sha256.thy ===== *)
theory Sha256
  imports Go_Strings "HOL-Library.Word"
begin

text \<open>
  \<open>crypto/sha256.Sum256\<close> on byte strings (FIPS 180-4): padding, message schedule,
  compression over 32-bit words. The credential code stores the hex form of this digest and
  compares against it; the lemmas give the lengths of the digest and of the padded message.
\<close>

unbundle bit_operations_syntax

type_synonym u32 = "32 word"

definition K256 :: "u32 list" where
  "K256 = [
    1116352408, 1899447441, 3049323471, 3921009573, 961987163, 1508970993,
    2453635748, 2870763221, 3624381080, 310598401, 607225278, 1426881987,
    1925078388, 2162078206, 2614888103, 3248222580, 3835390401, 4022224774,
    264347078, 604807628, 770255983, 1249150122, 1555081692, 1996064986,
    2554220882, 2821834349, 2952996808, 3210313671, 3336571891, 3584528711,
    113926993, 338241895, 666307205, 773529912, 1294757372, 1396182291,
    1695183700, 1986661051, 2177026350, 2456956037, 2730485921, 2820302411,
    3259730800, 3345764771, 3516065817, 3600352804, 4094571909, 275423344,
    430227734, 506948616, 659060556, 883997877, 958139571, 1322822218,
    1537002063, 1747873779, 1955562222, 2024104815, 2227730452, 2361852424,
    2428436474, 2756734187, 3204031479, 3329325298]"

definition H256 :: "u32 list" where
  "H256 = [
    1779033703, 3144134277, 1013904242, 2773480762, 1359893119, 2600822924,
    528734635, 1541459225]"

definition rotr :: "nat \<Rightarrow> u32 \<Rightarrow> u32" where
  "rotr n x = drop_bit n x OR push_bit (32 - n) x"

definition big_endian :: "nat \<Rightarrow> int \<Rightarrow> string" where
  "big_endian k n = map (\<lambda>i. char_of_byte (nat (n div 256 ^ (k - 1 - i) mod 256))) [0..<k]"

definition sha_pad :: "string \<Rightarrow> string" where
  "sha_pad s = s @ char_of_byte 128 # replicate ((119 - length s mod 64) mod 64) (char_of_byte 0)
     @ big_endian 8 (8 * int (length s))"

fun be_words :: "string \<Rightarrow> u32 list" where
  "be_words (a # b # c # d # s) =
     word_of_int (((int (byte_of a) * 256 + int (byte_of b)) * 256 + int (byte_of c)) * 256 + int (byte_of d)) # be_words s"
| "be_words _ = []"

text \<open>The message schedule, newest word first: \<open>k\<close> more words from the last sixteen.\<close>

fun sha_schedule :: "nat \<Rightarrow> u32 list \<Rightarrow> u32 list" where
  "sha_schedule 0 ws = ws"
| "sha_schedule (Suc k) ws =
     (let w15 = ws ! 14; w2 = ws ! 1;
          s0 = rotr 7 w15 XOR rotr 18 w15 XOR drop_bit 3 w15;
          s1 = rotr 17 w2 XOR rotr 19 w2 XOR drop_bit 10 w2
      in sha_schedule k ((ws ! 15 + s0 + ws ! 6 + s1) # ws))"

fun sha_round :: "u32 list \<Rightarrow> u32 \<times> u32 \<Rightarrow> u32 list" where
  "sha_round [a, b, c, d, e, f, g, h] (k, w) =
     (let s1 = rotr 6 e XOR rotr 11 e XOR rotr 25 e;
          ch = (e AND f) XOR (NOT e AND g);
          t1 = h + s1 + ch + k + w;
          s0 = rotr 2 a XOR rotr 13 a XOR rotr 22 a;
          maj = (a AND b) XOR (a AND c) XOR (b AND c)
      in [t1 + (s0 + maj), a, b, c, d + t1, e, f, g])"
| "sha_round hs _ = hs"

definition sha_block :: "u32 list \<Rightarrow> u32 list \<Rightarrow> u32 list" where
  "sha_block hs ws =
     map2 (+) hs (foldl sha_round hs (zip K256 (rev (sha_schedule 48 (rev ws)))))"

fun sha_blocks :: "nat \<Rightarrow> u32 list \<Rightarrow> u32 list \<Rightarrow> u32 list" where
  "sha_blocks 0 hs ws = hs"
| "sha_blocks (Suc n) hs ws = sha_blocks n (sha_block hs (take 16 ws)) (drop 16 ws)"

definition sha256_Sum256 :: "string \<Rightarrow> string" where
  "sha256_Sum256 s =
     (let p = sha_pad s
      in concat (map (\<lambda>w. big_endian 4 (uint w)) (sha_blocks (length p div 64) H256 (be_words p))))"

lemma length_sha_round [simp]: "length (sha_round hs kw) = length hs"
  by (cases "(hs, kw)" rule: sha_round.cases) (simp_all add: Let_def)

lemma length_foldl_round [simp]: "length (foldl sha_round hs kws) = length hs"
  by (induction kws arbitrary: hs) simp_all

lemma length_sha_blocks [simp]: "length (sha_blocks n hs ws) = length hs"
  by (induction n hs ws rule: sha_blocks.induct) (simp_all add: sha_block_def)

lemma length_big_endian [simp]: "length (big_endian k n) = k"
  by (simp add: big_endian_def)

lemma length_sha256: "length (sha256_Sum256 s) = 32"
  by (simp add: sha256_Sum256_def Let_def length_concat comp_def sum_list_triv H256_def)

lemma length_sha_pad: "length (sha_pad s) mod 64 = 0"
proof -
  have "(r + 9 + (119 - r) mod 64) mod 64 = 0" if "r < 64" for r :: nat
  proof -
    have "(r + 9 + (119 - r) mod 64) mod 64 = (r + 9 + (119 - r)) mod 64"
      by (rule mod_add_right_eq)
    also have "r + 9 + (119 - r) = 2 * 64" using that by simp
    finally show ?thesis by simp
  qed
  from this [of "length s mod 64"]
  have "(length s mod 64 + (9 + (119 - length s mod 64) mod 64)) mod 64 = 0"
    by (simp add: ac_simps)
  then have "(length s + (9 + (119 - length s mod 64) mod 64)) mod 64 = 0"
    by (simp only: mod_add_left_eq)
  then show ?thesis
    by (simp add: sha_pad_def ac_simps)
qed

end
