(* ===== verification/Apikey.thy ===== *)
theory Apikey
  imports Key_Interface User_Repo Sha256
begin

text \<open>
  \<open>backend/internal/apikey\<close>: minting and verifying two-key credentials (credential.go) and
  the repository over the \<open>api_keys\<close> table of migration 20260606000003 (apikey.go). Each
  method is one SQL statement, run by \<open>pg_exec\<close>, and the mapping of its error. The invariant
  is the table's constraints: unique ids and unique key ids.
\<close>

section \<open>Credentials\<close>

definition KeyIDPrefix :: string where "KeyIDPrefix = ''dab_pk_''"
definition SecretPrefix :: string where "SecretPrefix = ''dab_sk_''"
definition keyIDBytes :: nat where "keyIDBytes = 16"
definition secretBytes :: nat where "secretBytes = 32"

record GenCredential =
  gc_KeyID :: string
  gc_Secret :: string
  gc_SecretHash :: string

text \<open>The only failure is that of the random source.\<close>

datatype rand_error = RandFailed

definition randToken :: "string \<Rightarrow> nat \<Rightarrow> 'a env_scheme \<Rightarrow> (rand_error, string) result \<times> 'a env_scheme" where
  "randToken pre n w =
     (case rand_read n w of
        (None, w') \<Rightarrow> (Inl RandFailed, w')
      | (Some b, w') \<Rightarrow> (Inr (pre @ base64_RawURL b), w'))"

definition HashSecret :: "string \<Rightarrow> string" where
  "HashSecret secret = hex_EncodeToString (sha256_Sum256 secret)"

definition Generate :: "'a env_scheme \<Rightarrow> (rand_error, GenCredential) result \<times> 'a env_scheme" where
  "Generate w =
     (case randToken KeyIDPrefix keyIDBytes w of
        (Inl e, w1) \<Rightarrow> (Inl e, w1)
      | (Inr keyID, w1) \<Rightarrow>
          (case randToken SecretPrefix secretBytes w1 of
             (Inl e, w2) \<Rightarrow> (Inl e, w2)
           | (Inr secret, w2) \<Rightarrow>
               (Inr \<lparr>gc_KeyID = keyID, gc_Secret = secret, gc_SecretHash = HashSecret secret\<rparr>, w2)))"

text \<open>\<open>subtle.ConstantTimeCompare\<close>: 1 when the byte slices are equal, 0 otherwise.\<close>

definition ConstantTimeCompare :: "string \<Rightarrow> string \<Rightarrow> int" where
  "ConstantTimeCompare x y =
     (if length x \<noteq> length y then 0
      else if list_all (\<lambda>(a, b). a = b) (zip x y) then 1 else 0)"

definition VerifySecret :: "string \<Rightarrow> string \<Rightarrow> bool" where
  "VerifySecret secret storedHash =
     (case hex_DecodeString storedHash of
        None \<Rightarrow> False
      | Some want \<Rightarrow> ConstantTimeCompare (sha256_Sum256 secret) want = 1)"

definition dummyHash :: string where
  "dummyHash = HashSecret ''dab.api-key.timing-equalizer''"

definition DummyVerify :: "string \<Rightarrow> unit" where
  "DummyVerify secret = (let _ = VerifySecret secret dummyHash in ())"

section \<open>The table\<close>

record keys_db = users_db +
  api_keys :: "APIKey list"

lemma uuid_error_rows [simp]: "uuid_error (w\<lparr>api_keys := ks\<rparr>) = uuid_error w"
  by (intro ext) (simp add: uuid_error_def)

definition opt_ok :: "('a \<Rightarrow> bool) \<Rightarrow> 'a option \<Rightarrow> bool" where
  "opt_ok P x = (case x of None \<Rightarrow> True | Some y \<Rightarrow> P y)"

text \<open>The INSERT: the parameters are read first, the unique keys next, the foreign key last.\<close>

definition insert_api_key :: "CreateParams \<Rightarrow> 'a keys_db_scheme \<Rightarrow> (pgerr, APIKey) result \<times> 'a keys_db_scheme" where
  "insert_api_key p w =
     (if \<not> (text_ok w (cp_KeyID p) \<and> text_ok w (cp_SecretHash p) \<and> text_ok w (cp_Name p)
            \<and> opt_ok (text_ok w) (cp_Persona p)) then (Inl bad_encoding, w)
      else if \<not> opt_ok (\<lambda>u. uuid_in w u \<noteq> None) (cp_CreatedBy p) then (Inl (uuid_error w (case cp_CreatedBy p of None \<Rightarrow> [] | Some u \<Rightarrow> u)), w)
      else case gen_uuid w of (i, w1) \<Rightarrow> (case pg_now w1 of (t, w2) \<Rightarrow>
        (let by = (case cp_CreatedBy p of None \<Rightarrow> None | Some u \<Rightarrow> uuid_in w u);
             k = \<lparr>ak_ID = i, ak_KeyID = cp_KeyID p, ak_SecretHash = cp_SecretHash p,
                  ak_Name = cp_Name p, ak_Persona = cp_Persona p, ak_CreatedBy = by,
                  ak_CreatedAt = t, ak_RevokedAt = None, ak_LastUsedAt = None\<rparr>
         in if list_ex (\<lambda>r. ak_ID r = i \<or> ak_KeyID r = cp_KeyID p) (api_keys w2)
            then (Inl unique_violation, w2)
            else if \<not> opt_ok (\<lambda>u. list_ex (\<lambda>r. u_ID r = u) (users w2)) by
            then (Inl fk_violation, w2)
            else (Inr k, w2\<lparr>api_keys := api_keys w2 @ [k]\<rparr>))))"

definition apikey_Create :: "CreateParams \<Rightarrow> 'a keys_db_scheme \<Rightarrow> (apikey_error, APIKey) result \<times> 'a keys_db_scheme" where
  "apikey_Create p w =
     (case pg_exec (insert_api_key p) w of
        (Inl e, w') \<Rightarrow>
          if e = unique_violation then (Inl apikey_ErrKeyIDTaken, w')
          else (Inl (apikey_wrapped e), w')
      | (Inr k, w') \<Rightarrow> (Inr k, w'))"

definition select_active :: "string \<Rightarrow> 'a keys_db_scheme \<Rightarrow> (pgerr, APIKey) result \<times> 'a keys_db_scheme" where
  "select_active keyID w =
     (if \<not> text_ok w keyID then (Inl bad_encoding, w)
      else case find (active_with keyID) (api_keys w) of
        None \<Rightarrow> (Inl NoRows, w) | Some k \<Rightarrow> (Inr k, w))"

definition apikey_GetActiveByKeyID :: "string \<Rightarrow> 'a keys_db_scheme \<Rightarrow> (apikey_error, APIKey) result \<times> 'a keys_db_scheme" where
  "apikey_GetActiveByKeyID keyID w =
     (case pg_exec (select_active keyID) w of
        (Inl e, w') \<Rightarrow>
          if e = NoRows then (Inl apikey_ErrNotFound, w') else (Inl (apikey_wrapped e), w')
      | (Inr k, w') \<Rightarrow> (Inr k, w'))"

definition isNotFound :: "pgerr \<Rightarrow> bool" where
  "isNotFound e \<longleftrightarrow> e = NoRows \<or> e = invalid_text"

definition select_by_id :: "string \<Rightarrow> 'a keys_db_scheme \<Rightarrow> (pgerr, Metadata) result \<times> 'a keys_db_scheme" where
  "select_by_id i w =
     (case uuid_in w i of
        None \<Rightarrow> (Inl (uuid_error w i), w)
      | Some j \<Rightarrow> (case find (\<lambda>k. ak_ID k = j) (api_keys w) of
          None \<Rightarrow> (Inl NoRows, w) | Some k \<Rightarrow> (Inr (metadata_of k), w)))"

definition apikey_GetByID :: "string \<Rightarrow> 'a keys_db_scheme \<Rightarrow> (apikey_error, Metadata) result \<times> 'a keys_db_scheme" where
  "apikey_GetByID i w =
     (case pg_exec (select_by_id i) w of
        (Inl e, w') \<Rightarrow>
          if isNotFound e then (Inl apikey_ErrNotFound, w') else (Inl (apikey_wrapped e), w')
      | (Inr m, w') \<Rightarrow> (Inr m, w'))"

text \<open>\<open>ORDER BY created_at DESC, id\<close>.\<close>

definition newest_first :: "APIKey list \<Rightarrow> APIKey list" where
  "newest_first ks = sort_key (\<lambda>k. (- ak_CreatedAt k, ak_ID k)) ks"

definition select_all :: "'a keys_db_scheme \<Rightarrow> (pgerr, Metadata list) result \<times> 'a keys_db_scheme" where
  "select_all w = (Inr (map metadata_of (newest_first (api_keys w))), w)"

definition apikey_List :: "'a keys_db_scheme \<Rightarrow> (apikey_error, Metadata list) result \<times> 'a keys_db_scheme" where
  "apikey_List w =
     (case pg_exec select_all w of
        (Inl e, w') \<Rightarrow> (Inl (apikey_wrapped e), w')
      | (Inr ms, w') \<Rightarrow> (Inr ms, w'))"

definition update_api_key :: "string \<Rightarrow> UpdateParams \<Rightarrow> 'a keys_db_scheme \<Rightarrow> (pgerr, Metadata) result \<times> 'a keys_db_scheme" where
  "update_api_key i p w =
     (case uuid_in w i of
        None \<Rightarrow> (Inl (uuid_error w i), w)
      | Some j \<Rightarrow>
          if \<not> (text_ok w (up_Name p) \<and> opt_ok (text_ok w) (up_Persona p)) then (Inl bad_encoding, w)
          else case find (\<lambda>k. ak_ID k = j) (api_keys w) of
            None \<Rightarrow> (Inl NoRows, w)
          | Some k \<Rightarrow>
              (Inr (metadata_of (relabel_row j p k)), w\<lparr>api_keys := map (relabel_row j p) (api_keys w)\<rparr>))"

definition apikey_Update :: "string \<Rightarrow> UpdateParams \<Rightarrow> 'a keys_db_scheme \<Rightarrow> (apikey_error, Metadata) result \<times> 'a keys_db_scheme" where
  "apikey_Update i p w =
     (case pg_exec (update_api_key i p) w of
        (Inl e, w') \<Rightarrow>
          if isNotFound e then (Inl apikey_ErrNotFound, w') else (Inl (apikey_wrapped e), w')
      | (Inr m, w') \<Rightarrow> (Inr m, w'))"

text \<open>An \<open>Exec\<close> returns the number of rows it affected.\<close>

definition revoke_api_key :: "string \<Rightarrow> 'a keys_db_scheme \<Rightarrow> (pgerr, nat) result \<times> 'a keys_db_scheme" where
  "revoke_api_key i w =
     (case uuid_in w i of
        None \<Rightarrow> (Inl (uuid_error w i), w)
      | Some j \<Rightarrow> (case pg_now w of (t, w1) \<Rightarrow>
          (Inr (length (filter (\<lambda>k. ak_ID k = j \<and> ak_RevokedAt k = None) (api_keys w1))),
           w1\<lparr>api_keys := map (revoke_row j t) (api_keys w1)\<rparr>)))"

definition apikey_Revoke :: "string \<Rightarrow> 'a keys_db_scheme \<Rightarrow> (apikey_error, unit) result \<times> 'a keys_db_scheme" where
  "apikey_Revoke i w =
     (case pg_exec (revoke_api_key i) w of
        (Inl e, w') \<Rightarrow>
          if isNotFound e then (Inl apikey_ErrNotFound, w') else (Inl (apikey_wrapped e), w')
      | (Inr n, w') \<Rightarrow> if n = 0 then (Inl apikey_ErrNotFound, w') else (Inr (), w'))"

definition touch_api_key :: "string \<Rightarrow> 'a keys_db_scheme \<Rightarrow> (pgerr, nat) result \<times> 'a keys_db_scheme" where
  "touch_api_key i w =
     (case uuid_in w i of
        None \<Rightarrow> (Inl (uuid_error w i), w)
      | Some j \<Rightarrow> (case pg_now w of (t, w1) \<Rightarrow>
          (Inr (length (filter (\<lambda>k. ak_ID k = j) (api_keys w1))),
           w1\<lparr>api_keys := map (\<lambda>k. if ak_ID k = j then k\<lparr>ak_LastUsedAt := Some t\<rparr> else k) (api_keys w1)\<rparr>)))"

definition apikey_TouchLastUsed :: "string \<Rightarrow> 'a keys_db_scheme \<Rightarrow> (apikey_error, unit) result \<times> 'a keys_db_scheme" where
  "apikey_TouchLastUsed i w =
     (case pg_exec (touch_api_key i) w of
        (Inl e, w') \<Rightarrow> if isNotFound e then (Inr (), w') else (Inl (apikey_wrapped e), w')
      | (Inr _, w') \<Rightarrow> (Inr (), w'))"

text \<open>The repository as the interfaces its clients declare.\<close>

definition repo_credentialStore :: "'a keys_db_scheme credentialStore" where
  "repo_credentialStore =
     \<lparr>GetActiveByKeyID = apikey_GetActiveByKeyID, TouchLastUsed = apikey_TouchLastUsed\<rparr>"

definition repo_keyStore :: "'a keys_db_scheme keyStore" where
  "repo_keyStore = \<lparr>ks_Create = apikey_Create, ks_GetByID = apikey_GetByID, ks_List = apikey_List,
     ks_Update = apikey_Update, ks_Revoke = apikey_Revoke\<rparr>"

section \<open>Credentials: what is minted and what verifies\<close>

lemma compare_iff [simp]: "ConstantTimeCompare x y = 1 \<longleftrightarrow> x = y"
  by (auto simp: ConstantTimeCompare_def list_all_iff list_eq_iff_zip_eq)

lemma VerifySecret_iff: "VerifySecret secret h \<longleftrightarrow> hex_DecodeString h = Some (sha256_Sum256 secret)"
  by (auto simp: VerifySecret_def split: option.split)

lemma VerifySecret_HashSecret [simp]: "VerifySecret secret (HashSecret secret)"
  by (simp add: VerifySecret_iff HashSecret_def)

lemma VerifySecret_other:
  "VerifySecret secret (HashSecret s) \<longleftrightarrow> sha256_Sum256 secret = sha256_Sum256 s"
  by (auto simp: VerifySecret_iff HashSecret_def)

lemma length_HashSecret [simp]: "length (HashSecret secret) = 64"
  by (simp add: HashSecret_def length_sha256)

lemma Generate_Inr:
  assumes "Generate w = (Inr c, w')"
  obtains b1 b2 where "rng w (rng_next w) 16 = Some b1" "rng w (Suc (rng_next w)) 32 = Some b2"
    "gc_KeyID c = ''dab_pk_'' @ base64_RawURL b1" "gc_Secret c = ''dab_sk_'' @ base64_RawURL b2"
    "gc_SecretHash c = HashSecret (gc_Secret c)" "w' = w\<lparr>rng_next := Suc (Suc (rng_next w))\<rparr>"
  using assms
  by (auto simp: Generate_def randToken_def rand_read_def KeyIDPrefix_def SecretPrefix_def
      keyIDBytes_def secretBytes_def split: option.splits)

section \<open>The table's constraints\<close>

definition keys_inv :: "'a keys_db_scheme \<Rightarrow> bool" where
  "keys_inv w \<longleftrightarrow> distinct (map ak_ID (api_keys w)) \<and> distinct (map ak_KeyID (api_keys w))"

lemma keys_now [world_simps, simp]:
  "api_keys (snd (now w)) = api_keys w" "api_keys (snd (pg_now w)) = api_keys w"
  "api_keys (snd (gen_uuid w)) = api_keys w" "users (snd (pg_now w)) = users w"
  by (simp_all add: now_def pg_now_def gen_uuid_def Let_def)

lemma keys_outcomes [simp]:
  "api_keys (w\<lparr>outcomes := os\<rparr>) = api_keys w" "keys_inv (w\<lparr>outcomes := os\<rparr>) = keys_inv w"
  by (simp_all add: keys_inv_def)

text \<open>What each statement does to the table, by its result.\<close>

definition insert_rel :: "CreateParams \<Rightarrow> APIKey list \<Rightarrow> (pgerr, APIKey) result \<Rightarrow> APIKey list \<Rightarrow> bool" where
  "insert_rel p ks r ks' \<longleftrightarrow> (case r of
      Inl _ \<Rightarrow> ks' = ks
    | Inr k \<Rightarrow> ks' = ks @ [k] \<and> ak_KeyID k = cp_KeyID p
        \<and> ak_SecretHash k = cp_SecretHash p \<and> ak_Name k = cp_Name p \<and> ak_Persona k = cp_Persona p
        \<and> ak_RevokedAt k = None \<and> ak_LastUsedAt k = None
        \<and> (\<forall>r \<in> set ks. ak_ID r \<noteq> ak_ID k \<and> ak_KeyID r \<noteq> ak_KeyID k))"

lemma insert_api_key_rel:
  "insert_api_key p w = (r, w') \<Longrightarrow> insert_rel p (api_keys w) r (api_keys w')"
  by (auto simp: insert_rel_def insert_api_key_def gen_uuid_def pg_now_def now_def Let_def list_ex_iff
      split: if_splits prod.splits)

definition update_rel :: "UpdateParams \<Rightarrow> APIKey list \<Rightarrow> (pgerr, Metadata) result \<Rightarrow> APIKey list \<Rightarrow> bool" where
  "update_rel p ks r ks' \<longleftrightarrow> (case r of
      Inl _ \<Rightarrow> ks' = ks
    | Inr m \<Rightarrow> m \<in> metadata_of ` set ks' \<and> ks' = map (relabel_row (md_ID m) p) ks)"

lemma update_api_key_rel:
  "update_api_key i p w = (r, w') \<Longrightarrow> update_rel p (api_keys w) r (api_keys w')"
proof -
  assume r: "update_api_key i p w = (r, w')"
  show ?thesis
  proof (cases r)
    case (Inl e)
    with r show ?thesis by (auto simp: update_rel_def update_api_key_def split: option.splits if_splits)
  next
    case (Inr m)
    with r obtain j k where j: "find (\<lambda>k. ak_ID k = j) (api_keys w) = Some k"
      and m: "m = metadata_of (relabel_row j p k)"
      and w': "api_keys w' = map (relabel_row j p) (api_keys w)"
      by (auto simp: update_api_key_def split: option.splits if_splits)
    from j have k: "k \<in> set (api_keys w)" "ak_ID k = j"
      by (auto simp: find_Some_iff)
    with m have "md_ID m = j" by (simp add: metadata_of_def relabel_row_def)
    with k m w' Inr show ?thesis
      by (auto simp: update_rel_def)
  qed
qed

definition revoke_rel :: "APIKey list \<Rightarrow> (pgerr, nat) result \<Rightarrow> APIKey list \<Rightarrow> bool" where
  "revoke_rel ks r ks' \<longleftrightarrow> (case r of
      Inl _ \<Rightarrow> ks' = ks
    | Inr n \<Rightarrow> \<exists>j t. n = length (filter (\<lambda>k. ak_ID k = j \<and> ak_RevokedAt k = None) ks) \<and>
        ks' = map (revoke_row j t) ks)"

lemma revoke_api_key_rel:
  "revoke_api_key i w = (r, w') \<Longrightarrow> revoke_rel (api_keys w) r (api_keys w')"
  by (fastforce simp: revoke_rel_def revoke_api_key_def pg_now_def now_def Let_def
      split: option.splits prod.splits)

definition touch_rel :: "APIKey list \<Rightarrow> (pgerr, nat) result \<Rightarrow> APIKey list \<Rightarrow> bool" where
  "touch_rel ks r ks' \<longleftrightarrow> map untouched ks' = map untouched ks"

lemma touch_api_key_rel:
  "touch_api_key i w = (r, w') \<Longrightarrow> touch_rel (api_keys w) r (api_keys w')"
  by (auto simp: touch_rel_def touch_api_key_def pg_now_def now_def Let_def untouched_def
      split: option.splits prod.splits)

lemma table_rel_Inl:
  "insert_rel p ks (Inl e) ks" "update_rel q ks (Inl e) ks" "revoke_rel ks (Inl e) ks"
  by (simp_all add: insert_rel_def update_rel_def revoke_rel_def)

lemma touch_rel_Inl: "touch_rel ks (Inl e) ks"
  by (simp add: touch_rel_def)

text \<open>The repository methods: the statement's effect on success; on failure it or nothing.\<close>

lemma Create_table:
  assumes "apikey_Create p w = (r, w')"
  obtains x where "insert_rel p (api_keys w) x (api_keys w')" "\<And>k. r = Inr k \<Longrightarrow> x = Inr k"
proof -
  obtain r0 where e: "pg_exec (insert_api_key p) w = (r0, w')" and r0: "\<And>k. r = Inr k \<Longrightarrow> r0 = Inr k"
    using assms by (auto simp: apikey_Create_def split: result_splits)
  have "\<exists>x. insert_rel p (api_keys w) x (api_keys w') \<and> (r0 = x \<or> r0 = Inl ConnErr)"
    by (rule pg_exec_effect [OF e]) (simp_all add: insert_api_key_rel table_rel_Inl)
  with r0 that show ?thesis by (metis Inl_Inr_False)
qed

lemma Update_table:
  assumes "apikey_Update i p w = (r, w')"
  obtains x where "update_rel p (api_keys w) x (api_keys w')" "\<And>k. r = Inr k \<Longrightarrow> x = Inr k"
proof -
  obtain r0 where e: "pg_exec (update_api_key i p) w = (r0, w')" and r0: "\<And>k. r = Inr k \<Longrightarrow> r0 = Inr k"
    using assms by (auto simp: apikey_Update_def split: result_splits)
  have "\<exists>x. update_rel p (api_keys w) x (api_keys w') \<and> (r0 = x \<or> r0 = Inl ConnErr)"
    by (rule pg_exec_effect [OF e]) (simp_all add: update_api_key_rel table_rel_Inl)
  with r0 that show ?thesis by (metis Inl_Inr_False)
qed

lemma Revoke_table:
  assumes "apikey_Revoke i w = (r, w')"
  obtains x where "revoke_rel (api_keys w) x (api_keys w')" "\<And>u. r = Inr u \<Longrightarrow> \<exists>n > 0. x = Inr n"
proof -
  obtain r0 where e: "pg_exec (revoke_api_key i) w = (r0, w')" and r0: "\<And>u. r = Inr u \<Longrightarrow> \<exists>n > 0. r0 = Inr n"
    using assms by (auto simp: apikey_Revoke_def split: result_splits)
  have "\<exists>x. revoke_rel (api_keys w) x (api_keys w') \<and> (r0 = x \<or> r0 = Inl ConnErr)"
    by (rule pg_exec_effect [OF e]) (simp_all add: revoke_api_key_rel table_rel_Inl)
  with r0 that show ?thesis by (metis Inl_Inr_False)
qed

lemma Touch_table: "map untouched (api_keys (snd (apikey_TouchLastUsed i w))) = map untouched (api_keys w)"
proof -
  obtain r0 w' where e: "pg_exec (touch_api_key i) w = (r0, w')" by fastforce
  then have "snd (apikey_TouchLastUsed i w) = w'" by (auto simp: apikey_TouchLastUsed_def split: sum.split)
  moreover have "\<exists>x. touch_rel (api_keys w) x (api_keys w') \<and> (r0 = x \<or> r0 = Inl ConnErr)"
    by (rule pg_exec_effect [OF e]) (simp_all add: touch_api_key_rel touch_rel_Inl)
  ultimately show ?thesis by (simp add: touch_rel_def)
qed

lemma select_keys:
  "api_keys (snd (pg_exec (select_active kid) w)) = api_keys w"
  "api_keys (snd (pg_exec (select_by_id i) w)) = api_keys w"
  "api_keys (snd (pg_exec select_all w)) = api_keys w"
  by (rule pg_exec_keeps, simp, simp add: select_active_def select_by_id_def select_all_def split: option.split)+

lemma select_world:
  "snd (apikey_GetActiveByKeyID kid w) = snd (pg_exec (select_active kid) w)"
  "snd (apikey_GetByID i w) = snd (pg_exec (select_by_id i) w)"
  "snd (apikey_List w) = snd (pg_exec select_all w)"
  by (simp_all add: apikey_GetActiveByKeyID_def apikey_GetByID_def apikey_List_def split: result_splits)

lemmas select_table [world_simps] = select_keys [folded select_world]

lemma GetByID_Inr:
  assumes "apikey_GetByID i w = (Inr m, w')" shows "m \<in> metadata_of ` set (api_keys w)"
proof -
  from assms have "pg_exec (select_by_id i) w = (Inr m, w')"
    by (auto simp: apikey_GetByID_def split: prod.splits sum.splits if_splits)
  then obtain w1 where "select_by_id i w1 = (Inr m, w')" "w1 = w \<or> (\<exists>os. w1 = w\<lparr>outcomes := os\<rparr>)"
    by (rule pg_exec_Inr)
  then show ?thesis by (auto simp: select_by_id_def find_Some_iff split: option.splits)
qed

lemma List_Inr:
  assumes "apikey_List w = (Inr ms, w')" shows "ms = map metadata_of (newest_first (api_keys w))"
proof -
  from assms have "pg_exec select_all w = (Inr ms, w')"
    by (auto simp: apikey_List_def split: prod.splits sum.splits)
  then obtain w1 where "select_all w1 = (Inr ms, w')" "w1 = w \<or> (\<exists>os. w1 = w\<lparr>outcomes := os\<rparr>)"
    by (rule pg_exec_Inr)
  then show ?thesis by (auto simp: select_all_def)
qed

lemma GetActive_Inr:
  assumes "apikey_GetActiveByKeyID kid w = (Inr k, w')"
  shows "k \<in> set (api_keys w)" "active_with kid k"
proof -
  from assms have "pg_exec (select_active kid) w = (Inr k, w')"
    by (auto simp: apikey_GetActiveByKeyID_def split: prod.splits sum.splits if_splits)
  then obtain w1 where "select_active kid w1 = (Inr k, w')" "w1 = w \<or> (\<exists>os. w1 = w\<lparr>outcomes := os\<rparr>)"
    by (rule pg_exec_Inr)
  then show "k \<in> set (api_keys w)" "active_with kid k"
    by (auto simp: select_active_def find_Some_iff split: if_splits option.splits)
qed

lemma GetActive_healthy:
  "healthy w \<Longrightarrow> text_ok w kid \<Longrightarrow> apikey_GetActiveByKeyID kid w =
     (case find (active_with kid) (api_keys w) of None \<Rightarrow> Inl apikey_ErrNotFound | Some k \<Rightarrow> Inr k, w)"
  by (simp add: apikey_GetActiveByKeyID_def select_active_def split: option.split)

section \<open>The interfaces hold of the repository\<close>

definition keys_ready :: "string \<Rightarrow> 'a keys_db_scheme \<Rightarrow> bool" where
  "keys_ready kid w \<longleftrightarrow> healthy w \<and> text_ok w kid"

interpretation repo_cs: credential_store repo_credentialStore api_keys keys_ready
proof
  fix kid i and k :: APIKey and w w' :: "'a keys_db_scheme"
  show "GetActiveByKeyID repo_credentialStore kid w = (Inr k, w') \<Longrightarrow>
      k \<in> set (api_keys w) \<and> active_with kid k"
    by (auto simp: repo_credentialStore_def dest: GetActive_Inr)
  show "api_keys (snd (GetActiveByKeyID repo_credentialStore kid w)) = api_keys w"
    by (simp add: repo_credentialStore_def select_table)
  show "keys_ready kid w \<Longrightarrow> fst (GetActiveByKeyID repo_credentialStore kid w) =
      (case find (active_with kid) (api_keys w) of None \<Rightarrow> Inl apikey_ErrNotFound | Some k \<Rightarrow> Inr k)"
    by (simp add: repo_credentialStore_def keys_ready_def GetActive_healthy)
  show "map untouched (api_keys (snd (TouchLastUsed repo_credentialStore i w))) = map untouched (api_keys w)"
    by (simp add: repo_credentialStore_def Touch_table)
qed

lemma update_rel_keeps:
  "update_rel p ks x ks' \<Longrightarrow>
   map (\<lambda>k. (ak_ID k, ak_KeyID k, ak_SecretHash k, ak_RevokedAt k)) ks' =
   map (\<lambda>k. (ak_ID k, ak_KeyID k, ak_SecretHash k, ak_RevokedAt k)) ks"
  by (auto simp: update_rel_def relabel_row_def split: sum.splits)

text \<open>The tables after a method, by its result.\<close>

lemma Create_Inr:
  assumes "apikey_Create p w = (Inr k, w')"
  shows "insert_rel p (api_keys w) (Inr k) (api_keys w')"
proof -
  obtain x where "insert_rel p (api_keys w) x (api_keys w')" "x = Inr k"
    using Create_table [OF assms] by blast
  then show ?thesis by simp
qed

lemma Update_Inr:
  assumes "apikey_Update i p w = (Inr m, w')"
  shows "update_rel p (api_keys w) (Inr m) (api_keys w')"
proof -
  obtain x where "update_rel p (api_keys w) x (api_keys w')" "x = Inr m"
    using Update_table [OF assms] by blast
  then show ?thesis by simp
qed

lemma Update_keeps:
  "map (\<lambda>k. (ak_ID k, ak_KeyID k, ak_SecretHash k, ak_RevokedAt k)) (api_keys (snd (apikey_Update i q w))) =
   map (\<lambda>k. (ak_ID k, ak_KeyID k, ak_SecretHash k, ak_RevokedAt k)) (api_keys w)"
proof (cases "apikey_Update i q w")
  case (Pair r w')
  then obtain x where "update_rel q (api_keys w) x (api_keys w')" by (rule Update_table)
  then show ?thesis by (simp add: Pair update_rel_keeps)
qed

lemma Revoke_effect:
  "api_keys (snd (apikey_Revoke i w)) = api_keys w \<or>
   (\<exists>j t. api_keys (snd (apikey_Revoke i w)) = map (revoke_row j t) (api_keys w))"
proof (cases "apikey_Revoke i w")
  case (Pair r w')
  then obtain x where "revoke_rel (api_keys w) x (api_keys w')" by (rule Revoke_table)
  then show ?thesis by (cases x) (auto simp: Pair revoke_rel_def)
qed

lemma mset_newest_first [simp]: "mset (newest_first ks) = mset ks"
  by (simp add: newest_first_def)

interpretation repo_ks: key_store repo_keyStore api_keys
proof
  fix i p q and k :: APIKey and m :: Metadata and w w' :: "'a keys_db_scheme" and rm rs
  show "ks_Create repo_keyStore p w = (Inr k, w') \<Longrightarrow>
      api_keys w' = api_keys w @ [k] \<and> ak_KeyID k = cp_KeyID p \<and> ak_SecretHash k = cp_SecretHash p
      \<and> ak_Name k = cp_Name p \<and> ak_Persona k = cp_Persona p \<and> ak_RevokedAt k = None \<and> ak_LastUsedAt k = None"
    using Create_Inr [of p w k w'] by (simp add: repo_keyStore_def insert_rel_def)
  show "\<not> is_ok (fst (ks_Create repo_keyStore p w))"
    if "k \<in> set (api_keys w)" "ak_KeyID k = cp_KeyID p"
  proof (cases "fst (apikey_Create p w)")
    case (Inr k')
    then have "insert_rel p (api_keys w) (Inr k') (api_keys (snd (apikey_Create p w)))"
      by (intro Create_Inr) (simp add: prod_eq_iff)
    with that have False by (auto simp: insert_rel_def)
    then show ?thesis ..
  qed (simp add: repo_keyStore_def)
  show "ks_GetByID repo_keyStore i w = (rm, w') \<Longrightarrow>
      api_keys w' = api_keys w \<and> (\<forall>m. rm = Inr m \<longrightarrow> m \<in> metadata_of ` set (api_keys w))"
    using select_table(2) [of i w] GetByID_Inr [of i w] by (auto simp: repo_keyStore_def)
  show "api_keys w' = api_keys w \<and> (\<forall>ms. rs = Inr ms \<longrightarrow> mset ms = mset (map metadata_of (api_keys w)))"
    if "ks_List repo_keyStore w = (rs, w')"
  proof (intro conjI allI impI)
    from that have l: "apikey_List w = (rs, w')" by (simp add: repo_keyStore_def)
    from select_table(3) [of w] show "api_keys w' = api_keys w" by (simp add: l)
    show "mset ms = mset (map metadata_of (api_keys w))" if "rs = Inr ms" for ms
      using List_Inr [of w ms w'] l that by simp
  qed
  show "m \<in> metadata_of ` set (api_keys w') \<and> api_keys w' = map (relabel_row (md_ID m) q) (api_keys w)"
    if "ks_Update repo_keyStore i q w = (Inr m, w')"
  proof -
    from that have "apikey_Update i q w = (Inr m, w')" by (simp add: repo_keyStore_def)
    then have "update_rel q (api_keys w) (Inr m) (api_keys w')" by (rule Update_Inr)
    then show ?thesis unfolding update_rel_def sum.case .
  qed
  show "map (\<lambda>k. (ak_ID k, ak_KeyID k, ak_SecretHash k, ak_RevokedAt k)) (api_keys (snd (ks_Update repo_keyStore i q w)))
      = map (\<lambda>k. (ak_ID k, ak_KeyID k, ak_SecretHash k, ak_RevokedAt k)) (api_keys w)"
    using Update_keeps [of i q w] by (simp add: repo_keyStore_def)
  show "api_keys (snd (ks_Revoke repo_keyStore i w)) = api_keys w \<or>
      (\<exists>j t. api_keys (snd (ks_Revoke repo_keyStore i w)) = map (revoke_row j t) (api_keys w))"
    using Revoke_effect [of i w] by (simp add: repo_keyStore_def)
qed

section \<open>Sequences of operations\<close>

text \<open>
  One operation on the table: a repository method, or anything that leaves the table alone
  (another component's statement, the passing of time).
\<close>

inductive key_step :: "'a keys_db_scheme \<Rightarrow> 'a keys_db_scheme \<Rightarrow> bool" where
  key_create: "key_step w (snd (apikey_Create p w))"
| key_update: "key_step w (snd (apikey_Update i q w))"
| key_revoke: "key_step w (snd (apikey_Revoke i w))"
| key_touch: "key_step w (snd (apikey_TouchLastUsed i w))"
| key_other: "api_keys w' = api_keys w \<Longrightarrow> key_step w w'"

inductive_cases key_stepE: "key_step w w'"

text \<open>What identifies a row and what its revocation says, for every row, old rows first.\<close>

definition frozen :: "APIKey \<Rightarrow> string \<times> string \<times> string" where
  "frozen k = (ak_ID k, ak_KeyID k, ak_SecretHash k)"

definition key_evolves :: "APIKey list \<Rightarrow> APIKey list \<Rightarrow> bool" where
  "key_evolves ks ks' \<longleftrightarrow> length ks \<le> length ks' \<and>
     (\<forall>i < length ks. frozen (ks' ! i) = frozen (ks ! i)
        \<and> (ak_RevokedAt (ks ! i) \<noteq> None \<longrightarrow> ak_RevokedAt (ks' ! i) = ak_RevokedAt (ks ! i)))"

definition ids_unique :: "APIKey list \<Rightarrow> bool" where
  "ids_unique ks \<longleftrightarrow> distinct (map ak_ID ks) \<and> distinct (map ak_KeyID ks)"

lemma keys_inv_ids: "keys_inv w \<longleftrightarrow> ids_unique (api_keys w)"
  by (simp add: keys_inv_def ids_unique_def)

lemma key_evolves_refl [simp]: "key_evolves ks ks"
  by (simp add: key_evolves_def)

lemma key_evolves_trans: "key_evolves a b \<Longrightarrow> key_evolves b c \<Longrightarrow> key_evolves a c"
  unfolding key_evolves_def by (metis le_trans order.strict_trans2)

lemma key_evolves_append [simp]: "key_evolves ks (ks @ ls)"
  by (simp add: key_evolves_def nth_append)

lemma key_evolves_map:
  assumes "\<And>k. frozen (f k) = frozen k" "\<And>k. ak_RevokedAt k \<noteq> None \<Longrightarrow> ak_RevokedAt (f k) = ak_RevokedAt k"
  shows "key_evolves ks (map f ks)"
  using assms by (simp add: key_evolves_def)

lemma row_updates_evolve:
  "key_evolves ks (map (revoke_row j t) ks)" "key_evolves ks (map (relabel_row j q) ks)"
  by (rule key_evolves_map; simp add: frozen_def revoke_row_def relabel_row_def)+

lemma ids_unique_map:
  assumes "\<And>k. frozen (f k) = frozen k" shows "ids_unique (map f ks) = ids_unique ks"
  using assms by (simp add: ids_unique_def frozen_def comp_def)

lemma row_updates_unique:
  "ids_unique (map (revoke_row j t) ks) = ids_unique ks" "ids_unique (map (relabel_row j q) ks) = ids_unique ks"
  by (rule ids_unique_map; simp add: frozen_def revoke_row_def relabel_row_def)+

lemma untouched_facts:
  assumes "map untouched ks' = map untouched ks"
  shows "key_evolves ks ks'" "ids_unique ks' = ids_unique ks"
proof -
  have len: "length ks' = length ks" using assms by (rule map_eq_imp_length_eq)
  have eq: "untouched (ks' ! i) = untouched (ks ! i)" if "i < length ks" for i
    using assms len that by (metis nth_map)
  have f: "frozen k' = frozen k \<and> ak_RevokedAt k' = ak_RevokedAt k" if "untouched k' = untouched k" for k k'
    using arg_cong [OF that, of frozen] arg_cong [OF that, of ak_RevokedAt]
    by (simp add: untouched_def frozen_def)
  show "key_evolves ks ks'" using len f [OF eq] by (simp add: key_evolves_def)
  have "map frozen ks' = map frozen ks" using len f [OF eq] by (simp add: list_eq_iff_nth_eq)
  from arg_cong [OF this, of "map fst"] arg_cong [OF this, of "map (fst \<circ> snd)"]
  show "ids_unique ks' = ids_unique ks" by (simp add: ids_unique_def frozen_def comp_def)
qed

lemma key_step_facts:
  assumes "key_step w w'"
  shows "key_evolves (api_keys w) (api_keys w')" "keys_inv w \<Longrightarrow> keys_inv w'"
proof -
  have "key_evolves (api_keys w) (api_keys w') \<and> (keys_inv w \<longrightarrow> keys_inv w')"
    using assms
  proof cases
    case (key_create p)
    then obtain r where "apikey_Create p w = (r, w')" by (cases "apikey_Create p w") simp
    then obtain x where "insert_rel p (api_keys w) x (api_keys w')" by (rule Create_table)
    then show ?thesis
      by (cases x) (auto simp: insert_rel_def keys_inv_ids ids_unique_def)
  next
    case (key_update i q)
    then obtain r where "apikey_Update i q w = (r, w')" by (cases "apikey_Update i q w") simp
    then obtain x where "update_rel q (api_keys w) x (api_keys w')" by (rule Update_table)
    then show ?thesis
      by (cases x) (simp_all add: update_rel_def keys_inv_ids row_updates_evolve row_updates_unique)
  next
    case (key_revoke i)
    then show ?thesis using Revoke_effect [of i w]
      by (auto simp: keys_inv_ids row_updates_evolve row_updates_unique)
  next
    case (key_touch i)
    then show ?thesis using untouched_facts [OF Touch_table [of i w]]
      by (simp add: keys_inv_ids)
  next
    case key_other
    then show ?thesis by (simp add: keys_inv_ids)
  qed
  then show "key_evolves (api_keys w) (api_keys w')" "keys_inv w \<Longrightarrow> keys_inv w'" by auto
qed

lemma key_steps_facts:
  assumes "key_step\<^sup>*\<^sup>* w w'"
  shows "key_evolves (api_keys w) (api_keys w')" "keys_inv w \<Longrightarrow> keys_inv w'"
  using assms
  by (induction rule: rtranclp_induct) (auto dest: key_step_facts intro: key_evolves_trans)

text \<open>A key id whose row is revoked has no active row, then or at any later time.\<close>

lemma revoked_no_active:
  assumes "ids_unique ks'" "key_evolves ks ks'" "k \<in> set ks" "ak_RevokedAt k \<noteq> None"
  shows "\<forall>k' \<in> set ks'. \<not> active_with (ak_KeyID k) k'"
proof
  fix k' assume "k' \<in> set ks'"
  then obtain j where j: "j < length ks'" "k' = ks' ! j" by (auto simp: in_set_conv_nth)
  obtain i where i: "i < length ks" "k = ks ! i" using assms(3) by (auto simp: in_set_conv_nth)
  with assms(2,4) have i': "i < length ks'" "ak_KeyID (ks' ! i) = ak_KeyID k" "ak_RevokedAt (ks' ! i) \<noteq> None"
    by (auto simp: key_evolves_def frozen_def)
  show "\<not> active_with (ak_KeyID k) k'"
  proof
    assume a: "active_with (ak_KeyID k) k'"
    with i' j have "map ak_KeyID ks' ! i = map ak_KeyID ks' ! j" by (simp add: active_with_def)
    moreover have "distinct (map ak_KeyID ks')" using assms(1) by (simp add: ids_unique_def)
    ultimately have "i = j"
      using nth_eq_iff_index_eq [of "map ak_KeyID ks'" i j] i'(1) j(1) by simp
    with a i' j show False by (simp add: active_with_def)
  qed
qed

end
