(* ===== verification/Conversation.thy ===== *)
theory Conversation
  imports Conv_Interface Apikey
begin

text \<open>
  \<open>backend/internal/conversation/conversation.go\<close> over the \<open>conversations\<close> and \<open>messages\<close>
  tables of migration 20260606000004. \<open>AppendMessages\<close> is a transaction: its statements run
  one round trip each on the tentative tables, an early return rolls back, and a commit may
  succeed without the caller learning of it. Rows are kept in insertion order.
\<close>

section \<open>Tables\<close>

record conversation_row =
  cr_id :: string
  cr_api_key_id :: string
  cr_model :: "string option"
  cr_created_at :: int
  cr_updated_at :: int

record conv_db = keys_db +
  conversations :: "conversation_row list"
  messages :: "StoredMessage list"

text \<open>\<open>conversationColumns\<close>, with \<open>COALESCE(model, '')\<close>.\<close>

definition scanConversation :: "conversation_row \<Rightarrow> Conversation" where
  "scanConversation r = \<lparr>cv_ID = cr_id r, cv_APIKeyID = cr_api_key_id r,
     cv_Model = (case cr_model r of None \<Rightarrow> [] | Some m \<Rightarrow> m),
     cv_CreatedAt = cr_created_at r, cv_UpdatedAt = cr_updated_at r\<rparr>"

section \<open>Operations\<close>

definition insert_conversation :: "string \<Rightarrow> string \<Rightarrow> 'a conv_db_scheme \<Rightarrow> (pgerr, Conversation) result \<times> 'a conv_db_scheme" where
  "insert_conversation apiKeyID model w =
     (case uuid_in w apiKeyID of
        None \<Rightarrow> (Inl (uuid_error w apiKeyID), w)
      | Some a \<Rightarrow>
          if \<not> text_ok w model then (Inl bad_encoding, w)
          else case gen_uuid w of (i, w1) \<Rightarrow> (case pg_now w1 of (t, w2) \<Rightarrow>
            (let r = \<lparr>cr_id = i, cr_api_key_id = a, cr_model = (if model = [] then None else Some model),
                      cr_created_at = t, cr_updated_at = t\<rparr>
             in if list_ex (\<lambda>c. cr_id c = i) (conversations w2) then (Inl unique_violation, w2)
                else if \<not> list_ex (\<lambda>k. ak_ID k = a) (api_keys w2) then (Inl fk_violation, w2)
                else (Inr (scanConversation r), w2\<lparr>conversations := conversations w2 @ [r]\<rparr>))))"

definition conv_CreateConversation :: "string \<Rightarrow> string \<Rightarrow> 'a conv_db_scheme \<Rightarrow> (conv_error, Conversation) result \<times> 'a conv_db_scheme" where
  "conv_CreateConversation apiKeyID model w =
     (case pg_exec (insert_conversation apiKeyID model) w of
        (Inl e, w') \<Rightarrow> (Inl (conversation_wrapped e), w')
      | (Inr c, w') \<Rightarrow> (Inr c, w'))"

definition select_conversation :: "string \<Rightarrow> string \<Rightarrow> 'a conv_db_scheme \<Rightarrow> (pgerr, Conversation) result \<times> 'a conv_db_scheme" where
  "select_conversation apiKeyID sessionID w =
     (case (uuid_in w apiKeyID, uuid_in w sessionID) of
        (Some a, Some s) \<Rightarrow>
          (case find (\<lambda>c. cr_api_key_id c = a \<and> cr_id c = s) (conversations w) of
             None \<Rightarrow> (Inl NoRows, w)
           | Some r \<Rightarrow> (Inr (scanConversation r), w))
      | (None, _) \<Rightarrow> (Inl (uuid_error w apiKeyID), w)
      | (_, None) \<Rightarrow> (Inl (uuid_error w sessionID), w))"

definition conv_GetConversation :: "string \<Rightarrow> string \<Rightarrow> 'a conv_db_scheme \<Rightarrow> (conv_error, Conversation) result \<times> 'a conv_db_scheme" where
  "conv_GetConversation apiKeyID sessionID w =
     (case pg_exec (select_conversation apiKeyID sessionID) w of
        (Inl e, w') \<Rightarrow>
          if e = NoRows then (Inl conversation_ErrNotFound, w')
          else (Inl (conversation_wrapped e), w')
      | (Inr c, w') \<Rightarrow> (Inr c, w'))"

text \<open>\<open>ORDER BY created_at, id\<close>.\<close>

definition oldest_first :: "StoredMessage list \<Rightarrow> StoredMessage list" where
  "oldest_first ms = sort_key (\<lambda>m. (sm_CreatedAt m, sm_ID m)) ms"

definition messages_of :: "string \<Rightarrow> StoredMessage list \<Rightarrow> StoredMessage list" where
  "messages_of c ms = filter (\<lambda>m. sm_ConversationID m = c) ms"

definition select_history :: "string \<Rightarrow> 'a conv_db_scheme \<Rightarrow> (pgerr, StoredMessage list) result \<times> 'a conv_db_scheme" where
  "select_history conversationID w =
     (case uuid_in w conversationID of
        None \<Rightarrow> (Inl (uuid_error w conversationID), w)
      | Some c \<Rightarrow> (Inr (oldest_first (messages_of c (messages w))), w))"

definition conv_LoadHistory :: "string \<Rightarrow> 'a conv_db_scheme \<Rightarrow> (conv_error, StoredMessage list) result \<times> 'a conv_db_scheme" where
  "conv_LoadHistory conversationID w =
     (case pg_exec (select_history conversationID) w of
        (Inl e, w') \<Rightarrow> (Inl (conversation_wrapped e), w')
      | (Inr ms, w') \<Rightarrow> (Inr ms, w'))"

text \<open>A token count has to fit the column's 32 bits; the driver refuses others.\<close>

definition in_int32 :: "int \<Rightarrow> bool" where
  "in_int32 n \<longleftrightarrow> - (2 ^ 31) \<le> n \<and> n < 2 ^ 31"

definition insert_message :: "string \<Rightarrow> NewMessage \<Rightarrow> int \<Rightarrow> 'a conv_db_scheme \<Rightarrow> (pgerr, unit) result \<times> 'a conv_db_scheme" where
  "insert_message conversationID m ts w =
     (if \<not> opt_ok in_int32 (nm_TokenCount m) then (Inl ConnErr, w)
      else case uuid_in w conversationID of
        None \<Rightarrow> (Inl (uuid_error w conversationID), w)
      | Some c \<Rightarrow>
          if \<not> (text_ok w (nm_Role m) \<and> text_ok w (nm_Content m)) then (Inl bad_encoding, w)
          else if nm_Role m \<notin> set [RoleSystem, RoleUser, RoleAssistant] then (Inl check_violation, w)
          else case gen_uuid w of (i, w1) \<Rightarrow>
            if list_ex (\<lambda>x. sm_ID x = i) (messages w1) then (Inl unique_violation, w1)
            else if \<not> list_ex (\<lambda>r. cr_id r = c) (conversations w1) then (Inl fk_violation, w1)
            else (Inr (), w1\<lparr>messages := messages w1 @
                   [\<lparr>sm_ID = i, sm_ConversationID = c, sm_Role = nm_Role m, sm_Content = nm_Content m,
                     sm_TokenCount = nm_TokenCount m, sm_CreatedAt = ts div 1000\<rparr>]\<rparr>))"

text \<open>The loop over the batch: message \<open>i\<close> is dated \<open>i\<close> microseconds after the base.\<close>

fun append_loop :: "string \<Rightarrow> int \<Rightarrow> nat \<Rightarrow> NewMessage list \<Rightarrow> 'a conv_db_scheme \<Rightarrow> (pgerr, unit) result \<times> 'a conv_db_scheme" where
  "append_loop c base i [] w = (Inr (), w)"
| "append_loop c base i (m # ms) w =
     (case pg_exec (insert_message c m (base + int i * 1000)) w of
        (Inl e, w') \<Rightarrow> (Inl e, w')
      | (Inr _, w') \<Rightarrow> append_loop c base (Suc i) ms w')"

definition bump_updated_at :: "string \<Rightarrow> int \<Rightarrow> 'a conv_db_scheme \<Rightarrow> (pgerr, nat) result \<times> 'a conv_db_scheme" where
  "bump_updated_at conversationID t w =
     (case uuid_in w conversationID of
        None \<Rightarrow> (Inl (uuid_error w conversationID), w)
      | Some c \<Rightarrow>
          (Inr (length (filter (\<lambda>r. cr_id r = c) (conversations w))),
           w\<lparr>conversations := map (\<lambda>r. if cr_id r = c then r\<lparr>cr_updated_at := t\<rparr> else r) (conversations w)\<rparr>))"

text \<open>Begin (it fixes what \<open>now()\<close> is in the transaction), roll back to the tables \<open>w0\<close> had.\<close>

definition tx_begin :: "'a conv_db_scheme \<Rightarrow> (pgerr, int) result \<times> 'a conv_db_scheme" where
  "tx_begin w = (case pg_now w of (t, w') \<Rightarrow> (Inr t, w'))"

definition tx_rollback :: "'a conv_db_scheme \<Rightarrow> 'a conv_db_scheme \<Rightarrow> 'a conv_db_scheme" where
  "tx_rollback w0 w = w\<lparr>conversations := conversations w0, messages := messages w0\<rparr>"

definition tx_commit :: "'a conv_db_scheme \<Rightarrow> 'a conv_db_scheme \<Rightarrow> (pgerr, unit) result \<times> 'a conv_db_scheme" where
  "tx_commit w0 w =
     (case next_outcome w of
        (Delivered, w') \<Rightarrow> (Inr (), w')
      | (NotSent, w') \<Rightarrow> (Inl ConnErr, tx_rollback w0 w')
      | (Unacked, w') \<Rightarrow> (Inl ConnErr, w'))"

definition conv_AppendMessages :: "string \<Rightarrow> NewMessage list \<Rightarrow> 'a conv_db_scheme \<Rightarrow> (conv_error, unit) result \<times> 'a conv_db_scheme" where
  "conv_AppendMessages conversationID msgs w =
     (if msgs = [] then (Inr (), w)
      else case pg_exec tx_begin w of
        (Inl e, w1) \<Rightarrow> (Inl (conversation_wrapped e), w1)
      | (Inr t, w1) \<Rightarrow>
          (case now w1 of (base, w2) \<Rightarrow>
            (case append_loop conversationID base 0 msgs w2 of
               (Inl e, w3) \<Rightarrow> (Inl (conversation_wrapped e), tx_rollback w w3)
             | (Inr _, w3) \<Rightarrow>
                 (case pg_exec (bump_updated_at conversationID t) w3 of
                    (Inl e, w4) \<Rightarrow> (Inl (conversation_wrapped e), tx_rollback w w4)
                  | (Inr n, w4) \<Rightarrow>
                      if n = 0 then (Inl conversation_ErrNotFound, tx_rollback w w4)
                      else case tx_commit w w4 of
                        (Inl e, w5) \<Rightarrow> (Inl (conversation_wrapped e), w5)
                      | (Inr _, w5) \<Rightarrow> (Inr (), w5)))))"

definition repo_ConvRepo :: "'a conv_db_scheme ConvRepo" where
  "repo_ConvRepo = \<lparr>CreateConversation = conv_CreateConversation, GetConversation = conv_GetConversation,
     LoadHistory = conv_LoadHistory, AppendMessages = conv_AppendMessages\<rparr>"

section \<open>Frame rules\<close>

lemma conv_outcomes [simp]:
  "messages (w\<lparr>outcomes := os\<rparr>) = messages w" "conversations (w\<lparr>outcomes := os\<rparr>) = conversations w"
  by simp_all

lemma conv_clock [world_simps, simp]:
  "messages (snd (now w)) = messages w" "conversations (snd (now w)) = conversations w"
  "uuid_in (snd (now w)) = uuid_in w"
  "messages (snd (pg_now w)) = messages w" "conversations (snd (pg_now w)) = conversations w"
  "uuid_in (snd (pg_now w)) = uuid_in w"
  "messages (snd (gen_uuid w)) = messages w" "conversations (snd (gen_uuid w)) = conversations w"
  "uuid_in (snd (gen_uuid w)) = uuid_in w"
  by (simp_all add: now_def pg_now_def gen_uuid_def Let_def)

text \<open>What a session id names: its messages under the normal form of the id.\<close>

definition session_history :: "'a conv_db_scheme \<Rightarrow> string \<Rightarrow> StoredMessage list" where
  "session_history w c = (case uuid_in w c of None \<Rightarrow> [] | Some j \<Rightarrow> oldest_first (messages_of j (messages w)))"

definition same_session :: "'a conv_db_scheme \<Rightarrow> string \<Rightarrow> string \<Rightarrow> bool" where
  "same_session w c d \<longleftrightarrow> uuid_in w c = uuid_in w d"

definition owns_session :: "'a conv_db_scheme \<Rightarrow> string \<Rightarrow> string \<Rightarrow> bool" where
  "owns_session w a c \<longleftrightarrow>
     (\<exists>r \<in> set (conversations w). cr_id r = c \<and> uuid_in w a = Some (cr_api_key_id r))"

text \<open>The clock never runs backwards and is past every message of the session.\<close>

definition settled :: "'a conv_db_scheme \<Rightarrow> string \<Rightarrow> bool" where
  "settled w c \<longleftrightarrow> (\<forall>d \<in> set (ticks w). 0 \<le> d) \<and>
     (\<forall>m \<in> set (session_history w c). sm_CreatedAt m < clock w div 1000)"

text \<open>
  The part of the world the history depends on, and its clock: no round trip of this theory
  other than an append changes the former, and the latter only moves forward.
\<close>

definition msg_view :: "'a conv_db_scheme \<Rightarrow> StoredMessage list \<times> (string \<Rightarrow> string option)" where
  "msg_view w = (messages w, uuid_in w)"

lemma history_view: "msg_view w' = msg_view w \<Longrightarrow> session_history w' = session_history w"
  by (intro ext) (simp add: msg_view_def session_history_def split: option.split)

lemma insert_conversation_view: "msg_view (snd (insert_conversation a m w)) = msg_view w"
  by (simp add: msg_view_def insert_conversation_def gen_uuid_def pg_now_def now_def Let_def split: option.split)

lemma select_conversation_view: "msg_view (snd (select_conversation a s w)) = msg_view w"
  by (simp add: select_conversation_def split: option.split)

lemma select_history_view: "msg_view (snd (select_history c w)) = msg_view w"
  by (simp add: select_history_def split: option.split)

lemma pg_exec_view:
  assumes "\<And>w. msg_view (snd (stmt w)) = msg_view w"
  shows "msg_view (snd (pg_exec stmt w)) = msg_view w"
  by (rule pg_exec_keeps) (simp add: msg_view_def, rule assms)

lemma method_world:
  "snd (conv_CreateConversation a m w) = snd (pg_exec (insert_conversation a m) w)"
  "snd (conv_GetConversation a s w) = snd (pg_exec (select_conversation a s) w)"
  "snd (conv_LoadHistory c w) = snd (pg_exec (select_history c) w)"
  by (simp_all add: conv_CreateConversation_def conv_GetConversation_def conv_LoadHistory_def split: result_splits)

lemma method_view [world_simps]:
  "msg_view (snd (conv_CreateConversation a m w)) = msg_view w"
  "msg_view (snd (conv_GetConversation a s w)) = msg_view w"
  "msg_view (snd (conv_LoadHistory c w)) = msg_view w"
  unfolding method_world
  by (rule pg_exec_view insert_conversation_view select_conversation_view select_history_view)+

lemmas method_history [world_simps] = method_view [THEN history_view]

section \<open>Reads and creation\<close>

lemma Create_Inr_conv:
  assumes "conv_CreateConversation a m w = (Inr c, w')"
  shows "owns_session w' a (cv_ID c)" "cv_Model c = m"
proof -
  from assms have "pg_exec (insert_conversation a m) w = (Inr c, w')"
    by (auto simp: conv_CreateConversation_def split: prod.splits sum.splits)
  then obtain w1 where "insert_conversation a m w1 = (Inr c, w')" by (rule pg_exec_Inr)
  then show "owns_session w' a (cv_ID c)" "cv_Model c = m"
    by (auto simp: insert_conversation_def owns_session_def scanConversation_def gen_uuid_def pg_now_def
        now_def Let_def split: option.splits if_splits)
qed

lemma Get_Inr_conv:
  assumes "conv_GetConversation a s w = (Inr c, w')"
  obtains r where "r \<in> set (conversations w)" "c = scanConversation r"
    "uuid_in w a = Some (cr_api_key_id r)" "uuid_in w s = Some (cr_id r)"
proof -
  from assms have "pg_exec (select_conversation a s) w = (Inr c, w')"
    by (auto simp: conv_GetConversation_def split: prod.splits sum.splits if_splits)
  then obtain w1 where "select_conversation a s w1 = (Inr c, w')" "w1 = w \<or> (\<exists>os. w1 = w\<lparr>outcomes := os\<rparr>)"
    by (rule pg_exec_Inr)
  then show ?thesis using that
    by (auto simp: select_conversation_def split: option.splits dest!: find_SomeD)
qed

lemma Load_Inr:
  assumes "conv_LoadHistory c w = (Inr ms, w')" shows "ms = session_history w c"
proof -
  from assms have "pg_exec (select_history c) w = (Inr ms, w')"
    by (auto simp: conv_LoadHistory_def split: prod.splits sum.splits)
  then obtain w1 where "select_history c w1 = (Inr ms, w')" "w1 = w \<or> (\<exists>os. w1 = w\<lparr>outcomes := os\<rparr>)"
    by (rule pg_exec_Inr)
  then show ?thesis by (auto simp: select_history_def session_history_def split: option.splits)
qed

lemma Load_healthy:
  "healthy w \<Longrightarrow> uuid_in w c = Some j \<Longrightarrow> conv_LoadHistory c w = (Inr (session_history w c), w)"
  by (simp add: conv_LoadHistory_def select_history_def session_history_def)

section \<open>Appending\<close>

text \<open>The rows a batch becomes: in order, under the session's id, a microsecond apart.\<close>

definition batch_rows :: "(string \<Rightarrow> string option) \<Rightarrow> string \<Rightarrow> int \<Rightarrow> NewMessage list \<Rightarrow> StoredMessage list \<Rightarrow> bool" where
  "batch_rows f c t ns rs \<longleftrightarrow> map sm_pair rs = map nm_pair ns
     \<and> (\<forall>m \<in> set rs. f c = Some (sm_ConversationID m))
     \<and> map sm_CreatedAt rs = map (\<lambda>k. t + int k) [0..<length ns]"

lemma batch_rows_Nil [simp]: "batch_rows f c t [] rs \<longleftrightarrow> rs = []"
  by (auto simp: batch_rows_def)

lemma batch_rows_Cons:
  "sm_pair m = nm_pair n \<Longrightarrow> f c = Some (sm_ConversationID m) \<Longrightarrow> sm_CreatedAt m = t \<Longrightarrow>
   batch_rows f c (t + 1) ns rs \<Longrightarrow> batch_rows f c t (n # ns) (m # rs)"
  by (auto simp: batch_rows_def upt_conv_Cons simp del: upt_Suc simp flip: map_Suc_upt)

lemma insert_message_cases:
  "insert_message c n ts w = (r, w') \<Longrightarrow> uuid_in w' = uuid_in w \<and>
   (case r of
      Inl _ \<Rightarrow> messages w' = messages w
    | Inr _ \<Rightarrow> \<exists>m. messages w' = messages w @ [m] \<and> sm_pair m = nm_pair n
        \<and> uuid_in w c = Some (sm_ConversationID m) \<and> sm_CreatedAt m = ts div 1000)"
  by (auto simp: insert_message_def gen_uuid_def sm_pair_def nm_pair_def split: if_splits option.splits)

lemma insert_message_Inr:
  assumes "pg_exec (insert_message c n ts) w = (Inr u, w')"
  obtains m where "messages w' = messages w @ [m]" "sm_pair m = nm_pair n"
    "uuid_in w c = Some (sm_ConversationID m)" "sm_CreatedAt m = ts div 1000" "uuid_in w' = uuid_in w"
proof -
  obtain w1 where "insert_message c n ts w1 = (Inr u, w')" "w1 = w \<or> (\<exists>os. w1 = w\<lparr>outcomes := os\<rparr>)"
    using assms by (rule pg_exec_Inr)
  then show ?thesis using that by (auto dest!: insert_message_cases)
qed

lemma append_loop_Inr:
  "append_loop c base i ns w = (Inr u, w') \<Longrightarrow> uuid_in w' = uuid_in w \<and>
   (\<exists>rs. messages w' = messages w @ rs \<and> batch_rows (uuid_in w) c (base div 1000 + int i) ns rs)"
proof (induction ns arbitrary: i w)
  case (Cons n ns)
  then obtain w1 where w1: "pg_exec (insert_message c n (base + int i * 1000)) w = (Inr (), w1)"
    and loop: "append_loop c base (Suc i) ns w1 = (Inr u, w')"
    by (auto split: prod.splits sum.splits)
  from w1 obtain m where m: "messages w1 = messages w @ [m]" "sm_pair m = nm_pair n"
    "uuid_in w c = Some (sm_ConversationID m)" "sm_CreatedAt m = (base + int i * 1000) div 1000"
    "uuid_in w1 = uuid_in w"
    by (rule insert_message_Inr)
  from Cons.IH [OF loop] obtain rs where "uuid_in w' = uuid_in w1" "messages w' = messages w1 @ rs"
    "batch_rows (uuid_in w1) c (base div 1000 + int (Suc i)) ns rs" by blast
  with m show ?case
    by (intro conjI exI [of _ "m # rs"] batch_rows_Cons) (simp_all add: ac_simps)
qed simp

lemma insert_message_uuid: "uuid_in (snd (insert_message c n ts w)) = uuid_in w"
  by (simp add: insert_message_def gen_uuid_def split: option.split)

lemma append_loop_uuid: "uuid_in (snd (append_loop c base i ns w)) = uuid_in w"
proof (induction ns arbitrary: i w)
  case (Cons n ns)
  have "uuid_in (snd (pg_exec (insert_message c n (base + int i * 1000)) w)) = uuid_in w"
    by (rule pg_exec_keeps) (simp_all add: insert_message_uuid)
  with Cons.IH show ?case by (auto split: prod.split sum.split)
qed simp

lemma bump_view: "msg_view (snd (bump_updated_at c t w)) = msg_view w"
  by (simp add: bump_updated_at_def msg_view_def split: option.split)

lemma rollback_view: "messages (tx_rollback w0 w) = messages w0" "uuid_in (tx_rollback w0 w) = uuid_in w"
  by (simp_all add: tx_rollback_def)

lemma tx_begin_view: "msg_view (snd (tx_begin w)) = msg_view w"
  by (simp add: tx_begin_def msg_view_def pg_now_def now_def Let_def)

lemma begin_Inr:
  assumes "pg_exec tx_begin w = (Inr t, w1)"
  shows "msg_view w1 = msg_view w" "\<forall>d \<in> set (ticks w). 0 \<le> d \<Longrightarrow> clock w \<le> fst (now w1)"
proof -
  obtain w0 where "tx_begin w0 = (Inr t, w1)" "w0 = w \<or> (\<exists>os. w0 = w\<lparr>outcomes := os\<rparr>)"
    using assms by (rule pg_exec_Inr)
  then show "msg_view w1 = msg_view w" "\<forall>d \<in> set (ticks w). 0 \<le> d \<Longrightarrow> clock w \<le> fst (now w1)"
    by (auto simp: tx_begin_def msg_view_def pg_now_def now_def Let_def tl_def split: list.splits)
qed

text \<open>An append, whatever its result: it adds the whole batch to its session or nothing.\<close>

definition append_effect :: "string \<Rightarrow> NewMessage list \<Rightarrow> 'a conv_db_scheme \<Rightarrow> 'a conv_db_scheme \<Rightarrow> bool" where
  "append_effect c ns w w' \<longleftrightarrow> (\<exists>rs t. messages w' = messages w @ rs \<and> batch_rows (uuid_in w) c t ns rs
     \<and> ((\<forall>d \<in> set (ticks w). 0 \<le> d) \<longrightarrow> clock w div 1000 \<le> t))"

lemma bump_exec_view: "msg_view (snd (pg_exec (bump_updated_at c t) w)) = msg_view w"
  by (rule pg_exec_view) (rule bump_view)

lemma commit_view:
  "messages (snd (tx_commit w0 w)) = messages w \<or> messages (snd (tx_commit w0 w)) = messages w0"
  "uuid_in (snd (tx_commit w0 w)) = uuid_in w"
  "fst (tx_commit w0 w) = Inr u \<Longrightarrow> messages (snd (tx_commit w0 w)) = messages w"
  by (auto simp: tx_commit_def tx_rollback_def next_outcome_def split: outcome.splits list.splits prod.splits)

lemma append_effect_refl: "append_effect c [] w w"
  by (auto simp: append_effect_def batch_rows_def)

lemma Append_cases:
  assumes "conv_AppendMessages c ns w = (r, w')"
  shows "uuid_in w' = uuid_in w" "messages w' = messages w \<or> append_effect c ns w w'"
    "r = Inr () \<Longrightarrow> append_effect c ns w w'"
proof -
  have "uuid_in w' = uuid_in w \<and> (messages w' = messages w \<or> append_effect c ns w w')
    \<and> (r = Inr () \<longrightarrow> append_effect c ns w w')"
  proof (cases "ns = []")
    case True
    with assms show ?thesis by (auto simp: conv_AppendMessages_def append_effect_refl)
  next
    case False
    obtain r1 w1 where b: "pg_exec tx_begin w = (r1, w1)" by fastforce
    have bv: "msg_view w1 = msg_view w"
      using pg_exec_view [OF tx_begin_view, of w] b by simp
    show ?thesis
    proof (cases r1)
      case (Inl e)
      with assms b False bv show ?thesis by (auto simp: conv_AppendMessages_def msg_view_def)
    next
      case (Inr t)
      obtain base w2 where n: "now w1 = (base, w2)" by fastforce
      then have nv: "msg_view w2 = msg_view w"
        using bv conv_clock(1,3) [of w1] by (simp add: msg_view_def)
      obtain r3 w3 where l: "append_loop c base 0 ns w2 = (r3, w3)" by fastforce
      have u3: "uuid_in w3 = uuid_in w"
        using append_loop_uuid [of c base 0 ns w2] l nv by (simp add: msg_view_def)
      show ?thesis
      proof (cases r3)
        case (Inl e)
        with assms b False Inr n l u3 show ?thesis
          by (auto simp: conv_AppendMessages_def rollback_view)
      next
        case (Inr u)
        have t0: "(\<forall>d \<in> set (ticks w). 0 \<le> d) \<longrightarrow> clock w div 1000 \<le> base div 1000"
          using begin_Inr(2) [of w t w1] b \<open>r1 = Inr t\<close> n by (auto intro: zdiv_mono1)
        from append_loop_Inr [of c base 0 ns w2 u w3] l Inr nv obtain rs where
          "messages w3 = messages w @ rs" "batch_rows (uuid_in w) c (base div 1000) ns rs"
          by (auto simp: msg_view_def)
        with t0 have eff: "append_effect c ns w v" if "messages v = messages w3" for v
          using that unfolding append_effect_def by auto
        obtain r4 w4 where bu: "pg_exec (bump_updated_at c t) w3 = (r4, w4)" by fastforce
        have v4: "messages w4 = messages w3" "uuid_in w4 = uuid_in w"
          using bump_exec_view [of c t w3] bu u3 by (simp_all add: msg_view_def)
        show ?thesis
        proof (cases "\<exists>m. r4 = Inr (Suc m)")
          case False
          with assms b n l bu \<open>ns \<noteq> []\<close> \<open>r1 = Inr t\<close> \<open>r3 = Inr u\<close> v4 show ?thesis
            by (cases r4) (auto simp: conv_AppendMessages_def rollback_view gr0_conv_Suc split: if_splits)
        next
          case True
          with assms b n l bu \<open>ns \<noteq> []\<close> \<open>r1 = Inr t\<close> \<open>r3 = Inr u\<close>
          have w': "w' = snd (tx_commit w w4)" "r = Inr () \<Longrightarrow> fst (tx_commit w w4) = Inr ()"
            by (auto simp: conv_AppendMessages_def split: prod.splits sum.splits)
          from commit_view [of w w4] w' v4 eff [of w'] show ?thesis by auto
        qed
      qed
    qed
  qed
  then show "uuid_in w' = uuid_in w" "messages w' = messages w \<or> append_effect c ns w w'"
    "r = Inr () \<Longrightarrow> append_effect c ns w w'" by auto
qed

lemma batch_sorted:
  assumes "batch_rows f c t ns rs" shows "sorted (map (\<lambda>m. (sm_CreatedAt m, sm_ID m)) rs)"
proof -
  have t: "map sm_CreatedAt rs = map (\<lambda>k. t + int k) [0..<length ns]"
    and len: "length rs = length ns"
    using assms by (auto simp: batch_rows_def dest: arg_cong [where f = length])
  have "sm_CreatedAt (rs ! i) = t + int i" if "i < length rs" for i
    using arg_cong [OF t, of "\<lambda>xs. xs ! i"] that len by simp
  then show ?thesis
    by (auto simp: sorted_iff_nth_mono_less less_eq_prod_def)
qed

text \<open>On a settled session an append's batch comes after everything that was there.\<close>

lemma append_effect_history:
  assumes "append_effect c ns w w'" "uuid_in w' = uuid_in w" "settled w c"
  shows "map sm_pair (session_history w' c) = map sm_pair (session_history w c) @ map nm_pair ns"
proof -
  obtain rs t where rs: "messages w' = messages w @ rs" "batch_rows (uuid_in w) c t ns rs"
    and t: "clock w div 1000 \<le> t"
    using assms(1,3) by (auto simp: append_effect_def settled_def)
  show ?thesis
  proof (cases "uuid_in w c")
    case None
    with rs(2) have "rs = []" "ns = []" by (cases rs; auto simp: batch_rows_def)+
    with rs assms(2) show ?thesis by (simp add: session_history_def None)
  next
    case (Some j)
    with rs(2) have "messages_of j rs = rs"
      by (auto simp: batch_rows_def messages_of_def intro!: filter_True)
    moreover have "\<forall>m \<in> set rs. t \<le> sm_CreatedAt m"
    proof
      fix m assume "m \<in> set rs"
      then have "sm_CreatedAt m \<in> set (map sm_CreatedAt rs)" by simp
      then have "sm_CreatedAt m \<in> set (map (\<lambda>k. t + int k) [0..<length ns])"
        using rs(2) unfolding batch_rows_def by metis
      then show "t \<le> sm_CreatedAt m" by auto
    qed
    moreover have "\<forall>m \<in> set (messages_of j (messages w)). sm_CreatedAt m < t"
      using assms(3) t by (fastforce simp: settled_def session_history_def Some oldest_first_def)
    ultimately have "oldest_first (messages_of j (messages w')) = oldest_first (messages_of j (messages w)) @ rs"
      unfolding rs(1) oldest_first_def messages_of_def filter_append
      by (subst sort_key_append_above)
        (auto simp: less_prod_def messages_of_def batch_sorted [OF rs(2)] intro: order.strict_trans2)
    then show ?thesis using rs(2) assms(2) by (simp add: session_history_def Some batch_rows_def)
  qed
qed

text \<open>The fields an operation may change: everything else of the world it leaves alone.\<close>

definition conv_touches :: "'a conv_db_scheme \<Rightarrow> 'a conv_db_scheme \<Rightarrow> bool" where
  "conv_touches w w' \<longleftrightarrow> w' = w\<lparr>clock := clock w', ticks := ticks w', outcomes := outcomes w',
     uuid_next := uuid_next w', conversations := conversations w', messages := messages w'\<rparr>"

lemma conv_touchesI:
  "w' = w\<lparr>clock := t, ticks := ts, outcomes := os, uuid_next := n, conversations := c, messages := m\<rparr> \<Longrightarrow>
   conv_touches w w'"
  by (simp add: conv_touches_def)

lemma conv_touches_refl [simp]: "conv_touches w w"
  by (simp add: conv_touches_def)

lemma conv_touches_trans: "conv_touches a b \<Longrightarrow> conv_touches b c \<Longrightarrow> conv_touches a c"
proof -
  assume ab: "conv_touches a b" and bc: "conv_touches b c"
  have "c = b\<lparr>clock := clock c, ticks := ticks c, outcomes := outcomes c, uuid_next := uuid_next c,
      conversations := conversations c, messages := messages c\<rparr>"
    using bc by (simp add: conv_touches_def)
  also have "\<dots> = a\<lparr>clock := clock c, ticks := ticks c, outcomes := outcomes c, uuid_next := uuid_next c,
      conversations := conversations c, messages := messages c\<rparr>"
    by (subst ab [unfolded conv_touches_def]) simp
  finally show ?thesis by (rule conv_touchesI)
qed

lemma conv_touches_steps:
  "conv_touches w (w\<lparr>outcomes := os\<rparr>)" "conv_touches w (w\<lparr>clock := t, ticks := ts\<rparr>)"
  "conv_touches w (w\<lparr>uuid_next := n\<rparr>)" "conv_touches w (w\<lparr>conversations := c\<rparr>)" "conv_touches w (w\<lparr>messages := m\<rparr>)"
  "conv_touches w (w\<lparr>conversations := c, messages := m\<rparr>)"
  "conv_touches w (w\<lparr>uuid_next := n, messages := m\<rparr>)"
  "conv_touches w (w\<lparr>uuid_next := n, clock := t, ticks := ts\<rparr>)"
  "conv_touches w (w\<lparr>uuid_next := n, clock := t, ticks := ts, conversations := c\<rparr>)"
  by (simp_all add: conv_touches_def)

lemma pg_exec_touches:
  assumes "\<And>w. conv_touches w (snd (stmt w))"
  shows "conv_touches w (snd (pg_exec stmt w))"
  by (cases stmt w rule: pg_exec_cases)
    (use assms conv_touches_steps(1) conv_touches_trans in \<open>auto, blast+\<close>)

lemma statement_touches:
  "conv_touches w (snd (insert_conversation a m w))" "conv_touches w (snd (select_conversation a s w))"
  "conv_touches w (snd (select_history c w))" "conv_touches w (snd (insert_message c nm ts w))"
  "conv_touches w (snd (tx_begin w))" "conv_touches w (snd (bump_updated_at c t w))"
  by (auto simp: insert_conversation_def select_conversation_def select_history_def insert_message_def
      tx_begin_def bump_updated_at_def gen_uuid_def pg_now_def now_def Let_def conv_touches_steps
      split: option.split)

lemma append_loop_touches: "conv_touches w (snd (append_loop c base i ns w))"
proof (induction ns arbitrary: i w)
  case (Cons n ns)
  have "conv_touches w (snd (pg_exec (insert_message c n (base + int i * 1000)) w))"
    by (rule pg_exec_touches) (rule statement_touches)
  with Cons.IH show ?case
    by (auto split: prod.split sum.split intro: conv_touches_trans)
qed simp

lemma finish_touches:
  "conv_touches w (tx_rollback w0 w)" "conv_touches w (snd (tx_commit w0 w))"
  by (auto simp: tx_commit_def tx_rollback_def next_outcome_def conv_touches_def
      split: outcome.splits list.splits prod.splits)

lemma Append_touches: "conv_touches w (snd (conv_AppendMessages c ns w))"
proof (cases "ns = []")
  case False
  obtain r1 w1 where b: "pg_exec tx_begin w = (r1, w1)" by fastforce
  have t1: "conv_touches w w1" using pg_exec_touches [OF statement_touches(5), of w] b by simp
  obtain base w2 where n: "now w1 = (base, w2)" by fastforce
  have t2: "conv_touches w w2"
    using n by (auto simp: now_def Let_def intro: conv_touches_trans [OF t1] conv_touches_steps)
  obtain r3 w3 where l: "append_loop c base 0 ns w2 = (r3, w3)" by fastforce
  have t3: "conv_touches w w3" using append_loop_touches [of w2 c base 0 ns] t2 l by (auto intro: conv_touches_trans)
  have t4: "conv_touches w (snd (pg_exec (bump_updated_at c t) w3))" for t
    using t3 pg_exec_touches [of "bump_updated_at c t" w3, OF statement_touches(6)] by (rule conv_touches_trans)
  note t5 = conv_touches_trans [OF t3 finish_touches(1)] conv_touches_trans [OF t4 finish_touches(1)]
    conv_touches_trans [OF t4 finish_touches(2)]
  show ?thesis
    using t1 t5 by (auto simp: conv_AppendMessages_def False b n l split: sum.split prod.split) (metis snd_conv)+
qed (simp add: conv_AppendMessages_def)

lemma method_touches:
  "conv_touches w (snd (conv_CreateConversation a m w))" "conv_touches w (snd (conv_GetConversation a s w))"
  "conv_touches w (snd (conv_LoadHistory c w))"
  unfolding method_world by (rule pg_exec_touches statement_touches)+

text \<open>Who owns a session never changes.\<close>

definition owner_view :: "'a conv_db_scheme \<Rightarrow> (string \<times> string) list \<times> (string \<Rightarrow> string option)" where
  "owner_view w = (map (\<lambda>r. (cr_id r, cr_api_key_id r)) (conversations w), uuid_in w)"

lemma owner_view_eqI:
  "conversations w' = conversations w \<Longrightarrow> uuid_in w' = uuid_in w \<Longrightarrow> owner_view w' = owner_view w"
  by (simp add: owner_view_def)

lemma owns_session_view:
  "owns_session w a c \<longleftrightarrow> (\<exists>b. (c, b) \<in> set (fst (owner_view w)) \<and> snd (owner_view w) a = Some b)"
  by (auto simp: owns_session_def owner_view_def image_iff)

lemma owns_view: "owner_view w' = owner_view w \<Longrightarrow> owns_session w' = owns_session w"
  by (intro ext) (simp only: owns_session_view)

lemma pg_exec_owner:
  assumes "\<And>w. owner_view (snd (stmt w)) = owner_view w"
  shows "owner_view (snd (pg_exec stmt w)) = owner_view w"
  by (rule pg_exec_keeps) (simp add: owner_view_def, rule assms)

lemma statement_owner:
  "owner_view (snd (insert_message c n ts w)) = owner_view w" "owner_view (snd (bump_updated_at c t w)) = owner_view w"
  "owner_view (snd (tx_begin w)) = owner_view w" "owner_view (snd (select_conversation a s w)) = owner_view w"
  "owner_view (snd (select_history c w)) = owner_view w"
  by (auto simp: owner_view_def insert_message_def bump_updated_at_def tx_begin_def select_conversation_def
      select_history_def gen_uuid_def pg_now_def now_def Let_def comp_def split: option.split)

lemma append_loop_owner: "owner_view (snd (append_loop c base i ns w)) = owner_view w"
proof (induction ns arbitrary: i w)
  case (Cons n ns)
  have "owner_view (snd (pg_exec (insert_message c n (base + int i * 1000)) w)) = owner_view w"
    by (rule pg_exec_owner) (rule statement_owner)
  with Cons.IH show ?case by (auto split: prod.split sum.split)
qed simp

lemma finish_owner:
  "owner_view w = owner_view w0 \<Longrightarrow> owner_view (tx_rollback w0 w) = owner_view w0"
  "owner_view w = owner_view w0 \<Longrightarrow> owner_view (snd (tx_commit w0 w)) = owner_view w0"
  by (auto simp: tx_commit_def tx_rollback_def next_outcome_def owner_view_def split: outcome.splits list.splits prod.splits)

lemma Append_owner: "owner_view (snd (conv_AppendMessages c ns w)) = owner_view w"
proof (cases "ns = []")
  case False
  obtain r1 w1 where b: "pg_exec tx_begin w = (r1, w1)" by fastforce
  have o1: "owner_view w1 = owner_view w" using pg_exec_owner [OF statement_owner(3), of w] b by simp
  obtain base w2 where n: "now w1 = (base, w2)" by fastforce
  then have o2: "owner_view w2 = owner_view w"
    using conv_clock(2,3) [of w1] o1 by (simp add: owner_view_def)
  obtain r3 w3 where l: "append_loop c base 0 ns w2 = (r3, w3)" by fastforce
  then have o3: "owner_view w3 = owner_view w" using append_loop_owner [of c base 0 ns w2] o2 by simp
  have o4: "owner_view (snd (pg_exec (bump_updated_at c t) w3)) = owner_view w" for t
    using pg_exec_owner [of "bump_updated_at c t" w3, OF statement_owner(2)] o3 by simp
  show ?thesis
    using o1 finish_owner(1) [OF o3] finish_owner [OF o4]
    by (auto simp: conv_AppendMessages_def False b n l split: sum.split prod.split)
      (metis snd_conv)+
qed (simp add: conv_AppendMessages_def)

section \<open>The interface holds of the repository\<close>

lemma load_clock:
  "clock (snd (conv_LoadHistory c w)) = clock w" "ticks (snd (conv_LoadHistory c w)) = ticks w"
  unfolding method_world
  by (rule pg_exec_keeps; simp add: select_history_def split: option.split)+

lemma sm_pair_rows: "batch_rows f c t ns rs \<Longrightarrow> m \<in> set rs \<Longrightarrow> sm_pair m \<in> nm_pair ` set ns"
  unfolding batch_rows_def by (metis image_eqI list.set_map)

lemma history_effect_other:
  assumes "append_effect c ns w w'" "uuid_in w' = uuid_in w" "\<not> same_session w c d"
  shows "session_history w' d = session_history w d"
proof (cases "uuid_in w d")
  case (Some j)
  obtain rs t where rs: "messages w' = messages w @ rs" "batch_rows (uuid_in w) c t ns rs"
    using assms(1) by (auto simp: append_effect_def)
  have "messages_of j rs = []"
    using rs(2) assms(3) Some by (auto simp: batch_rows_def messages_of_def same_session_def filter_empty_conv)
  then show ?thesis by (simp add: session_history_def assms(2) Some rs(1) messages_of_def)
qed (simp add: session_history_def assms(2))

interpretation repo_conv: conv_repo repo_ConvRepo session_history same_session owns_session settled
proof
  fix a m s d f and c :: Conversation and ms ns e and x :: StoredMessage and w w' :: "'a conv_db_scheme"
  show "CreateConversation repo_ConvRepo a m w = (Inr c, w') \<Longrightarrow> owns_session w' a (cv_ID c) \<and> cv_Model c = m"
    by (simp add: repo_ConvRepo_def Create_Inr_conv)
  show "GetConversation repo_ConvRepo a s w = (Inr c, w') \<Longrightarrow> owns_session w a (cv_ID c)"
    by (auto simp: repo_ConvRepo_def owns_session_def scanConversation_def elim!: Get_Inr_conv)
  show "LoadHistory repo_ConvRepo d w = (Inr ms, w') \<Longrightarrow> ms = session_history w d"
    by (simp add: repo_ConvRepo_def Load_Inr)
  show "session_history (snd (CreateConversation repo_ConvRepo a m w)) = session_history w"
    "session_history (snd (GetConversation repo_ConvRepo a s w)) = session_history w"
    "session_history (snd (LoadHistory repo_ConvRepo d w)) = session_history w"
    by (simp_all add: repo_ConvRepo_def method_history)
  show "settled w d \<Longrightarrow> settled (snd (LoadHistory repo_ConvRepo d w)) d"
    by (simp add: repo_ConvRepo_def settled_def load_clock method_history)
  show "same_session (snd (LoadHistory repo_ConvRepo d w)) = same_session w"
    using method_view(3) [of d w] by (simp add: repo_ConvRepo_def same_session_def msg_view_def fun_eq_iff)
  obtain r v where eq: "conv_AppendMessages d ns w = (r, v)" by fastforce
  note A = Append_cases [OF eq]
  show "AppendMessages repo_ConvRepo d ns w = (Inr (), w') \<Longrightarrow> settled w d \<Longrightarrow>
      map sm_pair (session_history w' d) = map sm_pair (session_history w d) @ map nm_pair ns"
    using A(1,3) append_effect_history [of d ns w v] by (simp add: repo_ConvRepo_def eq)
  show "AppendMessages repo_ConvRepo d ns w = (Inl e, w') \<Longrightarrow> settled w d \<Longrightarrow>
      map sm_pair (session_history w' d) = map sm_pair (session_history w d)
      \<or> map sm_pair (session_history w' d) = map sm_pair (session_history w d) @ map nm_pair ns"
    using A(1,2) append_effect_history [of d ns w v] history_view [of v w]
    by (cases "messages v = messages w") (simp_all add: repo_ConvRepo_def eq msg_view_def)
  show "\<not> same_session w d f \<Longrightarrow> session_history (snd (AppendMessages repo_ConvRepo d ns w)) f = session_history w f"
    using A(1,2) history_effect_other [of d ns w v f] history_view [of v w]
    by (cases "messages v = messages w") (simp_all add: repo_ConvRepo_def eq msg_view_def)
  show "x \<in> set (session_history (snd (AppendMessages repo_ConvRepo d ns w)) f) \<Longrightarrow>
      x \<in> set (session_history w f) \<or> sm_pair x \<in> nm_pair ` set ns"
    using A(1,2) by (auto simp: repo_ConvRepo_def eq session_history_def oldest_first_def messages_of_def
        append_effect_def split: option.splits dest: sm_pair_rows)
qed

lemma repo_ConvRepo_simps [simp]:
  "LoadHistory repo_ConvRepo = conv_LoadHistory" "AppendMessages repo_ConvRepo = conv_AppendMessages"
  "CreateConversation repo_ConvRepo = conv_CreateConversation" "GetConversation repo_ConvRepo = conv_GetConversation"
  by (simp_all add: repo_ConvRepo_def)

end
