(* ===== verification/Gatewaycore.thy ===== *)
theory Gatewaycore
  imports Conversation
begin

text \<open>
  \<open>backend/internal/gatewaycore/gatewaycore.go\<close>: the transport-agnostic core both gateway
  paths use. The pure part (overlap, cap, assembly) is about lists of role/content pairs; the
  stateful part works over any \<open>ConvRepo\<close>, and what it guarantees is proved once inside the
  locale \<open>conv_repo\<close> and transferred to the repository through its interpretation.
\<close>

definition defaultMaxHistory :: int where "defaultMaxHistory = 40"

record Message =
  Role :: string
  Content :: string

record 'w Service =
  svc_repo :: "'w ConvRepo"
  svc_maxHistory :: int

definition NewService :: "'w ConvRepo \<Rightarrow> int \<Rightarrow> 'w Service" where
  "NewService repo maxHistoryMessages =
     \<lparr>svc_repo = repo, svc_maxHistory = (if maxHistoryMessages \<le> 0 then defaultMaxHistory else maxHistoryMessages)\<rparr>"

section \<open>Context assembly\<close>

definition toMessages :: "StoredMessage list \<Rightarrow> Message list" where
  "toMessages stored = map (\<lambda>m. \<lparr>Role = sm_Role m, Content = sm_Content m\<rparr>) stored"

text \<open>Lengths first, then every index in turn.\<close>

definition equalMessages :: "Message list \<Rightarrow> Message list \<Rightarrow> bool" where
  "equalMessages a b \<longleftrightarrow>
     (if length a \<noteq> length b then False else list_all (\<lambda>i. a ! i = b ! i) [0..<length a])"

text \<open>The loop of \<open>dropOverlap\<close>, from the longest possible overlap down to one message.\<close>

fun overlap_loop :: "Message list \<Rightarrow> Message list \<Rightarrow> nat \<Rightarrow> Message list" where
  "overlap_loop history incoming 0 = incoming"
| "overlap_loop history incoming (Suc k) =
     (if equalMessages (drop (length history - Suc k) history) (take (Suc k) incoming)
      then drop (Suc k) incoming
      else overlap_loop history incoming k)"

definition dropOverlap :: "Message list \<Rightarrow> Message list \<Rightarrow> Message list" where
  "dropOverlap history incoming =
     (let maxK = (if length incoming < length history then length incoming else length history)
      in overlap_loop history incoming maxK)"

definition capHistory :: "Message list \<Rightarrow> Message list \<Rightarrow> int \<Rightarrow> Message list" where
  "capHistory history incoming maxHistory =
     (let over = int (length history) + int (length incoming) - maxHistory
      in if over \<le> 0 then history
         else let over' = (if over > int (length history) then int (length history) else over)
              in drop (nat over') history)"

text \<open>\<open>AssembleContext\<close> after the history is loaded.\<close>

definition assemble :: "int \<Rightarrow> string \<Rightarrow> Message list \<Rightarrow> Message list \<Rightarrow> Message list" where
  "assemble maxHistory persona history incoming =
     (let incoming' = dropOverlap history incoming;
          history' = capHistory history incoming' maxHistory
      in (if persona \<noteq> [] then [\<lparr>Role = RoleSystem, Content = persona\<rparr>] else []) @ history' @ incoming')"

section \<open>The service\<close>

text \<open>The core's \<open>ErrNotFound\<close> is the repository's.\<close>

definition Resolve :: "'w Service \<Rightarrow> string \<Rightarrow> string \<Rightarrow> string \<Rightarrow> 'w \<Rightarrow> (conv_error, Conversation) result \<times> 'w" where
  "Resolve s apiKeyID sessionID model w =
     (if sessionID = [] then CreateConversation (svc_repo s) apiKeyID model w
      else case GetConversation (svc_repo s) apiKeyID sessionID w of
        (Inl e, w') \<Rightarrow>
          if e = conversation_ErrNotFound then (Inl conversation_ErrNotFound, w') else (Inl e, w')
      | (Inr conv, w') \<Rightarrow> (Inr conv, w'))"

definition AssembleContext :: "'w Service \<Rightarrow> string \<Rightarrow> Conversation \<Rightarrow> Message list \<Rightarrow> 'w
    \<Rightarrow> (conv_error, Message list) result \<times> 'w" where
  "AssembleContext s persona conv incoming w =
     (case LoadHistory (svc_repo s) (cv_ID conv) w of
        (Inl e, w') \<Rightarrow> (Inl e, w')
      | (Inr stored, w') \<Rightarrow> (Inr (assemble (svc_maxHistory s) persona (toMessages stored) incoming), w'))"

definition toNewMessage :: "Message \<Rightarrow> NewMessage" where
  "toNewMessage m = \<lparr>nm_Role = Role m, nm_Content = Content m, nm_TokenCount = None\<rparr>"

definition PersistExchange :: "'w Service \<Rightarrow> Conversation \<Rightarrow> Message list \<Rightarrow> Message \<Rightarrow> 'w
    \<Rightarrow> (conv_error, unit) result \<times> 'w" where
  "PersistExchange s conv userMsgs assistant w =
     (case LoadHistory (svc_repo s) (cv_ID conv) w of
        (Inl e, w') \<Rightarrow> (Inl e, w')
      | (Inr stored, w') \<Rightarrow>
          (let userMsgs' = dropOverlap (toMessages stored) userMsgs
           in AppendMessages (svc_repo s) (cv_ID conv) (map toNewMessage userMsgs' @ [toNewMessage assistant]) w'))"

section \<open>Overlap\<close>

text \<open>The specification: \<open>k\<close> messages overlap when history ends with the first \<open>k\<close> incoming.\<close>

definition overlaps :: "Message list \<Rightarrow> Message list \<Rightarrow> nat \<Rightarrow> bool" where
  "overlaps history incoming k \<longleftrightarrow> k \<le> length incoming \<and> suffix (take k incoming) history"

lemma equalMessages_iff [simp]: "equalMessages a b \<longleftrightarrow> a = b"
  unfolding equalMessages_def list_all_iff by (auto intro: nth_equalityI)

lemma overlaps_drop:
  assumes "k \<le> length history" "k \<le> length incoming"
  shows "drop (length history - k) history = take k incoming \<longleftrightarrow> overlaps history incoming k"
proof
  assume "drop (length history - k) history = take k incoming"
  then show "overlaps history incoming k"
    unfolding overlaps_def using assms(2) suffix_drop [of "length history - k" history] by simp
next
  assume "overlaps history incoming k"
  then obtain zs where "history = zs @ take k incoming" by (auto simp: overlaps_def suffix_def)
  with assms show "drop (length history - k) history = take k incoming" by (simp add: min_def)
qed

lemma overlap_loop_spec:
  assumes "m \<le> length history" "m \<le> length incoming"
  shows "\<exists>k \<le> m. overlap_loop history incoming m = drop k incoming \<and> overlaps history incoming k
     \<and> (\<forall>j. k < j \<and> j \<le> m \<longrightarrow> \<not> overlaps history incoming j)"
  using assms
proof (induction m)
  case 0
  then show ?case by (auto simp: overlaps_def)
next
  case (Suc m)
  show ?case
  proof (cases "overlaps history incoming (Suc m)")
    case True
    with Suc.prems overlaps_drop show ?thesis by (intro exI [of _ "Suc m"]) auto
  next
    case False
    from Suc obtain k where k: "k \<le> m" "overlap_loop history incoming m = drop k incoming"
      "overlaps history incoming k" "\<forall>j. k < j \<and> j \<le> m \<longrightarrow> \<not> overlaps history incoming j" by auto
    with False Suc.prems overlaps_drop [of "Suc m"] show ?thesis
      by (intro exI [of _ k]) (auto simp: le_Suc_eq)
  qed
qed

lemma overlaps_bound: "overlaps history incoming k \<Longrightarrow> k \<le> length history \<and> k \<le> length incoming"
  by (auto simp: overlaps_def dest: suffix_length_le)

text \<open>\<open>dropOverlap\<close> drops the longest overlap.\<close>

lemma dropOverlap_longest:
  obtains k where "dropOverlap history incoming = drop k incoming" "overlaps history incoming k"
    "\<And>j. overlaps history incoming j \<Longrightarrow> j \<le> k"
proof -
  let ?m = "min (length incoming) (length history)"
  obtain k where k: "k \<le> ?m" "overlap_loop history incoming ?m = drop k incoming"
    "overlaps history incoming k" "\<forall>j. k < j \<and> j \<le> ?m \<longrightarrow> \<not> overlaps history incoming j"
    using overlap_loop_spec [of ?m history incoming] by auto
  have "dropOverlap history incoming = overlap_loop history incoming ?m"
    by (simp add: dropOverlap_def min_def)
  moreover have "j \<le> k" if "overlaps history incoming j" for j
    using k(4) that overlaps_bound [OF that] by (meson min.boundedI not_le_imp_less)
  ultimately show thesis using that k by metis
qed

lemma dropOverlap_suffix: "suffix (dropOverlap history incoming) incoming"
  by (rule dropOverlap_longest [of history incoming]) (simp add: suffix_drop)

lemma set_dropOverlap: "set (dropOverlap history incoming) \<subseteq> set incoming"
  using dropOverlap_suffix by (rule set_mono_suffix)

text \<open>Dropping again after the rest was stored leaves the same batch when there is no shift.\<close>

lemma dropOverlap_Nil [simp]: "dropOverlap [] incoming = incoming" "dropOverlap history [] = []"
  by (simp_all add: dropOverlap_def)

lemma dropOverlap_echo [simp]: "suffix incoming history \<Longrightarrow> dropOverlap history incoming = []"
proof -
  assume "suffix incoming history"
  then have "overlaps history incoming (length incoming)" by (simp add: overlaps_def)
  then show ?thesis
    by (rule_tac history = history and incoming = incoming in dropOverlap_longest)
      (fastforce dest: overlaps_bound)
qed

section \<open>Cap\<close>

lemma capHistory_last_n:
  "capHistory history incoming maxHistory = last_n (nat (maxHistory - int (length incoming))) history"
proof -
  have "nat (int a + int b - c) = a - nat (c - int b)" if "\<not> c < int b" for a b c
    using that by arith
  then show ?thesis by (auto simp: capHistory_def last_n_def Let_def not_less)
qed

lemma capHistory_suffix: "suffix (capHistory history incoming maxHistory) history"
  by (simp add: capHistory_last_n last_n_def suffix_drop)

lemma length_assemble:
  assumes "0 \<le> maxHistory"
  shows "int (length (assemble maxHistory persona history incoming)) \<le>
     max maxHistory (int (length (dropOverlap history incoming))) + (if persona \<noteq> [] then 1 else 0)"
  using assms by (auto simp: assemble_def capHistory_last_n Let_def)

text \<open>
  What goes upstream after the persona: the last messages of the conversation with the turn
  appended, at least the whole turn.
\<close>

definition persona_messages :: "string \<Rightarrow> Message list" where
  "persona_messages persona = (if persona \<noteq> [] then [\<lparr>Role = RoleSystem, Content = persona\<rparr>] else [])"

lemma assemble_last_n:
  "assemble maxHistory persona history incoming = persona_messages persona @
     last_n (max (nat maxHistory) (length (dropOverlap history incoming))) (history @ dropOverlap history incoming)"
proof -
  have "last_n (nat (m - int (length ys))) xs @ ys = last_n (max (nat m) (length ys)) (xs @ ys)"
    for m and xs ys :: "Message list"
  proof (cases "m \<le> int (length ys)")
    case False
    then have "nat (m - int (length ys)) = nat m - length ys" "length ys \<le> nat m" by arith+
    then show ?thesis by (simp add: last_n_def max_def)
  qed (simp add: max_def last_n_def nat_le_iff)
  then show ?thesis by (simp add: assemble_def persona_messages_def capHistory_last_n Let_def)
qed

section \<open>The service over any repository\<close>

definition msg_pair :: "Message \<Rightarrow> string \<times> string" where
  "msg_pair m = (Role m, Content m)"

lemma nm_pair_toNewMessage [simp]: "nm_pair (toNewMessage m) = msg_pair m"
  by (simp add: nm_pair_def toNewMessage_def msg_pair_def)

lemma msg_pair_inj [simp]: "msg_pair a = msg_pair b \<longleftrightarrow> a = b"
  by (cases a; cases b) (simp add: msg_pair_def)

lemma toMessages_pair: "map msg_pair (toMessages ms) = map sm_pair ms"
  by (simp add: toMessages_def msg_pair_def sm_pair_def)

lemma toMessages_eqI: "map sm_pair ms = map msg_pair xs \<Longrightarrow> toMessages ms = xs"
  unfolding toMessages_pair [symmetric] by (subst (asm) inj_map_eq_map) (simp_all add: inj_on_def)

text \<open>Roles a session may hold.\<close>

definition turn_role :: "string \<Rightarrow> bool" where
  "turn_role r \<longleftrightarrow> r = RoleUser \<or> r = RoleAssistant"

context conv_repo
begin

lemma Resolve_owned:
  "Resolve (NewService repo n) a s m w = (Inr c, w') \<Longrightarrow> s = [] \<and> owns w' a (cv_ID c) \<or> s \<noteq> [] \<and> owns w a (cv_ID c)"
  by (auto simp: Resolve_def NewService_def create_new dest: get_owned split: if_splits prod.splits sum.splits)

lemma Resolve_hist: "hist (snd (Resolve (NewService repo n) a s m w)) = hist w"
proof -
  have "snd (Resolve (NewService repo n) a s m w) =
      snd (if s = [] then (Inl conversation_ErrNotFound, snd (CreateConversation repo a m w))
           else (Inl conversation_ErrNotFound, snd (GetConversation repo a s w)))"
    by (auto simp: Resolve_def NewService_def split: prod.splits sum.splits)
  then show ?thesis by (simp add: create_keeps get_keeps split: if_splits)
qed

lemma AssembleContext_hist:
  "AssembleContext s p c incoming w = (r, w') \<Longrightarrow> svc_repo s = repo \<Longrightarrow> hist w' = hist w"
  using load_keeps [of "cv_ID c" w] by (auto simp: AssembleContext_def split: prod.splits sum.splits)

lemma AssembleContext_result:
  "AssembleContext s p c incoming w = (Inr out, w') \<Longrightarrow> svc_repo s = repo \<Longrightarrow>
   out = assemble (svc_maxHistory s) p (toMessages (hist w (cv_ID c))) incoming"
  using load_hist [of "cv_ID c" w] by (auto simp: AssembleContext_def split: prod.splits sum.splits)

lemma PersistExchange_Inr:
  assumes "PersistExchange s c us a w = (Inr (), w')" "svc_repo s = repo" "settled w (cv_ID c)"
  shows "toMessages (hist w' (cv_ID c)) =
    toMessages (hist w (cv_ID c)) @ dropOverlap (toMessages (hist w (cv_ID c))) us @ [a]"
proof -
  from assms(1,2) obtain ms w1 where l: "LoadHistory repo (cv_ID c) w = (Inr ms, w1)"
    and ap: "AppendMessages repo (cv_ID c) (map toNewMessage (dropOverlap (toMessages ms) us) @ [toNewMessage a]) w1 = (Inr (), w')"
    by (auto simp: PersistExchange_def Let_def split: prod.splits sum.splits)
  have h: "ms = hist w (cv_ID c)" "hist w1 = hist w" "settled w1 (cv_ID c)"
    using load_hist [OF l] load_keeps [of "cv_ID c" w] load_settled [OF assms(3)] by (simp_all add: l)
  show ?thesis
    by (rule toMessages_eqI, subst append_ok [OF ap h(3)]) (simp add: h comp_def toMessages_pair)
qed

lemma PersistExchange_atomic:
  assumes "PersistExchange s c us a w = (Inl e, w')" "svc_repo s = repo" "settled w (cv_ID c)"
  shows "toMessages (hist w' (cv_ID c)) = toMessages (hist w (cv_ID c)) \<or>
    toMessages (hist w' (cv_ID c)) =
      toMessages (hist w (cv_ID c)) @ dropOverlap (toMessages (hist w (cv_ID c))) us @ [a]"
proof -
  obtain r1 w1 where l: "LoadHistory repo (cv_ID c) w = (r1, w1)" by fastforce
  have h: "hist w1 = hist w" "settled w1 (cv_ID c)"
    using load_keeps [of "cv_ID c" w] load_settled [OF assms(3)] by (simp_all add: l)
  show ?thesis
  proof (cases r1)
    case (Inl e')
    then have "w' = w1" using assms(1,2) l by (simp add: PersistExchange_def)
    then show ?thesis by (simp add: h)
  next
    case (Inr ms)
    then have ap: "AppendMessages repo (cv_ID c) (map toNewMessage (dropOverlap (toMessages ms) us) @ [toNewMessage a]) w1 = (Inl e, w')"
      using assms(1,2) l by (simp add: PersistExchange_def Let_def)
    have "ms = hist w (cv_ID c)" using load_hist l Inr by simp
    with append_atomic [OF ap h(2)] show ?thesis
      by (auto simp: h comp_def toMessages_pair intro!: toMessages_eqI)
  qed
qed

lemma PersistExchange_other:
  assumes "svc_repo s = repo" "\<not> same w (cv_ID c) d"
  shows "hist (snd (PersistExchange s c us a w)) d = hist w d"
proof -
  obtain r1 w1 where l: "LoadHistory repo (cv_ID c) w = (r1, w1)" by fastforce
  have h: "hist w1 = hist w" "same w1 = same w"
    using load_keeps [of "cv_ID c" w] load_same [of "cv_ID c" w] by (simp_all add: l)
  show ?thesis
    using assms append_other [of w1 "cv_ID c" d] h l
    by (cases r1) (simp_all add: PersistExchange_def Let_def)
qed

lemma PersistExchange_roles:
  assumes "svc_repo s = repo" "\<forall>m \<in> set (hist w d). turn_role (sm_Role m)"
    and "\<forall>m \<in> set us. turn_role (Role m)" "turn_role (Role a)"
  shows "\<forall>m \<in> set (hist (snd (PersistExchange s c us a w)) d). turn_role (sm_Role m)"
proof -
  obtain r1 w1 where l: "LoadHistory repo (cv_ID c) w = (r1, w1)" by fastforce
  have h: "hist w1 = hist w" using load_keeps [of "cv_ID c" w] by (simp add: l)
  show ?thesis
  proof (cases r1)
    case (Inl e)
    with l assms(1,2) h show ?thesis by (simp add: PersistExchange_def)
  next
    case (Inr ms)
    let ?ns = "map toNewMessage (dropOverlap (toMessages ms) us) @ [toNewMessage a]"
    have new: "turn_role r" if "(r, t) \<in> nm_pair ` set ?ns" for r t
      using that assms(3,4) set_dropOverlap [of "toMessages ms" us] by (auto simp: msg_pair_def)
    have eq: "snd (PersistExchange s c us a w) = snd (AppendMessages repo (cv_ID c) ?ns w1)"
      using l assms(1) Inr by (simp add: PersistExchange_def Let_def)
    show ?thesis
      unfolding eq
    proof
      fix x assume "x \<in> set (hist (snd (AppendMessages repo (cv_ID c) ?ns w1)) d)"
      from append_roles [OF this] have "x \<in> set (hist w d) \<or> sm_pair x \<in> nm_pair ` set ?ns"
        unfolding h .
      then show "turn_role (sm_Role x)"
        using assms(2) new unfolding sm_pair_def by blast
    qed
  qed
qed

end

text \<open>The same facts of the service over the database.\<close>

lemmas db_Resolve_owned = repo_conv.Resolve_owned
lemmas db_Resolve_hist = repo_conv.Resolve_hist

end
