(* ===== verification/Exchange.thy ===== *)
theory Exchange
  imports Gatewaycore
begin

text \<open>
  What it means that an exchange is in the database: its rows, whatever the clock did, and what
  the session holds when it is read back. Both gateway paths store through the one operation
  \<open>PersistExchange\<close>; what it does to the tables is proved here once.
\<close>

section \<open>Reading back\<close>

text \<open>A stable sort keeps the order of every part that is in order already.\<close>

lemma subseq_keys: "subseq xs ys \<Longrightarrow> \<forall>z \<in> set ys. P z \<Longrightarrow> \<forall>z \<in> set xs. P z"
  by (blast dest: list_emb_set)

lemma insort_below: "\<forall>z \<in> set xs. f x \<le> f z \<Longrightarrow> insort_key f x xs = x # xs"
  by (cases xs) auto

lemma subseq_insort: "subseq xs ys \<Longrightarrow> subseq xs (insort_key f x ys)"
proof (induction xs ys rule: list_emb.induct)
  case (list_emb_Cons xs ys y)
  then show ?case by (auto intro: list_emb.intros)
next
  case (list_emb_Cons2 y z xs ys)
  then show ?case by (auto intro: list_emb.intros)
qed simp

lemma subseq_sort_right: "sorted (map f ys) \<Longrightarrow> subseq ys (sort_key f (xs @ ys))"
  by (induction xs) (auto simp: sort_key_id_if_sorted intro: subseq_insort)

lemma subseq_insort_both: "subseq xs ys \<Longrightarrow> sorted (map f ys) \<Longrightarrow> subseq (insort_key f x xs) (insort_key f x ys)"
proof (induction xs ys rule: list_emb.induct)
  case (list_emb_Nil ys)
  then show ?case by (simp add: subseq_singleton_left set_insort_key)
next
  case (list_emb_Cons xs ys y)
  show ?case
  proof (cases "f x \<le> f y")
    case True
    have "\<forall>z \<in> set ys. f y \<le> f z" using list_emb_Cons.prems by simp
    with True have "\<forall>z \<in> set ys. f x \<le> f z" by (blast intro: order_trans)
    then have "insort_key f x xs = x # xs"
      by (intro insort_below subseq_keys [OF list_emb_Cons.hyps])
    then show ?thesis using True list_emb_Cons.hyps by auto
  next
    case False
    with list_emb_Cons show ?thesis by auto
  qed
next
  case (list_emb_Cons2 y z xs ys)
  then show ?case by auto
qed

lemma subseq_sort_left: "subseq (sort_key f xs) (sort_key f (xs @ ys))"
  by (induction xs) (auto intro: subseq_insort_both)

section \<open>A stored exchange\<close>

text \<open>
  The messages \<open>new\<close> were stored in session \<open>c\<close>: the table grew by one row for each, in order,
  dated a microsecond apart, and by nothing else. Read back, the session has its old history and
  the new rows, each in the old order, and nothing else; the new ones are the end of it when the
  clock was past every message of the session.
\<close>

definition exchange_stored :: "'a conv_db_scheme \<Rightarrow> 'a conv_db_scheme \<Rightarrow> string \<Rightarrow> Message list \<Rightarrow> bool" where
  "exchange_stored w w' c new \<longleftrightarrow>
     (\<exists>rs t. messages w' = messages w @ rs \<and> toMessages rs = new
        \<and> (\<forall>m \<in> set rs. uuid_in w c = Some (sm_ConversationID m))
        \<and> map sm_CreatedAt rs = map (\<lambda>k. t + int k) [0..<length new]
        \<and> subseq (session_history w c) (session_history w' c) \<and> subseq rs (session_history w' c)
        \<and> length (session_history w' c) = length (session_history w c) + length rs)
     \<and> (settled w c \<longrightarrow> toMessages (session_history w' c) = toMessages (session_history w c) @ new)"

lemma exchange_stored_grows: "exchange_stored w w' c new \<Longrightarrow> \<exists>rs. messages w' = messages w @ rs \<and> toMessages rs = new"
  by (auto simp: exchange_stored_def)

lemma exchange_stored_settled:
  "exchange_stored w w' c new \<Longrightarrow> settled w c \<Longrightarrow> toMessages (session_history w' c) = toMessages (session_history w c) @ new"
  by (simp add: exchange_stored_def)

text \<open>It depends on the tables, the clock and the ids only.\<close>

lemma settled_cong:
  "msg_view v = msg_view w \<Longrightarrow> clock v = clock w \<Longrightarrow> ticks v = ticks w \<Longrightarrow> settled v = settled w"
  by (intro ext) (simp add: settled_def history_view [of v w])

lemma exchange_stored_cong:
  assumes "msg_view v = msg_view w" "clock v = clock w" "ticks v = ticks w" "msg_view v' = msg_view w'"
  shows "exchange_stored v v' c new \<longleftrightarrow> exchange_stored w w' c new"
  using settled_cong [OF assms(1-3)] history_view [OF assms(1)] history_view [OF assms(4)] assms(1,4)
  by (simp add: exchange_stored_def msg_view_def)

lemma batch_history:
  assumes "messages w' = messages w @ rs" "batch_rows (uuid_in w) c t ns rs" "uuid_in w' = uuid_in w"
  shows "subseq (session_history w c) (session_history w' c)" "subseq rs (session_history w' c)"
    "length (session_history w' c) = length (session_history w c) + length rs"
proof -
  have "rs = []" if "uuid_in w c = None"
    using assms(2) that by (cases rs) (auto simp: batch_rows_def)
  moreover have "messages_of j rs = rs" if "uuid_in w c = Some j" for j
    using assms(2) that by (auto simp: batch_rows_def messages_of_def intro!: filter_True)
  ultimately show "subseq (session_history w c) (session_history w' c)" "subseq rs (session_history w' c)"
    "length (session_history w' c) = length (session_history w c) + length rs"
    using subseq_sort_left subseq_sort_right [OF batch_sorted [OF assms(2)]] assms(1,3)
    by (auto simp: session_history_def oldest_first_def messages_of_def split: option.split)
qed

lemma append_effect_stored:
  assumes "append_effect c (map toNewMessage new) w w'" "uuid_in w' = uuid_in w"
  shows "exchange_stored w w' c new"
proof -
  obtain rs t where rs: "messages w' = messages w @ rs" "batch_rows (uuid_in w) c t (map toNewMessage new) rs"
    using assms(1) by (auto simp: append_effect_def)
  have "toMessages rs = new"
    using rs(2) by (intro toMessages_eqI) (simp add: batch_rows_def comp_def)
  moreover have "toMessages (session_history w' c) = toMessages (session_history w c) @ new" if "settled w c"
    using append_effect_history [OF assms that] by (intro toMessages_eqI) (simp add: comp_def toMessages_pair)
  ultimately show ?thesis
    unfolding exchange_stored_def using rs batch_history [OF rs assms(2)] by (auto simp: batch_rows_def)
qed

text \<open>The exchange of a turn: the turn less what the session ends with already, and the reply.\<close>

definition exchange_of :: "'a conv_db_scheme \<Rightarrow> string \<Rightarrow> Message list \<Rightarrow> Message \<Rightarrow> Message list" where
  "exchange_of w c us a = dropOverlap (toMessages (session_history w c)) us @ [a]"

lemma exchange_of_cong: "msg_view v = msg_view w \<Longrightarrow> exchange_of v = exchange_of w"
  by (intro ext) (simp add: exchange_of_def history_view [of v w])

lemma PersistExchange_stored:
  fixes w :: "'a conv_db_scheme"
  assumes "PersistExchange (NewService repo_ConvRepo n) c us a w = (r, w')"
  shows "if r = Inr () then exchange_stored w w' (cv_ID c) (exchange_of w (cv_ID c) us a)
    else messages w' = messages w \<or> exchange_stored w w' (cv_ID c) (exchange_of w (cv_ID c) us a)"
proof -
  have repo: "svc_repo (NewService repo_ConvRepo n) = (repo_ConvRepo :: 'a conv_db_scheme ConvRepo)"
    by (simp add: NewService_def)
  obtain x w1 where l: "conv_LoadHistory (cv_ID c) w = (x, w1)" by fastforce
  have v: "msg_view w1 = msg_view w" "clock w1 = clock w" "ticks w1 = ticks w"
    using method_view(3) [of "cv_ID c" w] load_clock [of "cv_ID c" w] l by simp_all
  show ?thesis
  proof (cases x)
    case (Inl e)
    then show ?thesis using assms l repo v(1) by (auto simp: PersistExchange_def msg_view_def)
  next
    case (Inr ms)
    have ms: "ms = session_history w (cv_ID c)" using Load_Inr [OF l [unfolded Inr]] .
    then have ap: "conv_AppendMessages (cv_ID c) (map toNewMessage (exchange_of w (cv_ID c) us a)) w1 = (r, w')"
      using assms l repo Inr by (simp add: PersistExchange_def Let_def exchange_of_def)
    note A = Append_cases [OF ap]
    have "append_effect (cv_ID c) (map toNewMessage new) w1 w' \<Longrightarrow> exchange_stored w w' (cv_ID c) new" for new
      using append_effect_stored [OF _ A(1)] exchange_stored_cong [OF v refl] by blast
    then show ?thesis using A(2,3) v(1) by (auto simp: msg_view_def)
  qed
qed

end
