(* ===== verification/Usage.thy ===== *)
theory Usage
  imports Conversation
begin

text \<open>
  \<open>backend/internal/usage/usage.go\<close>: the audit rows of migration 20260606000005 and the
  asynchronous recorder. A detached goroutine is an entry of \<open>tasks\<close>: spawning appends it,
  \<open>run_task\<close> is what the goroutine does whenever the scheduler lets it run. The two kinds of
  goroutine the gateway spawns are this one and the last-use update of gateway/auth.go.
\<close>

record UsageRecord =
  ur_APIKeyID :: string
  ur_ConversationID :: string
  ur_Model :: string
  ur_Stream :: bool
  ur_PromptMsgCount :: int
  ur_PromptTokenCount :: "int option"
  ur_CompletionTokenCount :: "int option"
  ur_UpstreamStatus :: "int option"
  ur_Outcome :: string
  ur_LatencyMS :: int

record usage_row =
  us_id :: string
  us_api_key_id :: string
  us_conversation_id :: "string option"
  us_model :: string
  us_stream :: bool
  us_prompt_msg_count :: int
  us_prompt_token_count :: "int option"
  us_completion_token_count :: "int option"
  us_upstream_status :: "int option"
  us_outcome :: string
  us_latency_ms :: int
  us_created_at :: int

datatype task = TaskTouch string | TaskUsage Logger UsageRecord

record usage_db = conv_db +
  gateway_usage :: "usage_row list"
  tasks :: "task list"

type_synonym 'w Recorder = "UsageRecord \<Rightarrow> 'w \<Rightarrow> (pgerr, unit) result \<times> 'w"

text \<open>The INSERT: \<open>NULLIF($2, '')::uuid\<close>, counts in 32-bit columns, two foreign keys.\<close>

definition insert_usage :: "UsageRecord \<Rightarrow> 'a usage_db_scheme \<Rightarrow> (pgerr, unit) result \<times> 'a usage_db_scheme" where
  "insert_usage r w =
     (if \<not> (in_int32 (ur_PromptMsgCount r) \<and> opt_ok in_int32 (ur_PromptTokenCount r)
            \<and> opt_ok in_int32 (ur_CompletionTokenCount r) \<and> opt_ok in_int32 (ur_UpstreamStatus r)
            \<and> in_int32 (ur_LatencyMS r)) then (Inl ConnErr, w)
      else if \<not> (text_ok w (ur_ConversationID r) \<and> text_ok w (ur_Model r) \<and> text_ok w (ur_Outcome r))
      then (Inl bad_encoding, w)
      else case (uuid_in w (ur_APIKeyID r),
                 if ur_ConversationID r = [] then Some None
                 else map_option Some (uuid_in w (ur_ConversationID r))) of
        (Some a, Some c) \<Rightarrow>
          (case gen_uuid w of (i, w1) \<Rightarrow> (case pg_now w1 of (t, w2) \<Rightarrow>
             if list_ex (\<lambda>u. us_id u = i) (gateway_usage w2) then (Inl unique_violation, w2)
             else if \<not> list_ex (\<lambda>k. ak_ID k = a) (api_keys w2)
                  \<or> \<not> opt_ok (\<lambda>d. list_ex (\<lambda>x. cr_id x = d) (conversations w2)) c
             then (Inl fk_violation, w2)
             else (Inr (), w2\<lparr>gateway_usage := gateway_usage w2 @
               [\<lparr>us_id = i, us_api_key_id = a, us_conversation_id = c, us_model = ur_Model r,
                 us_stream = ur_Stream r, us_prompt_msg_count = ur_PromptMsgCount r,
                 us_prompt_token_count = ur_PromptTokenCount r,
                 us_completion_token_count = ur_CompletionTokenCount r,
                 us_upstream_status = ur_UpstreamStatus r, us_outcome = ur_Outcome r,
                 us_latency_ms = ur_LatencyMS r, us_created_at = t\<rparr>]\<rparr>)))
      | (None, _) \<Rightarrow> (Inl (uuid_error w (ur_APIKeyID r)), w)
      | (_, None) \<Rightarrow> (Inl invalid_text, w))"

definition usage_Record :: "UsageRecord \<Rightarrow> 'a usage_db_scheme \<Rightarrow> (pgerr, unit) result \<times> 'a usage_db_scheme" where
  "usage_Record r w =
     (case pg_exec (insert_usage r) w of
        (Inl e, w') \<Rightarrow> (Inl e, w')
      | (Inr _, w') \<Rightarrow> (Inr (), w'))"

definition spawn :: "task \<Rightarrow> 'a usage_db_scheme \<Rightarrow> 'a usage_db_scheme" where
  "spawn t w = w\<lparr>tasks := tasks w @ [t]\<rparr>"

text \<open>\<open>Async\<close>: a nil logger becomes the default one; \<open>Record\<close> spawns and returns nil.\<close>

definition Async_logger :: "Logger option \<Rightarrow> 'a env_scheme \<Rightarrow> Logger" where
  "Async_logger lg w = (case lg of None \<Rightarrow> default_logger w | Some l \<Rightarrow> l)"

definition Async :: "Logger \<Rightarrow> 'a usage_db_scheme Recorder" where
  "Async logger = (\<lambda>rec w. (Inr (), spawn (TaskUsage logger rec) w))"

text \<open>What the goroutines do: the audit write logs its failure, the touch ignores it.\<close>

fun run_task :: "task \<Rightarrow> 'a usage_db_scheme \<Rightarrow> 'a usage_db_scheme" where
  "run_task (TaskTouch i) w = snd (apikey_TouchLastUsed i w)"
| "run_task (TaskUsage logger rec) w =
     (case usage_Record rec w of
        (Inl e, w') \<Rightarrow>
          LogAttrs logger LevelWarn ''gateway usage audit write failed''
            [(''error'', LStr (''usage: recording: '' @ err_text w' e)), (''outcome'', LStr (ur_Outcome rec))] w'
      | (Inr _, w') \<Rightarrow> w')"

definition run_tasks :: "'a usage_db_scheme \<Rightarrow> 'a usage_db_scheme" where
  "run_tasks w = fold run_task (tasks w) (w\<lparr>tasks := []\<rparr>)"

text \<open>The row a record becomes carries the record's fields and nothing else of the call.\<close>

definition row_of_record :: "UsageRecord \<Rightarrow> usage_row \<Rightarrow> bool" where
  "row_of_record r u \<longleftrightarrow> us_model u = ur_Model r \<and> us_stream u = ur_Stream r
     \<and> us_prompt_msg_count u = ur_PromptMsgCount r \<and> us_prompt_token_count u = ur_PromptTokenCount r
     \<and> us_completion_token_count u = ur_CompletionTokenCount r \<and> us_upstream_status u = ur_UpstreamStatus r
     \<and> us_outcome u = ur_Outcome r \<and> us_latency_ms u = ur_LatencyMS r
     \<and> (us_conversation_id u = None \<longleftrightarrow> ur_ConversationID r = [])"

lemma insert_usage_Inr:
  "insert_usage r w = (Inr x, w') \<Longrightarrow> \<exists>u. gateway_usage w' = gateway_usage w @ [u] \<and> row_of_record r u"
  by (auto simp: insert_usage_def gen_uuid_def pg_now_def now_def Let_def row_of_record_def
      split: if_splits option.splits)

lemma insert_usage_Inl: "insert_usage r w = (Inl e, w') \<Longrightarrow> gateway_usage w' = gateway_usage w"
  by (auto simp: insert_usage_def gen_uuid_def pg_now_def now_def Let_def split: if_splits option.splits)

lemma usage_Record_rows:
  assumes "usage_Record r w = (x, w')"
  shows "gateway_usage w' = gateway_usage w \<or> (\<exists>u. gateway_usage w' = gateway_usage w @ [u] \<and> row_of_record r u)"
    and "x = Inr () \<Longrightarrow> \<exists>u. gateway_usage w' = gateway_usage w @ [u] \<and> row_of_record r u"
proof -
  let ?P = "\<lambda>us (x :: (pgerr, unit) result) us'. case x of Inl _ \<Rightarrow> us' = us | Inr _ \<Rightarrow> \<exists>u. us' = us @ [u] \<and> row_of_record r u"
  have e: "pg_exec (insert_usage r) w = (x, w')"
    using assms by (auto simp: usage_Record_def split: prod.splits sum.splits)
  have stmt: "?P (gateway_usage w1) y (gateway_usage w2)" if "insert_usage r w1 = (y, w2)" for w1 y w2
    using that insert_usage_Inr insert_usage_Inl by (cases y) auto
  have "\<exists>y. ?P (gateway_usage w) y (gateway_usage w') \<and> (x = y \<or> x = Inl ConnErr)"
    by (rule pg_exec_effect [OF e]) (use stmt in auto)
  then obtain y where y: "?P (gateway_usage w) y (gateway_usage w')" "x = y \<or> x = Inl ConnErr" by blast
  then show "gateway_usage w' = gateway_usage w \<or> (\<exists>u. gateway_usage w' = gateway_usage w @ [u] \<and> row_of_record r u)"
    by (cases y) auto
  show "x = Inr () \<Longrightarrow> \<exists>u. gateway_usage w' = gateway_usage w @ [u] \<and> row_of_record r u"
    using y by (cases y) auto
qed

end
