(* ===== verification/Vllm.thy ===== *)
theory Vllm
  imports Runtime
begin

text \<open>
  \<open>backend/internal/vllm/client.go\<close>: the client of the upstream model server. Requests are
  the JSON encoding of \<open>ChatRequest\<close>, responses are decoded by the rules of
  \<open>encoding/json\<close>, and a response that is not 2xx becomes an error with a bounded, sanitized
  message. The network is \<open>http_do\<close> of \<open>Runtime\<close>, which logs every request.
\<close>

section \<open>Types\<close>

record vllm_Message =
  vm_Role :: string
  vm_Content :: string

record ChatRequest =
  vq_Model :: string
  vq_Messages :: "vllm_Message list"
  vq_Stream :: bool
  vq_Temperature :: "float64 option"
  vq_TopP :: "float64 option"
  vq_MaxTokens :: "int option"
  vq_Stop :: "string list"

record vllm_Usage =
  vu_PromptTokens :: int
  vu_CompletionTokens :: int
  vu_TotalTokens :: int

record Choice =
  ch_Index :: int
  ch_Message :: vllm_Message
  ch_FinishReason :: string

record ChatResponse =
  vr_ID :: string
  vr_Model :: string
  vr_Choices :: "Choice list"
  vr_Usage :: "vllm_Usage option"

text \<open>The still-open body: what it will deliver and how it will end.\<close>

record StreamResponse =
  sr_Body :: string
  sr_End :: body_end

datatype vllm_error =
    UpstreamError int string
  | vllm_BuildingRequest
  | vllm_RequestFailed
  | vllm_DecodingResponse

record Client =
  cl_baseURL :: string
  cl_apiKey :: string

definition chatCompletionsPath :: string where "chatCompletionsPath = ''/v1/chat/completions''"
definition errorBodyLimit :: nat where "errorBodyLimit = 8 * 1024"

definition vllm_New :: "string \<Rightarrow> string \<Rightarrow> Client" where
  "vllm_New url key = \<lparr>cl_baseURL = TrimRight url ''/'', cl_apiKey = key\<rparr>"

section \<open>The request\<close>

definition message_json :: "vllm_Message \<Rightarrow> json" where
  "message_json m = JObj [(''role'', JStr (vm_Role m)), (''content'', JStr (vm_Content m))]"

text \<open>A field with \<open>omitempty\<close>: absent when it is false, nil or empty.\<close>

definition omitempty :: "bool \<Rightarrow> string \<Rightarrow> json \<Rightarrow> (string \<times> json) list" where
  "omitempty present name v = (if present then [(name, v)] else [])"

definition request_json :: "(float64 \<Rightarrow> string) \<Rightarrow> ChatRequest \<Rightarrow> json" where
  "request_json ff r = JObj (
     [(''model'', JStr (vq_Model r)), (''messages'', JArr (map message_json (vq_Messages r)))]
     @ omitempty (vq_Stream r) ''stream'' (JBool True)
     @ omitempty (vq_Temperature r \<noteq> None) ''temperature'' (json_opt (\<lambda>f. JNum (ff f)) (vq_Temperature r))
     @ omitempty (vq_TopP r \<noteq> None) ''top_p'' (json_opt (\<lambda>f. JNum (ff f)) (vq_TopP r))
     @ omitempty (vq_MaxTokens r \<noteq> None) ''max_tokens'' (json_opt json_int (vq_MaxTokens r))
     @ omitempty (vq_Stop r \<noteq> []) ''stop'' (JArr (map JStr (vq_Stop r))))"

text \<open>\<open>do\<close>: marshal, build, set the three headers, send.\<close>

definition Client_do :: "Client \<Rightarrow> ChatRequest \<Rightarrow> 'a env_scheme \<Rightarrow> (vllm_error, http_in) result \<times> 'a env_scheme" where
  "Client_do c req w =
     (let body = json_encode (request_json (format_float w) req);
          url = cl_baseURL c @ chatCompletionsPath
      in if \<not> url_ok w url then (Inl vllm_BuildingRequest, w)
         else case http_do \<lparr>out_method = ''POST'', out_url = url,
                 out_headers = [(''Content-Type'', ''application/json''), (''Accept'', ''application/json''),
                                (''Authorization'', ''Bearer '' @ cl_apiKey c)],
                 out_body = body\<rparr> w of
           (NetErr, w') \<Rightarrow> (Inl vllm_RequestFailed, w')
         | (NetResp resp, w') \<Rightarrow> (Inr resp, w'))"

section \<open>Errors of the upstream\<close>

definition truncate_str :: "string \<Rightarrow> nat \<Rightarrow> string" where
  "truncate_str s n = (let t = TrimSpace s in if length t > n then take n t else t)"

record error_fields =
  ef_Message :: string
  ef_Type :: string

definition error_schema :: "error_fields field list" where
  "error_schema =
     [(''error'', decode_struct False
        [(''message'', dec_string (\<lambda>s e. e\<lparr>ef_Message := s\<rparr>)),
         (''type'', dec_string (\<lambda>s e. e\<lparr>ef_Type := s\<rparr>))])]"

definition sanitizeMessage :: "string \<Rightarrow> string" where
  "sanitizeMessage body =
     (case (case json_unmarshal body of
              None \<Rightarrow> None
            | Some v \<Rightarrow> decode_struct False error_schema v \<lparr>ef_Message = [], ef_Type = []\<rparr>) of
        Some e \<Rightarrow>
          if ef_Message e \<noteq> [] then truncate_str (ef_Message e) 200
          else if ef_Type e \<noteq> [] then truncate_str (ef_Type e) 200
          else ''upstream error''
      | None \<Rightarrow> ''upstream error'')"

definition upstreamStatusError :: "http_in \<Rightarrow> vllm_error option" where
  "upstreamStatusError resp =
     (if 200 \<le> in_status resp \<and> in_status resp < 300 then None
      else let snippet = take errorBodyLimit (in_body resp)
           in Some (UpstreamError (in_status resp) (sanitizeMessage snippet)))"

section \<open>The response\<close>

definition message_schema :: "vllm_Message field list" where
  "message_schema =
     [(''role'', dec_string (\<lambda>s m. m\<lparr>vm_Role := s\<rparr>)), (''content'', dec_string (\<lambda>s m. m\<lparr>vm_Content := s\<rparr>))]"

definition choice_schema :: "Choice field list" where
  "choice_schema =
     [(''index'', dec_int (\<lambda>i c. c\<lparr>ch_Index := i\<rparr>)),
      (''message'', dec_nested (decode_struct False message_schema) ch_Message (\<lambda>m c. c\<lparr>ch_Message := m\<rparr>)),
      (''finish_reason'', dec_string (\<lambda>s c. c\<lparr>ch_FinishReason := s\<rparr>))]"

definition usage_schema :: "vllm_Usage field list" where
  "usage_schema =
     [(''prompt_tokens'', dec_int (\<lambda>i u. u\<lparr>vu_PromptTokens := i\<rparr>)),
      (''completion_tokens'', dec_int (\<lambda>i u. u\<lparr>vu_CompletionTokens := i\<rparr>)),
      (''total_tokens'', dec_int (\<lambda>i u. u\<lparr>vu_TotalTokens := i\<rparr>))]"

definition zero_message :: vllm_Message where "zero_message = \<lparr>vm_Role = [], vm_Content = []\<rparr>"

definition response_schema :: "ChatResponse field list" where
  "response_schema =
     [(''id'', dec_string (\<lambda>s r. r\<lparr>vr_ID := s\<rparr>)),
      (''model'', dec_string (\<lambda>s r. r\<lparr>vr_Model := s\<rparr>)),
      (''choices'', dec_slice (decode_struct False choice_schema)
         \<lparr>ch_Index = 0, ch_Message = zero_message, ch_FinishReason = []\<rparr> vr_Choices (\<lambda>cs r. r\<lparr>vr_Choices := cs\<rparr>)),
      (''usage'', dec_ptr (decode_struct False usage_schema)
         \<lparr>vu_PromptTokens = 0, vu_CompletionTokens = 0, vu_TotalTokens = 0\<rparr> vr_Usage (\<lambda>u r. r\<lparr>vr_Usage := u\<rparr>))]"

text \<open>
  \<open>json.NewDecoder(resp.Body).Decode(&out)\<close>: the first value of the body, which may be
  followed by anything; a literal at the very end needs the body to end properly.
\<close>

definition decode_body :: "http_in \<Rightarrow> ChatResponse option" where
  "decode_body resp =
     (case json_scan (in_body resp) of
        POk v t \<Rightarrow>
          if t = [] \<and> \<not> bracketed v \<and> in_end resp = EndErr then None
          else decode_struct False response_schema v
                 \<lparr>vr_ID = [], vr_Model = [], vr_Choices = [], vr_Usage = None\<rparr>
      | _ \<Rightarrow> None)"

section \<open>The two calls\<close>

definition Complete :: "Client \<Rightarrow> ChatRequest \<Rightarrow> 'a env_scheme \<Rightarrow> (vllm_error, ChatResponse) result \<times> 'a env_scheme" where
  "Complete c req w =
     (let req' = req\<lparr>vq_Stream := False\<rparr>
      in case Client_do c req' w of
           (Inl e, w') \<Rightarrow> (Inl e, w')
         | (Inr resp, w') \<Rightarrow>
             (case upstreamStatusError resp of
                Some e \<Rightarrow> (Inl e, w')
              | None \<Rightarrow>
                  (case decode_body resp of
                     None \<Rightarrow> (Inl vllm_DecodingResponse, w')
                   | Some out \<Rightarrow> (Inr out, w'))))"

definition vllm_Stream :: "Client \<Rightarrow> ChatRequest \<Rightarrow> 'a env_scheme \<Rightarrow> (vllm_error, StreamResponse) result \<times> 'a env_scheme" where
  "vllm_Stream c req w =
     (let req' = req\<lparr>vq_Stream := True\<rparr>
      in case Client_do c req' w of
           (Inl e, w') \<Rightarrow> (Inl e, w')
         | (Inr resp, w') \<Rightarrow>
             (case upstreamStatusError resp of
                Some e \<Rightarrow> (Inl e, w')
              | None \<Rightarrow> (Inr \<lparr>sr_Body = in_body resp, sr_End = in_end resp\<rparr>, w')))"

section \<open>The interface the gateway uses\<close>

record 'w upstreamClient =
  up_Complete :: "ChatRequest \<Rightarrow> 'w \<Rightarrow> (vllm_error, ChatResponse) result \<times> 'w"
  up_Stream :: "ChatRequest \<Rightarrow> 'w \<Rightarrow> (vllm_error, StreamResponse) result \<times> 'w"

definition Client_upstream :: "Client \<Rightarrow> 'a env_scheme upstreamClient" where
  "Client_upstream c = \<lparr>up_Complete = Complete c, up_Stream = vllm_Stream c\<rparr>"

text \<open>
  What an upstream client promises: a call changes nothing but the log of sent requests
  (\<open>quiet\<close> says two worlds agree on all else).
\<close>

locale upstream =
  fixes up :: "'w upstreamClient"
    and quiet :: "'w \<Rightarrow> 'w \<Rightarrow> bool"
  assumes complete_quiet: "quiet w (snd (up_Complete up q w))"
    and stream_quiet: "quiet w (snd (up_Stream up q w))"

definition same_but_net :: "'a env_scheme \<Rightarrow> 'a env_scheme \<Rightarrow> bool" where
  "same_but_net w w' \<longleftrightarrow> (\<exists>l. w' = w\<lparr>net_log := net_log w @ l\<rparr>)"

lemma Client_do_world:
  "snd (Client_do c q w) = w \<or> (\<exists>r. snd (Client_do c q w) = w\<lparr>net_log := net_log w @ [r]\<rparr>)"
  by (auto simp: Client_do_def http_do_def Let_def split: net_result.split)

lemma same_but_netI: "w' = w \<or> (\<exists>r. w' = w\<lparr>net_log := net_log w @ [r]\<rparr>) \<Longrightarrow> same_but_net w w'"
  unfolding same_but_net_def by (auto intro: exI [of _ "[]"])

lemma call_world:
  "snd (Complete c q w) = snd (Client_do c (q\<lparr>vq_Stream := False\<rparr>) w)"
  "snd (vllm_Stream c q w) = snd (Client_do c (q\<lparr>vq_Stream := True\<rparr>) w)"
  by (auto simp: Complete_def vllm_Stream_def Let_def split: prod.splits sum.splits option.splits)

interpretation client_up: upstream "Client_upstream c" same_but_net for c
  by unfold_locales
    (simp_all only: Client_upstream_def upstreamClient.simps call_world same_but_netI [OF Client_do_world])

lemma client_complete_quiet: "same_but_net w (snd (Complete c q w))"
  using client_up.complete_quiet [of w c q] by (simp add: Client_upstream_def)

lemma client_stream_quiet: "same_but_net w (snd (vllm_Stream c q w))"
  using client_up.stream_quiet [of w c q] by (simp add: Client_upstream_def)

section \<open>Bounds and secrecy\<close>

lemma length_truncate: "length (truncate_str s n) \<le> n"
  by (simp add: truncate_str_def Let_def)

lemma length_sanitizeMessage: "length (sanitizeMessage b) \<le> 200"
  using length_truncate [of _ 200] by (auto simp: sanitizeMessage_def split: option.split)

text \<open>Exactly one request, to the fixed path, with the bearer secret in its header.\<close>

definition sent_request :: "Client \<Rightarrow> (float64 \<Rightarrow> string) \<Rightarrow> ChatRequest \<Rightarrow> http_out" where
  "sent_request c ff q = \<lparr>out_method = ''POST'', out_url = cl_baseURL c @ chatCompletionsPath,
     out_headers = [(''Content-Type'', ''application/json''), (''Accept'', ''application/json''),
                    (''Authorization'', ''Bearer '' @ cl_apiKey c)],
     out_body = json_encode (request_json ff q)\<rparr>"

lemma Client_do_sends:
  "url_ok w (cl_baseURL c @ chatCompletionsPath) \<Longrightarrow>
   snd (Client_do c q w) = w\<lparr>net_log := net_log w @ [sent_request c (format_float w) q]\<rparr>"
  by (auto simp: Client_do_def sent_request_def http_do_def Let_def split: net_result.split)

lemma Client_do_result:
  "url_ok w (cl_baseURL c @ chatCompletionsPath) \<Longrightarrow>
   fst (Client_do c q w) =
     (case net w (length (net_log w)) (sent_request c (format_float w) q) of
        NetErr \<Rightarrow> Inl vllm_RequestFailed | NetResp r \<Rightarrow> Inr r)"
  by (auto simp: Client_do_def sent_request_def http_do_def Let_def split: net_result.split)

text \<open>
  What the network delivers for a request: nothing when the URL cannot be used or the connection is
  lost, else a response. The results of the two calls in terms of it.
\<close>

definition upstream_answer :: "Client \<Rightarrow> ChatRequest \<Rightarrow> 'a env_scheme \<Rightarrow> http_in option" where
  "upstream_answer c q w =
     (if url_ok w (cl_baseURL c @ chatCompletionsPath)
      then case net w (length (net_log w)) (sent_request c (format_float w) q) of
        NetErr \<Rightarrow> None | NetResp r \<Rightarrow> Some r
      else None)"

definition status_2xx :: "http_in \<Rightarrow> bool" where
  "status_2xx r \<longleftrightarrow> 200 \<le> in_status r \<and> in_status r < 300"

lemma Client_do_answer:
  "upstream_answer c q w = None \<Longrightarrow> \<exists>e. fst (Client_do c q w) = Inl e"
  "upstream_answer c q w = Some r \<Longrightarrow> fst (Client_do c q w) = Inr r"
  by (auto simp: upstream_answer_def Client_do_result split: if_splits net_result.splits)
    (auto simp: Client_do_def Let_def)

lemma Complete_answer:
  "upstream_answer c (q\<lparr>vq_Stream := False\<rparr>) w = None \<Longrightarrow> \<exists>e. fst (Complete c q w) = Inl e"
  "upstream_answer c (q\<lparr>vq_Stream := False\<rparr>) w = Some r \<Longrightarrow> \<not> status_2xx r \<or> decode_body r = None \<Longrightarrow> \<exists>e. fst (Complete c q w) = Inl e"
  "upstream_answer c (q\<lparr>vq_Stream := False\<rparr>) w = Some r \<Longrightarrow> status_2xx r \<Longrightarrow> decode_body r = Some a \<Longrightarrow> fst (Complete c q w) = Inr a"
  using Client_do_answer [of c "q\<lparr>vq_Stream := False\<rparr>" w]
  by (auto simp: Complete_def Let_def upstreamStatusError_def status_2xx_def split: prod.splits)

lemma Stream_answer:
  "upstream_answer c (q\<lparr>vq_Stream := True\<rparr>) w = None \<Longrightarrow> \<exists>e. fst (vllm_Stream c q w) = Inl e"
  "upstream_answer c (q\<lparr>vq_Stream := True\<rparr>) w = Some r \<Longrightarrow> \<not> status_2xx r \<Longrightarrow> \<exists>e. fst (vllm_Stream c q w) = Inl e"
  "upstream_answer c (q\<lparr>vq_Stream := True\<rparr>) w = Some r \<Longrightarrow> status_2xx r \<Longrightarrow>
     fst (vllm_Stream c q w) = Inr \<lparr>sr_Body = in_body r, sr_End = in_end r\<rparr>"
  using Client_do_answer [of c "q\<lparr>vq_Stream := True\<rparr>" w]
  by (auto simp: vllm_Stream_def Let_def upstreamStatusError_def status_2xx_def split: prod.splits)

end
