(* ===== verification/Go_Http.thy ===== *)
theory Go_Http
  imports Runtime
begin

text \<open>
  The parts of \<open>net/http\<close> the handlers use. A handler reads a request and the world and
  returns the calls it makes on its \<open>http.ResponseWriter\<close>, in order, how it leaves (it
  returns or panics), and the new world; middleware composes these. \<open>wire\<close> is what the
  server then sends: the first \<open>WriteHeader\<close> fixes status and headers, a \<open>Write\<close> or a
  \<open>Flush\<close> before it implies 200. No handler looks at the result of a write.
\<close>

section \<open>Requests\<close>

text \<open>
  \<open>rq_header\<close> gives the values under a header's canonical name, \<open>rq_ctxerr k\<close> whether the
  request's context is cancelled when it is asked for the \<open>k\<close>-th time. \<open>rq_path\<close> is
  \<open>URL.Path\<close>, \<open>rq_escaped\<close> \<open>URL.EscapedPath()\<close> and \<open>rq_query\<close> \<open>URL.RawQuery\<close>. \<open>rq_flusher\<close>,
  \<open>rq_hijacker\<close> and \<open>rq_statusWriter\<close> say whether the response writer is an \<open>http.Flusher\<close>, an
  \<open>http.Hijacker\<close>, a \<open>StatusWriter\<close> (log/middleware.go). The context values are of type \<open>'c\<close>.
\<close>

record 'c request =
  rq_method :: string
  rq_path :: string
  rq_escaped :: string
  rq_query :: string
  rq_header :: "string \<Rightarrow> string list"
  rq_cookie :: "string \<Rightarrow> string option"
  rq_path_value :: "string \<Rightarrow> string"
  rq_body :: string
  rq_remote :: string
  rq_ctxerr :: "nat \<Rightarrow> bool"
  rq_flusher :: bool
  rq_hijacker :: bool
  rq_statusWriter :: bool
  rq_ctx :: 'c

text \<open>\<open>r.Header.Get\<close>: the first value, empty when there is none.\<close>

definition header_get :: "'c request \<Rightarrow> string \<Rightarrow> string" where
  "header_get r k = (case rq_header r k of [] \<Rightarrow> [] | v # _ \<Rightarrow> v)"

section \<open>Responses\<close>

datatype wcall =
    SetHeader string string
  | AddHeader string string
  | DelHeader string
  | WriteHeader int
  | Write string
  | Flush

text \<open>How a handler leaves: it returns, panics, or panics with \<open>http.ErrAbortHandler\<close>.\<close>

datatype exit = Returned | Panicked string | Aborted

type_synonym ('c, 'w) handler = "'c request \<Rightarrow> 'w \<Rightarrow> wcall list \<times> exit \<times> 'w"

definition calls_of :: "wcall list \<times> exit \<times> 'w \<Rightarrow> wcall list" where
  "calls_of x = fst x"

definition exit_of :: "wcall list \<times> exit \<times> 'w \<Rightarrow> exit" where
  "exit_of x = fst (snd x)"

definition world_of :: "wcall list \<times> exit \<times> 'w \<Rightarrow> 'w" where
  "world_of x = snd (snd x)"

lemma handler_result_simps [simp]:
  "calls_of (cs, e, w) = cs" "exit_of (cs, e, w) = e" "world_of (cs, e, w) = w"
  by (simp_all add: calls_of_def exit_of_def world_of_def)

record wire =
  wr_header :: "string \<Rightarrow> string list"
  wr_status :: "int option"
  wr_sent :: "string \<Rightarrow> string list"
  wr_body :: string
  wr_flushed :: nat

definition wire0 :: wire where
  "wire0 = \<lparr>wr_header = \<lambda>_. [], wr_status = None, wr_sent = \<lambda>_. [], wr_body = [], wr_flushed = 0\<rparr>"

definition wire_header :: "int \<Rightarrow> wire \<Rightarrow> wire" where
  "wire_header code r =
     (case wr_status r of
        Some _ \<Rightarrow> r
      | None \<Rightarrow> r\<lparr>wr_status := Some code, wr_sent := wr_header r\<rparr>)"

fun wire_call :: "wcall \<Rightarrow> wire \<Rightarrow> wire" where
  "wire_call (SetHeader k v) r = r\<lparr>wr_header := (wr_header r)(k := [v])\<rparr>"
| "wire_call (AddHeader k v) r = r\<lparr>wr_header := (wr_header r)(k := wr_header r k @ [v])\<rparr>"
| "wire_call (DelHeader k) r = r\<lparr>wr_header := (wr_header r)(k := [])\<rparr>"
| "wire_call (WriteHeader code) r = wire_header code r"
| "wire_call (Write b) r = (let r' = wire_header 200 r in r'\<lparr>wr_body := wr_body r' @ b\<rparr>)"
| "wire_call Flush r =
     (let r' = wire_header 200 r in r'\<lparr>wr_flushed := Suc (wr_flushed r')\<rparr>)"

definition wire_run :: "wcall list \<Rightarrow> wire" where
  "wire_run cs = fold wire_call cs wire0"

text \<open>The status the client sees: 200 when the handler never set one.\<close>

definition status_of :: "wcall list \<Rightarrow> int" where
  "status_of cs = (case wr_status (wire_run cs) of None \<Rightarrow> 200 | Some c \<Rightarrow> c)"

text \<open>
  What was written to the body, and what the client gets of it: \<open>net/http\<close> sends no body with a
  status that has none, and takes the writes of a \<open>HEAD\<close> without sending them.
\<close>

definition bodyAllowed :: "int \<Rightarrow> bool" where
  "bodyAllowed code \<longleftrightarrow> \<not> (100 \<le> code \<and> code \<le> 199) \<and> code \<noteq> 204 \<and> code \<noteq> 304"

definition body_of :: "wcall list \<Rightarrow> string" where
  "body_of cs = wr_body (wire_run cs)"

definition sent_body :: "'c request \<Rightarrow> wcall list \<Rightarrow> string" where
  "sent_body r cs = (if rq_method r = ''HEAD'' \<or> \<not> bodyAllowed (status_of cs) then [] else body_of cs)"

lemma wire_status_kept: "wr_status r = Some c \<Longrightarrow> wr_status (fold wire_call cs r) = Some c"
proof (induction cs arbitrary: r)
  case (Cons x cs)
  then have "wr_status (wire_call x r) = Some c"
    by (cases x) (simp_all add: wire_header_def Let_def)
  then show ?case by (simp add: Cons.IH)
qed simp

fun sets_status :: "wcall \<Rightarrow> bool" where
  "sets_status (WriteHeader _) = True"
| "sets_status (Write _) = True"
| "sets_status Flush = True"
| "sets_status _ = False"

lemma wire_fold_headers:
  "\<forall>c \<in> set cs. \<not> sets_status c \<Longrightarrow>
   wr_status (fold wire_call cs r) = wr_status r \<and> wr_body (fold wire_call cs r) = wr_body r"
proof (induction cs arbitrary: r)
  case (Cons x cs)
  then show ?case by (cases x) simp_all
qed simp

lemma status_of_first:
  assumes "\<forall>c \<in> set hs. \<not> sets_status c"
  shows "status_of (hs @ WriteHeader code # cs) = code"
proof -
  have "wr_status (fold wire_call hs wire0) = None"
    using wire_fold_headers [OF assms, of wire0] by (simp add: wire0_def)
  then have "wr_status (wire_call (WriteHeader code) (fold wire_call hs wire0)) = Some code"
    by (simp add: wire_header_def)
  then show ?thesis
    by (simp add: status_of_def wire_run_def wire_status_kept)
qed

fun writes_of :: "wcall list \<Rightarrow> string" where
  "writes_of [] = []"
| "writes_of (Write b # cs) = b @ writes_of cs"
| "writes_of (_ # cs) = writes_of cs"

lemma writes_of_append [simp]: "writes_of (a @ b) = writes_of a @ writes_of b"
  by (induction a rule: writes_of.induct) simp_all

lemma wire_fold_body: "wr_body (fold wire_call cs r) = wr_body r @ writes_of cs"
  by (induction cs arbitrary: r rule: writes_of.induct)
    (simp_all add: wire_header_def Let_def split: option.split)

lemma body_of_writes: "body_of cs = writes_of cs"
  by (simp add: body_of_def wire_run_def wire_fold_body wire0_def)

end
