(* ===== verification/Req_Context.thy ===== *)
theory Req_Context
  imports Go_Http
begin

text \<open>
  The values the middleware attaches to a request's \<open>context.Context\<close>, one field per context
  key of the source: the logger and the request id (log/log.go), the gateway credential
  (gateway/auth.go) and the admin claims (admin/middleware.go, token/token.go).
\<close>

record Credential =
  crd_ID :: string
  crd_KeyID :: string
  crd_Name :: string
  crd_Persona :: "string option"
  crd_OwnerID :: "string option"

record Claims =
  clm_UserID :: string
  clm_IsSuperuser :: bool

record ctx =
  ctx_logger :: "Logger option"
  ctx_request_id :: "string option"
  ctx_credential :: "Credential option"
  ctx_claims :: "Claims option"

definition Background :: ctx where
  "Background = \<lparr>ctx_logger = None, ctx_request_id = None, ctx_credential = None, ctx_claims = None\<rparr>"

section \<open>log/log.go\<close>

definition WithContext :: "ctx \<Rightarrow> Logger \<Rightarrow> ctx" where
  "WithContext c logger = c\<lparr>ctx_logger := Some logger\<rparr>"

definition FromContext :: "ctx \<Rightarrow> 'a env_scheme \<Rightarrow> Logger" where
  "FromContext c w = (case ctx_logger c of Some l \<Rightarrow> l | None \<Rightarrow> default_logger w)"

definition withRequestID :: "ctx \<Rightarrow> string \<Rightarrow> ctx" where
  "withRequestID c i = c\<lparr>ctx_request_id := Some i\<rparr>"

definition RequestID :: "ctx \<Rightarrow> string" where
  "RequestID c = (case ctx_request_id c of Some i \<Rightarrow> i | None \<Rightarrow> [])"

section \<open>gateway/auth.go\<close>

definition withCredential :: "ctx \<Rightarrow> Credential \<Rightarrow> ctx" where
  "withCredential c cr = c\<lparr>ctx_credential := Some cr\<rparr>"

definition CredentialFromContext :: "ctx \<Rightarrow> Credential option" where
  "CredentialFromContext c = ctx_credential c"

section \<open>admin/middleware.go\<close>

definition withClaims :: "ctx \<Rightarrow> Claims \<Rightarrow> ctx" where
  "withClaims c cl = c\<lparr>ctx_claims := Some cl\<rparr>"

definition ClaimsFromContext :: "ctx \<Rightarrow> Claims option" where
  "ClaimsFromContext c = ctx_claims c"

lemma context_lookups [simp]:
  "CredentialFromContext (withCredential c cr) = Some cr" "ClaimsFromContext (withClaims c cl) = Some cl"
  "FromContext (WithContext c l) w = l" "RequestID (withRequestID c i) = i"
  "CredentialFromContext (withClaims c cl) = CredentialFromContext c"
  "CredentialFromContext (WithContext c l) = CredentialFromContext c"
  "CredentialFromContext (withRequestID c i) = CredentialFromContext c"
  "FromContext (withCredential c cr) w = FromContext c w" "FromContext (withClaims c cl) w = FromContext c w"
  "FromContext (withRequestID c i) w = FromContext c w"
  by (simp_all add: withCredential_def CredentialFromContext_def withClaims_def ClaimsFromContext_def
      WithContext_def FromContext_def RequestID_def withRequestID_def)

section \<open>JSON responses\<close>

text \<open>
  \<open>writeJSON\<close>, the same in gateway/respond.go, admin/respond.go and httpserver/health.go:
  content type, status, the encoded value and the newline \<open>Encode\<close> adds.
\<close>

definition writeJSON :: "int \<Rightarrow> json \<Rightarrow> wcall list" where
  "writeJSON code v =
     [SetHeader ''Content-Type'' ''application/json; charset=utf-8'', WriteHeader code,
      Write (json_encode v @ [char_of_byte 10])]"

lemma status_writeJSON [simp]: "status_of (writeJSON code v) = code"
  using status_of_first [of "[SetHeader ''Content-Type'' ''application/json; charset=utf-8'']" code]
  by (simp add: writeJSON_def)

lemma body_writeJSON [simp]: "body_of (writeJSON code v) = json_encode v @ [char_of_byte 10]"
  by (simp add: body_of_writes writeJSON_def)

text \<open>A Go map is encoded with its keys sorted.\<close>

definition error_json :: "string \<Rightarrow> string \<Rightarrow> json" where
  "error_json errType message =
     JObj [(''error'', JObj [(''message'', JStr message), (''type'', JStr errType)])]"

end
