(* ===== verification/Sample.thy ===== *)
theory Sample
  imports Usage Vllm Req_Context
begin

text \<open>
  One concrete world for the witnesses: a database with one credential and one session of two
  messages, a network that answers every request with the same completion, and requests of
  that credential. Nothing here models code.
\<close>

definition sample_key :: APIKey where
  "sample_key = \<lparr>ak_ID = ''k1'', ak_KeyID = ''dab_pk_a'', ak_SecretHash = ''00'',
     ak_Name = ''demo'', ak_Persona = Some ''Be brief.'', ak_CreatedBy = None, ak_CreatedAt = 5,
     ak_RevokedAt = None, ak_LastUsedAt = None\<rparr>"

definition sample_message :: "string \<Rightarrow> string \<Rightarrow> string \<Rightarrow> int \<Rightarrow> StoredMessage" where
  "sample_message i r c t = \<lparr>sm_ID = i, sm_ConversationID = ''s1'', sm_Role = r, sm_Content = c,
     sm_TokenCount = None, sm_CreatedAt = t\<rparr>"

definition sample_reply :: json where
  "sample_reply = JObj [(''choices'', JArr [JObj [(''message'', JObj [(''content'', JStr ''Hi'')])]])]"

definition sample_logger :: Logger where
  "sample_logger = \<lparr>lg_level = LevelInfo, lg_attrs = []\<rparr>"

definition sample_world :: usage_db where
  "sample_world = \<lparr>clock = 9000000, ticks = [], outcomes = [],
     uuids = (\<lambda>n. CHR ''u'' # replicate n (CHR ''x'')), uuid_next = 0,
     rng = (\<lambda>i n. Some (replicate n (char_of_byte (i mod 256)))), rng_next = 0,
     uuid_in = Some, text_ok = (\<lambda>_. True), citext_key = (\<lambda>s. s),
     net = (\<lambda>_ _. NetResp \<lparr>in_status = 200, in_body = json_encode sample_reply, in_end = EndEOF\<rparr>),
     net_log = [], logs = [], default_logger = sample_logger,
     parse_float = (\<lambda>_. None), format_float = (\<lambda>_. []), url_ok = (\<lambda>_. True), err_text = (\<lambda>_. []), format_time = (\<lambda>_ _. []),
     users = [], api_keys = [sample_key],
     conversations = [\<lparr>cr_id = ''s1'', cr_api_key_id = ''k1'', cr_model = Some ''m'', cr_created_at = 1, cr_updated_at = 1\<rparr>],
     messages = [sample_message ''a'' RoleUser ''Hello'' 1, sample_message ''b'' RoleAssistant ''Hello.'' 2],
     gateway_usage = [], tasks = []\<rparr>"

definition sample_client :: Client where
  "sample_client = vllm_New ''http://v/'' ''key''"

definition sample_credential :: Credential where
  "sample_credential = \<lparr>crd_ID = ''k1'', crd_KeyID = ''dab_pk_a'', crd_Name = ''demo'',
     crd_Persona = Some ''Be brief.'', crd_OwnerID = None\<rparr>"

definition sample_request :: "string \<Rightarrow> ctx request" where
  "sample_request body = \<lparr>rq_method = ''POST'', rq_path = ''/v1/gateway/chat'', rq_escaped = ''/v1/gateway/chat'', rq_query = [],
     rq_header = (\<lambda>k. if k = ''X-DAB-Key-Id'' then [''dab_pk_a''] else if k = ''X-DAB-Secret'' then [''dab_sk_a''] else []),
     rq_cookie = (\<lambda>_. None), rq_path_value = (\<lambda>_. []), rq_body = body, rq_remote = ''10.0.0.1:5'',
     rq_ctxerr = (\<lambda>_. False), rq_flusher = True, rq_hijacker = True, rq_statusWriter = False,
     rq_ctx = withCredential Background sample_credential\<rparr>"

definition sample_body :: string where
  "sample_body = json_encode (JObj [(''session_id'', JStr ''s1''), (''message'', JStr ''Go on'')])"

end
