(* ===== verification/Data_Properties.thy ===== *)
theory Data_Properties
  imports Exchange Sample
begin

text \<open>
  The properties of the data layer: credentials and their table (Apikey), sessions and their
  messages (Conversation), the core's context assembly and persistence (Gatewaycore) and the
  audit rows (Usage).
\<close>

section \<open>Credentials\<close>

text \<open>\<open>crypto/rand.Read\<close> fills the whole buffer when it succeeds.\<close>

definition rand_fills :: "'a env_scheme \<Rightarrow> bool" where
  "rand_fills w \<longleftrightarrow> (\<forall>i n b. rng w i n = Some b \<longrightarrow> length b = n)"

lemma sample_rand_fills: "rand_fills sample_world"
  by (auto simp: rand_fills_def sample_world_def)

text \<open>Once a credential is revoked, no sequence of operations on the key table (creations,
  updates, revocations, touches, anything else) makes a lookup of its key id succeed again.\<close>

theorem revoked_never_active:
  assumes "keys_inv w" "k \<in> set (api_keys w)" "ak_RevokedAt k \<noteq> None" "key_step\<^sup>*\<^sup>* w w'"
  shows "\<not> is_ok (fst (apikey_GetActiveByKeyID (ak_KeyID k) w'))"
proof
  assume "is_ok (fst (apikey_GetActiveByKeyID (ak_KeyID k) w'))"
  then obtain k' where "apikey_GetActiveByKeyID (ak_KeyID k) w' = (Inr k', snd (apikey_GetActiveByKeyID (ak_KeyID k) w'))"
    by (auto simp: is_ok_iff prod_eq_iff)
  then have "k' \<in> set (api_keys w')" "active_with (ak_KeyID k) k'" by (rule GetActive_Inr)+
  with revoked_no_active [OF _ key_steps_facts(1) [OF assms(4)] assms(2,3)] key_steps_facts(2) [OF assms(4,1)]
  show False by (simp add: keys_inv_ids)
qed

definition revoked_world :: usage_db where
  "revoked_world = sample_world\<lparr>api_keys := [sample_key\<lparr>ak_RevokedAt := Some 7\<rparr>]\<rparr>"

theorem revoked_never_active_witness:
  "\<not> is_ok (fst (apikey_GetActiveByKeyID ''dab_pk_a'' (snd (apikey_TouchLastUsed ''k1'' revoked_world))))"
  using revoked_never_active [of revoked_world "sample_key\<lparr>ak_RevokedAt := Some 7\<rparr>"
      "snd (apikey_TouchLastUsed ''k1'' revoked_world)"]
    r_into_rtranclp [of key_step, OF key_touch [of revoked_world "''k1''"]]
  by (simp add: keys_inv_def revoked_world_def sample_key_def)

text \<open>Ids and key ids stay unique, and every row keeps its id, key id, secret hash and
  revocation, under every sequence of operations on the key table.\<close>

theorem key_table_invariant:
  assumes "keys_inv w" "key_step\<^sup>*\<^sup>* w w'"
  shows "keys_inv w' \<and> key_evolves (api_keys w) (api_keys w')"
  using key_steps_facts [OF assms(2)] assms(1) by simp

theorem key_table_invariant_witness:
  "keys_inv (snd (apikey_Revoke ''k1'' sample_world)) \<and>
   key_evolves (api_keys sample_world) (api_keys (snd (apikey_Revoke ''k1'' sample_world)))"
  using key_table_invariant [OF _ r_into_rtranclp [of key_step, OF key_revoke [of sample_world "''k1''"]]]
  by (simp add: keys_inv_def sample_world_def)

text \<open>A minted credential has the documented shape (prefix and base64url of 16 and 32 random
  bytes), and its secret verifies against the hash that is stored.\<close>

theorem minted_credential:
  assumes "Generate w = (Inr c, w')" "rand_fills w"
  shows "prefix ''dab_pk_'' (gc_KeyID c) \<and> length (gc_KeyID c) = 29 \<and>
    prefix ''dab_sk_'' (gc_Secret c) \<and> length (gc_Secret c) = 50 \<and>
    length (gc_SecretHash c) = 64 \<and> VerifySecret (gc_Secret c) (gc_SecretHash c)"
proof -
  obtain b1 b2 where "rng w (rng_next w) 16 = Some b1" "rng w (Suc (rng_next w)) 32 = Some b2"
    and c: "gc_KeyID c = ''dab_pk_'' @ base64_RawURL b1" "gc_Secret c = ''dab_sk_'' @ base64_RawURL b2"
    "gc_SecretHash c = HashSecret (gc_Secret c)"
    using assms(1) by (rule Generate_Inr)
  then have "length b1 = 16" "length b2 = 32" using assms(2) by (auto simp: rand_fills_def)
  then show ?thesis by (simp add: c length_base64_RawURL)
qed

theorem minted_credential_witness:
  "\<exists>c w'. Generate sample_world = (Inr c, w') \<and> length (gc_Secret c) = 50"
proof -
  obtain c w' where g: "Generate sample_world = (Inr c, w')"
    by (simp add: Generate_def randToken_def rand_read_def sample_world_def)
  from minted_credential [OF g sample_rand_fills] g show ?thesis by blast
qed

text \<open>Two credentials minted from different random bytes have different secrets, and a secret
  verifies against another's hash only if the two digests collide.\<close>

theorem minted_secrets_differ:
  assumes "Generate v = (Inr c, v')" "Generate w = (Inr d, w')"
    and "rng v (Suc (rng_next v)) 32 \<noteq> rng w (Suc (rng_next w)) 32"
    and "rand_fills v" "rand_fills w"
  shows "gc_Secret c \<noteq> gc_Secret d \<and>
    (VerifySecret (gc_Secret c) (gc_SecretHash d) \<longleftrightarrow> sha256_Sum256 (gc_Secret c) = sha256_Sum256 (gc_Secret d))"
proof -
  obtain b where b: "rng v (Suc (rng_next v)) 32 = Some b" "gc_Secret c = ''dab_sk_'' @ base64_RawURL b"
    using assms(1) by (rule Generate_Inr)
  obtain d2 where d: "rng w (Suc (rng_next w)) 32 = Some d2" "gc_Secret d = ''dab_sk_'' @ base64_RawURL d2"
    "gc_SecretHash d = HashSecret (gc_Secret d)"
    using assms(2) by (rule Generate_Inr)
  have "length b = length d2" using assms(4,5) b(1) d(1) by (simp add: rand_fills_def)
  with b d assms(3) base64_RawURL_inj [of b d2] show ?thesis by (auto simp: VerifySecret_other)
qed

theorem minted_secrets_differ_witness:
  "\<exists>c d v w'. Generate sample_world = (Inr c, v) \<and> Generate v = (Inr d, w') \<and> gc_Secret c \<noteq> gc_Secret d"
proof -
  obtain c d v w' where g: "Generate sample_world = (Inr c, v)" "Generate v = (Inr d, w')"
    by (simp add: Generate_def randToken_def rand_read_def sample_world_def)
  have v: "v = sample_world\<lparr>rng_next := 2\<rparr>"
    using g(1) by (auto elim!: Generate_Inr) (simp add: sample_world_def)
  then have "rand_fills v" using sample_rand_fills by (simp add: rand_fills_def)
  moreover have "rng sample_world (Suc (rng_next sample_world)) 32 \<noteq> rng v (Suc (rng_next v)) 32"
    by (simp add: v) (simp add: sample_world_def)
  ultimately show ?thesis using minted_secrets_differ [OF g(1) g(2)] sample_rand_fills g by blast
qed

section \<open>Sessions\<close>

text \<open>A successful append puts the whole batch, in order, after the session's history, and
  changes no other session.\<close>

theorem append_in_order:
  assumes "conv_AppendMessages c ns w = (Inr (), w')" "settled w c"
  shows "map sm_pair (session_history w' c) = map sm_pair (session_history w c) @ map nm_pair ns \<and>
    {d. session_history w' d \<noteq> session_history w d} \<subseteq> {d. same_session w c d}"
proof -
  have "session_history w' d = session_history w d" if "\<not> same_session w c d" for d
    using repo_conv.append_other [of w c d ns] that assms(1) by simp
  then show ?thesis using repo_conv.append_ok [of c ns w w'] assms by auto
qed

text \<open>A message of the sample session.\<close>

definition sample_batch :: "NewMessage list" where
  "sample_batch = [\<lparr>nm_Role = RoleUser, nm_Content = ''Go on'', nm_TokenCount = None\<rparr>]"

lemma sample_settled: "settled sample_world ''s1''"
  by code_simp

lemma sample_append: "fst (conv_AppendMessages ''s1'' sample_batch sample_world) = Inr ()"
  by code_simp

theorem append_in_order_witness:
  "map sm_pair (session_history (snd (conv_AppendMessages ''s1'' sample_batch sample_world)) ''s1'') =
   map sm_pair (session_history sample_world ''s1'') @ [(RoleUser, ''Go on'')]"
  using append_in_order [OF _ sample_settled, of sample_batch "snd (conv_AppendMessages ''s1'' sample_batch sample_world)"]
    sample_append
  by (simp add: prod_eq_iff sample_batch_def nm_pair_def)

text \<open>
  Without \<open>settled\<close> it need not be so: a batch is dated ahead of the clock, a microsecond a
  message, and an append that starts within that time is put between its messages. Here the second
  exchange starts a microsecond after the first, of three messages.
\<close>

definition turn_batch :: "string list \<Rightarrow> string \<Rightarrow> NewMessage list" where
  "turn_batch us a = map (\<lambda>u. \<lparr>nm_Role = RoleUser, nm_Content = u, nm_TokenCount = None\<rparr>) us
     @ [\<lparr>nm_Role = RoleAssistant, nm_Content = a, nm_TokenCount = None\<rparr>]"

definition hurried_world :: usage_db where
  "hurried_world = snd (conv_AppendMessages ''s1'' (turn_batch [''three''] ''C'')
     (snd (conv_AppendMessages ''s1'' (turn_batch [''one'', ''two''] ''AB'') (sample_world\<lparr>ticks := [0, 0, 0, 1000], messages := []\<rparr>))))"

lemma appends_interleave:
  "map snd (map sm_pair (session_history hurried_world ''s1'')) = [''one'', ''two'', ''three'', ''AB'', ''C'']"
  by code_simp

text \<open>A failed append is atomic: the table has the whole batch (the commit's answer was lost)
  or is as before; other sessions are untouched either way.\<close>

theorem append_all_or_nothing:
  "(messages (snd (conv_AppendMessages c ns w)) = messages w
    \<or> (\<exists>rs t. messages (snd (conv_AppendMessages c ns w)) = messages w @ rs \<and> batch_rows (uuid_in w) c t ns rs))
   \<and> {d. session_history (snd (conv_AppendMessages c ns w)) d \<noteq> session_history w d} \<subseteq> {d. same_session w c d}"
proof -
  have "session_history (snd (conv_AppendMessages c ns w)) d = session_history w d" if "\<not> same_session w c d" for d
    using repo_conv.append_other [of w c d ns] that by simp
  then show ?thesis
    using Append_cases(2) [of c ns w "fst (conv_AppendMessages c ns w)" "snd (conv_AppendMessages c ns w)"]
    by (auto simp: append_effect_def)
qed

text \<open>A lookup sees only the caller's own sessions: its answer is the same when every session
  of the other credentials is taken away, so a foreign session is indistinguishable from none.\<close>

theorem get_session_noninterference:
  assumes "healthy w" "uuid_in w a = Some a'"
  shows "fst (conv_GetConversation a s (w\<lparr>conversations := filter (\<lambda>r. cr_api_key_id r = a') (conversations w)\<rparr>))
    = fst (conv_GetConversation a s w)"
proof -
  have f: "find (\<lambda>c. cr_api_key_id c = a' \<and> cr_id c = i) (filter (\<lambda>r. cr_api_key_id r = a') cs)
      = find (\<lambda>c. cr_api_key_id c = a' \<and> cr_id c = i) cs" for i cs
    by (induction cs) auto
  have h: "healthy (w\<lparr>conversations := filter (\<lambda>r. cr_api_key_id r = a') (conversations w)\<rparr>)"
    using assms(1) by (simp add: healthy_def)
  show ?thesis
    using assms by (simp add: conv_GetConversation_def pg_exec_healthy [OF h] select_conversation_def uuid_error_def f
        split: option.split)
qed

theorem get_session_noninterference_witness:
  "fst (conv_GetConversation ''k2'' ''s1'' (sample_world\<lparr>conversations := filter (\<lambda>r. cr_api_key_id r = ''k2'') (conversations sample_world)\<rparr>))
    = fst (conv_GetConversation ''k2'' ''s1'' sample_world)"
  by (rule get_session_noninterference) (simp_all add: healthy_def sample_world_def)

text \<open>Appending to a session that does not exist is refused by the foreign key on the first
  insert: a wrapped error, never \<open>ErrNotFound\<close>, and nothing is stored.\<close>

theorem append_to_missing_session:
  assumes "healthy w" "uuid_in w c = Some j" "j \<notin> cr_id ` set (conversations w)"
    and "text_ok w (nm_Role m)" "text_ok w (nm_Content m)" "nm_TokenCount m = None"
    and "nm_Role m = RoleUser" "uuids w (uuid_next w) \<notin> sm_ID ` set (messages w)"
  shows "fst (conv_AppendMessages c (m # ms) w) = Inl (conversation_wrapped fk_violation) \<and>
    messages (snd (conv_AppendMessages c (m # ms) w)) = messages w"
proof -
  obtain t w1 where b: "tx_begin w = (Inr t, w1)" by (cases "pg_now w") (simp add: tx_begin_def)
  obtain base w2 where n: "now w1 = (base, w2)" by fastforce
  have w2: "healthy w2" "uuid_in w2 = uuid_in w" "conversations w2 = conversations w" "messages w2 = messages w"
    "text_ok w2 = text_ok w" "uuids w2 = uuids w" "uuid_next w2 = uuid_next w"
    using b n assms(1) by (auto simp: tx_begin_def pg_now_def now_def Let_def healthy_def)
  have no: "\<not> list_ex (\<lambda>x. sm_ID x = uuids w (uuid_next w)) (messages w)"
    "\<not> list_ex (\<lambda>r. cr_id r = j) (conversations w)"
    using assms(3,8) unfolding list_ex_iff by (metis imageI)+
  have "insert_message c m (base + int 0 * 1000) w2 = (Inl fk_violation, snd (gen_uuid w2))"
    using assms w2 no by (simp add: insert_message_def gen_uuid_def opt_ok_def)
  then have "append_loop c base 0 (m # ms) w2 = (Inl fk_violation, snd (gen_uuid w2))"
    by (simp add: pg_exec_healthy [OF w2(1)])
  then show ?thesis
    by (simp add: conv_AppendMessages_def pg_exec_healthy [OF assms(1)] b n rollback_view)
qed

theorem append_to_missing_session_witness:
  "fst (conv_AppendMessages ''s9'' sample_batch sample_world) = Inl (conversation_wrapped fk_violation)"
  unfolding sample_batch_def
  by (rule append_to_missing_session [THEN conjunct1])
    (simp_all add: healthy_def sample_world_def sample_message_def, simp_all)

section \<open>The core\<close>

lemma overlaps_0: "overlaps history incoming 0"
  by (simp add: overlaps_def)

text \<open>C23: \<open>dropOverlap\<close> drops exactly the longest prefix of the incoming turn with which the
  history ends.\<close>

theorem drop_overlap_is_longest:
  "dropOverlap history incoming = drop (Max {k. overlaps history incoming k}) incoming"
proof -
  obtain k where k: "dropOverlap history incoming = drop k incoming" "overlaps history incoming k"
    "\<And>j. overlaps history incoming j \<Longrightarrow> j \<le> k"
    by (rule dropOverlap_longest [of history incoming]) blast
  have "finite {k. overlaps history incoming k}"
    by (rule finite_subset [of _ "{..length incoming}"]) (auto dest: overlaps_bound)
  then have "Max {k. overlaps history incoming k} = k" using k(2,3) by (intro Max_eqI) auto
  with k(1) show ?thesis by simp
qed

text \<open>C24: what is sent upstream is the persona, then the end of the history with the new turn
  appended: at most the configured number of messages unless the turn alone is longer.\<close>

theorem assembled_context:
  "assemble maxHistory persona history incoming = persona_messages persona @
     last_n (max (nat maxHistory) (length (dropOverlap history incoming))) (history @ dropOverlap history incoming)"
  by (rule assemble_last_n)

text \<open>The persona is never truncated away, the new turn is never cut, and the size is
  bounded, for every configured cap.\<close>

theorem assembled_bounds:
  "prefix (persona_messages persona) (assemble (svc_maxHistory (NewService repo n)) persona history incoming) \<and>
   suffix (dropOverlap history incoming) (assemble (svc_maxHistory (NewService repo n)) persona history incoming) \<and>
   int (length (assemble (svc_maxHistory (NewService repo n)) persona history incoming)) \<le>
     max (if n \<le> 0 then 40 else n) (int (length (dropOverlap history incoming))) + (if persona \<noteq> [] then 1 else 0)"
proof -
  have m: "svc_maxHistory (NewService repo n) = (if n \<le> 0 then 40 else n)"
    by (simp add: NewService_def defaultMaxHistory_def)
  have "suffix (dropOverlap history incoming) (assemble M persona history incoming)" for M
    by (simp add: assemble_def Let_def suffix_append)
  moreover have "prefix (persona_messages persona) (assemble M persona history incoming)" for M
    by (simp add: assemble_last_n)
  ultimately show ?thesis using length_assemble [of "svc_maxHistory (NewService repo n)" persona history incoming]
    by (simp add: m)
qed

definition sample_conversation :: Conversation where
  "sample_conversation = \<lparr>cv_ID = ''s1'', cv_APIKeyID = ''k1'', cv_Model = ''m'', cv_CreatedAt = 1, cv_UpdatedAt = 1\<rparr>"

definition sample_turn :: "Message list" where
  "sample_turn = [\<lparr>Role = RoleUser, Content = ''Go on''\<rparr>]"

definition sample_answer :: Message where
  "sample_answer = \<lparr>Role = RoleAssistant, Content = ''Hi''\<rparr>"

lemma sample_exchange:
  "is_ok (fst (AssembleContext (NewService repo_ConvRepo 40) ''p'' sample_conversation sample_turn sample_world))"
  "fst (PersistExchange (NewService repo_ConvRepo 40) sample_conversation sample_turn sample_answer sample_world) = Inr ()"
  by code_simp+

text \<open>C7: what was sent upstream is the persona and the end of the conversation with the new part of
  the turn appended, and what is stored afterwards is that part of the turn and the reply, in order, and
  nothing else, provided no other exchange of the session came between. When the clock is past every
  message of the session, its history is then the conversation that was sent, and the reply.\<close>

theorem stored_is_sent:
  fixes w w2 :: "'a conv_db_scheme"
  assumes "AssembleContext (NewService repo_ConvRepo n) p c us w = (Inr out, w1)"
    and "PersistExchange (NewService repo_ConvRepo n) c us a w2 = (Inr (), w3)"
    and "session_history w2 (cv_ID c) = session_history w1 (cv_ID c)"
  shows "let h = toMessages (session_history w (cv_ID c)); new = dropOverlap h us
    in out = persona_messages p @ last_n (max (if n \<le> 0 then 40 else nat n) (length new)) (h @ new) \<and>
       exchange_stored w2 w3 (cv_ID c) (new @ [a]) \<and>
       (settled w2 (cv_ID c) \<longrightarrow> toMessages (session_history w3 (cv_ID c)) = (h @ new) @ [a])"
proof -
  have s: "svc_repo (NewService repo_ConvRepo n) = (repo_ConvRepo :: 'a conv_db_scheme ConvRepo)"
    "svc_maxHistory (NewService repo_ConvRepo n :: 'a conv_db_scheme Service) = (if n \<le> 0 then 40 else n)"
    by (simp_all add: NewService_def defaultMaxHistory_def)
  have h: "session_history w2 (cv_ID c) = session_history w (cv_ID c)"
    using repo_conv.AssembleContext_hist [OF assms(1) s(1)] assms(3) by simp
  have st: "exchange_stored w2 w3 (cv_ID c) (dropOverlap (toMessages (session_history w (cv_ID c))) us @ [a])"
    using PersistExchange_stored [OF assms(2)] h by (simp add: exchange_of_def)
  show ?thesis
    using st exchange_stored_settled [OF st] h repo_conv.AssembleContext_result [OF assms(1) s(1)]
    by (simp add: Let_def assemble_last_n s(2))
qed

theorem stored_is_sent_witness:
  "\<exists>out w3. fst (AssembleContext (NewService repo_ConvRepo 40) ''p'' sample_conversation sample_turn sample_world) = Inr out \<and>
    PersistExchange (NewService repo_ConvRepo 40) sample_conversation sample_turn sample_answer sample_world = (Inr (), w3) \<and>
    exchange_stored sample_world w3 ''s1'' (sample_turn @ [sample_answer]) \<and>
    out = \<lparr>Role = RoleSystem, Content = ''p''\<rparr> # butlast (toMessages (session_history w3 ''s1''))"
proof -
  let ?s = "NewService repo_ConvRepo 40 :: usage_db Service"
  let ?h = "toMessages (session_history sample_world ''s1'')"
  obtain out w1 where a: "AssembleContext ?s ''p'' sample_conversation sample_turn sample_world = (Inr out, w1)"
    using sample_exchange(1) by (auto simp: is_ok_iff prod_eq_iff)
  have h: "session_history w1 = session_history sample_world"
    using repo_conv.AssembleContext_hist [OF a] by (simp add: NewService_def)
  obtain w3 where p: "PersistExchange ?s sample_conversation sample_turn sample_answer sample_world = (Inr (), w3)"
    using sample_exchange(2) by (auto simp: prod_eq_iff)
  have d: "dropOverlap ?h sample_turn = sample_turn" "length (?h @ sample_turn) < 40" by code_simp+
  have id: "cv_ID sample_conversation = ''s1''" by (simp add: sample_conversation_def)
  show ?thesis
    using stored_is_sent [OF a p] h d sample_settled a p
    by (auto simp: id Let_def persona_messages_def last_n_def butlast_append)
qed

section \<open>Audit rows\<close>

text \<open>The detached audit write adds at most one row, and that row has the fields of the record
  and nothing else of the call; its failure only logs.\<close>

theorem audit_write:
  "(gateway_usage (run_task (TaskUsage lg r) w) = gateway_usage w
    \<or> (\<exists>u. gateway_usage (run_task (TaskUsage lg r) w) = gateway_usage w @ [u] \<and> row_of_record r u))
   \<and> length (logs (run_task (TaskUsage lg r) w)) \<le> Suc (length (logs w))"
proof -
  obtain x w' where u: "usage_Record r w = (x, w')" by fastforce
  have "gateway_usage (run_task (TaskUsage lg r) w) = gateway_usage w'"
    by (simp add: u LogAttrs_def log_line_def split: sum.split)
  moreover have "logs (snd (usage_Record r w)) = logs w"
  proof -
    have "snd (usage_Record r w) = snd (pg_exec (insert_usage r) w)"
      by (simp add: usage_Record_def split: prod.split sum.split)
    also have "logs \<dots> = logs w"
      by (rule pg_exec_keeps)
        (simp_all add: insert_usage_def gen_uuid_def pg_now_def now_def Let_def split: option.split)
    finally show ?thesis .
  qed
  ultimately show ?thesis
    using usage_Record_rows(1) [OF u] by (auto simp: u LogAttrs_def log_line_def split: sum.split)
qed

end
