(* ===== verification/Gateway_Auth.thy ===== *)
theory Gateway_Auth
  imports Req_Context Usage
begin

text \<open>
  \<open>backend/internal/gateway/respond.go\<close> (the error contract) and auth.go (the two-key
  middleware). The middleware works over any \<open>credentialStore\<close>: what it guarantees is proved
  in the locale \<open>credential_store\<close> and holds of the database through its interpretation.
\<close>

section \<open>The error contract\<close>

definition errInvalidRequest :: string where "errInvalidRequest = ''invalid_request''"
definition errUnauthorized :: string where "errUnauthorized = ''unauthorized''"
definition errNotFound :: string where "errNotFound = ''not_found''"
definition errRateLimited :: string where "errRateLimited = ''rate_limited''"
definition errUpstream :: string where "errUpstream = ''upstream_error''"
definition errUnavailable :: string where "errUnavailable = ''unavailable''"
definition errInternal :: string where "errInternal = ''internal_error''"

lemmas err_types = errInvalidRequest_def errUnauthorized_def errNotFound_def errRateLimited_def
  errUpstream_def errUnavailable_def errInternal_def

definition statusForError :: "string \<Rightarrow> int" where
  "statusForError errType =
     (if errType = errInvalidRequest then 400
      else if errType = errUnauthorized then 401
      else if errType = errNotFound then 404
      else if errType = errRateLimited then 429
      else if errType = errUpstream then 502
      else if errType = errUnavailable then 503
      else 500)"

definition errorEnvelope :: "string \<Rightarrow> string \<Rightarrow> json" where
  "errorEnvelope errType message = error_json errType message"

definition writeError :: "string \<Rightarrow> string \<Rightarrow> wcall list" where
  "writeError errType message = writeJSON (statusForError errType) (errorEnvelope errType message)"

definition lf :: string where "lf = [char_of_byte 10]"

definition writeSSEError :: "string \<Rightarrow> string \<Rightarrow> wcall list" where
  "writeSSEError errType message =
     [Write (''event: error'' @ lf @ ''data: ''), Write (json_encode (errorEnvelope errType message)), Write (lf @ lf)]"

lemma statusForError_simps [simp]:
  "statusForError errInvalidRequest = 400" "statusForError errUnauthorized = 401"
  "statusForError errNotFound = 404" "statusForError errRateLimited = 429"
  "statusForError errUpstream = 502" "statusForError errUnavailable = 503"
  "statusForError errInternal = 500"
  by (simp_all add: statusForError_def err_types)

lemma status_writeError [simp]: "status_of (writeError t m) = statusForError t"
  by (simp add: writeError_def)

section \<open>Authentication\<close>

definition HeaderKeyID :: string where "HeaderKeyID = ''X-DAB-Key-Id''"
definition HeaderSecret :: string where "HeaderSecret = ''X-DAB-Secret''"

datatype auth_error = errInvalidCredential | auth_store apikey_error

record 'w Authenticator =
  au_store :: "'w credentialStore"
  au_touch :: "string \<Rightarrow> 'w \<Rightarrow> 'w"

text \<open>The detached goroutine of \<open>touchLastUsedAsync\<close>; \<open>run_task\<close> is its body.\<close>

definition touchLastUsedAsync :: "string \<Rightarrow> 'a usage_db_scheme \<Rightarrow> 'a usage_db_scheme" where
  "touchLastUsedAsync i w = spawn (TaskTouch i) w"

definition NewAuthenticator :: "'a usage_db_scheme credentialStore \<Rightarrow> 'a usage_db_scheme Authenticator" where
  "NewAuthenticator store = \<lparr>au_store = store, au_touch = touchLastUsedAsync\<rparr>"

definition gw_authenticate :: "'w Authenticator \<Rightarrow> 'c request \<Rightarrow> 'w \<Rightarrow> (auth_error, Credential) result \<times> 'w" where
  "gw_authenticate a r w =
     (let keyID = TrimSpace (header_get r HeaderKeyID);
          secret = TrimSpace (header_get r HeaderSecret)
      in if keyID = [] \<or> secret = [] then (Inl errInvalidCredential, w)
         else case GetActiveByKeyID (au_store a) keyID w of
           (Inl e, w') \<Rightarrow>
             if e = apikey_ErrNotFound then (let _ = DummyVerify secret in (Inl errInvalidCredential, w'))
             else (Inl (auth_store e), w')
         | (Inr row, w') \<Rightarrow>
             if \<not> VerifySecret secret (ak_SecretHash row) then (Inl errInvalidCredential, w')
             else (Inr \<lparr>crd_ID = ak_ID row, crd_KeyID = ak_KeyID row, crd_Name = ak_Name row,
                        crd_Persona = ak_Persona row, crd_OwnerID = ak_CreatedBy row\<rparr>, w'))"

definition RequireCredential :: "'w Authenticator \<Rightarrow> (ctx, 'w) handler \<Rightarrow> (ctx, 'w) handler" where
  "RequireCredential a next = (\<lambda>r w.
     case gw_authenticate a r w of
       (Inl e, w') \<Rightarrow>
         if e = errInvalidCredential
         then (writeError errUnauthorized ''a valid api key id and secret are required'', Returned, w')
         else (writeError errUnavailable ''could not verify credentials, try again'', Returned, w')
     | (Inr cred, w') \<Rightarrow>
         let w'' = au_touch a (crd_ID cred) w'
         in next (r\<lparr>rq_ctx := withCredential (rq_ctx r) cred\<rparr>) w'')"

section \<open>Over any store\<close>

definition presented_key :: "'c request \<Rightarrow> string" where
  "presented_key r = TrimSpace (header_get r HeaderKeyID)"

definition presented_secret :: "'c request \<Rightarrow> string" where
  "presented_secret r = TrimSpace (header_get r HeaderSecret)"

definition credential_of :: "APIKey \<Rightarrow> Credential" where
  "credential_of k = \<lparr>crd_ID = ak_ID k, crd_KeyID = ak_KeyID k, crd_Name = ak_Name k,
     crd_Persona = ak_Persona k, crd_OwnerID = ak_CreatedBy k\<rparr>"

text \<open>
  The credentials a request presents are those of row \<open>k\<close>, and the row is active: the key id is
  the row's, and the hash the row holds is the digest of the presented secret in hex.
\<close>

definition authentic :: "APIKey list \<Rightarrow> 'c request \<Rightarrow> APIKey \<Rightarrow> bool" where
  "authentic ks r k \<longleftrightarrow> k \<in> set ks \<and> active_with (presented_key r) k \<and> presented_key r \<noteq> []
     \<and> presented_secret r \<noteq> [] \<and> hex_DecodeString (ak_SecretHash k) = Some (sha256_Sum256 (presented_secret r))"

lemma gw_authenticate_cases:
  "gw_authenticate a r w =
     (if presented_key r = [] \<or> presented_secret r = [] then (Inl errInvalidCredential, w)
      else case GetActiveByKeyID (au_store a) (presented_key r) w of
        (Inl e, w') \<Rightarrow> (if e = apikey_ErrNotFound then Inl errInvalidCredential else Inl (auth_store e), w')
      | (Inr row, w') \<Rightarrow>
          (if VerifySecret (presented_secret r) (ak_SecretHash row) then Inr (credential_of row)
           else Inl errInvalidCredential, w'))"
  by (auto simp: gw_authenticate_def presented_key_def presented_secret_def credential_of_def Let_def
      split: prod.split sum.split)

context credential_store
begin

lemma authenticate_sound:
  "gw_authenticate a r w = (Inr c, w') \<Longrightarrow> au_store a = st \<Longrightarrow>
   \<exists>k. authentic (rows w) r k \<and> c = credential_of k"
  using get_active [of "presented_key r" w]
  by (fastforce simp: gw_authenticate_cases authentic_def VerifySecret_iff split: if_splits prod.splits sum.splits)

lemma authenticate_rows: "au_store a = st \<Longrightarrow> rows (snd (gw_authenticate a r w)) = rows w"
  using get_rows [of "presented_key r" w] by (auto simp: gw_authenticate_cases split: prod.splits sum.splits)

lemma authenticate_ready:
  assumes "ready (presented_key r) w" "au_store a = st" "presented_key r \<noteq> []" "presented_secret r \<noteq> []"
  shows "fst (gw_authenticate a r w) =
    (case find (active_with (presented_key r)) (rows w) of
       None \<Rightarrow> Inl errInvalidCredential
     | Some k \<Rightarrow> if VerifySecret (presented_secret r) (ak_SecretHash k) then Inr (credential_of k)
                 else Inl errInvalidCredential)"
  using get_ready [OF assms(1)] assms(2-4)
  by (auto simp: gw_authenticate_cases split: prod.splits option.splits)

text \<open>The handler behind the middleware runs only for an authentic request.\<close>

lemma RequireCredential_guards:
  assumes "au_store a = st" "\<And>k. \<not> authentic (rows w) r k"
  shows "RequireCredential a h r w = RequireCredential a h' r w"
    "status_of (calls_of (RequireCredential a h r w)) \<in> {401, 503}"
    "rows (world_of (RequireCredential a h r w)) = rows w"
proof -
  obtain e w' where e: "gw_authenticate a r w = (Inl e, w')"
    using authenticate_sound [of a r w] assms by (cases "gw_authenticate a r w"; cases "fst (gw_authenticate a r w)") auto
  then show "RequireCredential a h r w = RequireCredential a h' r w"
    "status_of (calls_of (RequireCredential a h r w)) \<in> {401, 503}"
    by (simp_all add: RequireCredential_def)
  show "rows (world_of (RequireCredential a h r w)) = rows w"
    using authenticate_rows [OF assms(1), of r w] e by (simp add: RequireCredential_def)
qed

end

section \<open>Over the database\<close>

lemma find_active_unique:
  assumes "ids_unique ks" "k \<in> set ks" "active_with kid k"
  shows "find (active_with kid) ks = Some k"
proof (cases "find (active_with kid) ks")
  case None
  then show ?thesis using assms(2,3) by (auto dest: find_NoneD)
next
  case (Some k')
  then have "k' \<in> set ks" "ak_KeyID k' = ak_KeyID k"
    using assms(3) by (auto simp: active_with_def dest: find_SomeD)
  then have "k' = k"
    using assms(1,2) by (auto simp: ids_unique_def distinct_map inj_on_def)
  then show ?thesis by (simp add: Some)
qed

lemma store_NewAuthenticator [simp]:
  "au_store (NewAuthenticator st) = st" "au_touch (NewAuthenticator st) = touchLastUsedAsync"
  by (simp_all add: NewAuthenticator_def)

end
