(* ===== verification/Gateway_Chat.thy ===== *)
theory Gateway_Chat
  imports Gateway_Auth Gatewaycore Vllm
begin

text \<open>
  \<open>backend/internal/gateway/chat.go\<close>: validation of a chat request, resolution of its
  session, assembly of the upstream context, the non-streaming call, and the audit of every
  accepted call. The handler works over any core, upstream client and recorder; a function of
  the source that writes a response returns the calls it makes on the response writer.
\<close>

definition GatewayChatPath :: string where "GatewayChatPath = ''/v1/gateway/chat''"
definition maxChatBody :: int where "maxChatBody = 1048576"

section \<open>Request and response bodies\<close>

record chatMessage =
  cm_Role :: string
  cm_Content :: string

record chatRequestBody =
  rb_SessionID :: string
  rb_Model :: string
  rb_Message :: string
  rb_Messages :: "chatMessage list"
  rb_Stream :: bool
  rb_Temperature :: "float64 option"
  rb_TopP :: "float64 option"
  rb_MaxTokens :: "int option"
  rb_Stop :: "string list"

definition zero_request :: chatRequestBody where
  "zero_request = \<lparr>rb_SessionID = [], rb_Model = [], rb_Message = [], rb_Messages = [], rb_Stream = False,
     rb_Temperature = None, rb_TopP = None, rb_MaxTokens = None, rb_Stop = []\<rparr>"

definition dec_float :: "(string \<Rightarrow> float64 option) \<Rightarrow> json \<Rightarrow> float64 \<Rightarrow> float64 option" where
  "dec_float pf v old = (case v of JNull \<Rightarrow> Some old | JNum t \<Rightarrow> pf t | _ \<Rightarrow> None)"

definition chat_message_schema :: "chatMessage field list" where
  "chat_message_schema =
     [(''role'', dec_string (\<lambda>s m. m\<lparr>cm_Role := s\<rparr>)), (''content'', dec_string (\<lambda>s m. m\<lparr>cm_Content := s\<rparr>))]"

definition chat_request_schema :: "(string \<Rightarrow> float64 option) \<Rightarrow> chatRequestBody field list" where
  "chat_request_schema pf =
     [(''session_id'', dec_string (\<lambda>s b. b\<lparr>rb_SessionID := s\<rparr>)),
      (''model'', dec_string (\<lambda>s b. b\<lparr>rb_Model := s\<rparr>)),
      (''message'', dec_string (\<lambda>s b. b\<lparr>rb_Message := s\<rparr>)),
      (''messages'', dec_slice (decode_struct True chat_message_schema) \<lparr>cm_Role = [], cm_Content = []\<rparr>
         rb_Messages (\<lambda>ms b. b\<lparr>rb_Messages := ms\<rparr>)),
      (''stream'', dec_bool (\<lambda>x b. b\<lparr>rb_Stream := x\<rparr>)),
      (''temperature'', dec_ptr (dec_float pf) 0 rb_Temperature (\<lambda>x b. b\<lparr>rb_Temperature := x\<rparr>)),
      (''top_p'', dec_ptr (dec_float pf) 0 rb_TopP (\<lambda>x b. b\<lparr>rb_TopP := x\<rparr>)),
      (''max_tokens'', dec_ptr (dec_int (\<lambda>i _. i)) 0 rb_MaxTokens (\<lambda>x b. b\<lparr>rb_MaxTokens := x\<rparr>)),
      (''stop'', dec_slice (dec_string (\<lambda>s _. s)) [] rb_Stop (\<lambda>x b. b\<lparr>rb_Stop := x\<rparr>))]"

text \<open>\<open>MaxBytesReader\<close>, \<open>DisallowUnknownFields\<close>, \<open>Decode\<close>.\<close>

definition decode_request :: "(string \<Rightarrow> float64 option) \<Rightarrow> string \<Rightarrow> (body_error, chatRequestBody) result" where
  "decode_request pf body =
     (case json_decode_limited maxChatBody body of
        Inl e \<Rightarrow> Inl e
      | Inr v \<Rightarrow>
          (case decode_struct True (chat_request_schema pf) v zero_request of
             None \<Rightarrow> Inl BodyInvalid
           | Some req \<Rightarrow> Inr req))"

definition usage_json :: "vllm_Usage \<Rightarrow> json" where
  "usage_json u = JObj [(''prompt_tokens'', json_int (vu_PromptTokens u)),
     (''completion_tokens'', json_int (vu_CompletionTokens u)), (''total_tokens'', json_int (vu_TotalTokens u))]"

definition chat_response_json :: "string \<Rightarrow> string \<Rightarrow> Message \<Rightarrow> vllm_Usage option \<Rightarrow> json" where
  "chat_response_json sid model m u = JObj (
     [(''session_id'', JStr sid), (''model'', JStr model),
      (''message'', JObj [(''role'', JStr (Role m)), (''content'', JStr (Content m))])]
     @ omitempty (u \<noteq> None) ''usage'' (json_opt usage_json u))"

section \<open>Preparation of a turn\<close>

record 'w ChatHandler =
  h_core :: "'w Service"
  h_upstream :: "'w upstreamClient"
  h_usage :: "'w Recorder option"

definition NewChatHandler :: "'w Service \<Rightarrow> 'w upstreamClient \<Rightarrow> 'w Recorder option \<Rightarrow> 'w ChatHandler" where
  "NewChatHandler core up recorder = \<lparr>h_core = core, h_upstream = up, h_usage = recorder\<rparr>"

record preparedTurn =
  pt_cred :: Credential
  pt_conv :: Conversation
  pt_incoming :: "Message list"
  pt_assembled :: "Message list"
  pt_effModel :: string
  pt_req :: chatRequestBody
  pt_start :: int

definition bad_role_message :: string where
  "bad_role_message = ''each message role must be '' @ [CHR 0x27] @ ''user'' @ [CHR 0x27] @ '' or '' @ [CHR 0x27]
     @ ''assistant'' @ [CHR 0x27]"

text \<open>The loop over explicit messages: the first bad one ends it with its error.\<close>

fun parse_messages :: "chatMessage list \<Rightarrow> (wcall list, Message list) result" where
  "parse_messages [] = Inr []"
| "parse_messages (m # ms) =
     (let role = TrimSpace (cm_Role m)
      in if role \<noteq> RoleUser \<and> role \<noteq> RoleAssistant
         then Inl (writeError errInvalidRequest bad_role_message)
         else if TrimSpace (cm_Content m) = []
         then Inl (writeError errInvalidRequest ''each message must have non-empty content'')
         else case parse_messages ms of
           Inl e \<Rightarrow> Inl e
         | Inr out \<Rightarrow> Inr (\<lparr>Role = role, Content = cm_Content m\<rparr> # out))"

definition parseIncoming :: "chatRequestBody \<Rightarrow> (wcall list, Message list) result" where
  "parseIncoming req =
     (if rb_Messages req \<noteq> [] then parse_messages (rb_Messages req)
      else if TrimSpace (rb_Message req) \<noteq> [] then Inr [\<lparr>Role = RoleUser, Content = rb_Message req\<rparr>]
      else Inl (writeError errInvalidRequest ''a message or a non-empty messages array is required''))"

text \<open>From a validated request to a session and the assembled context.\<close>

definition prepare_session :: "'w ChatHandler \<Rightarrow> Credential \<Rightarrow> chatRequestBody \<Rightarrow> Message list \<Rightarrow> 'w
    \<Rightarrow> (wcall list, preparedTurn) result \<times> 'w" where
  "prepare_session h cred req incoming w =
     (let sessionID = TrimSpace (rb_SessionID req);
          model = TrimSpace (rb_Model req)
      in if sessionID = [] \<and> model = []
         then (Inl (writeError errInvalidRequest ''model is required for a new conversation''), w)
         else case Resolve (h_core h) (crd_ID cred) sessionID model w of
           (Inl e, w1) \<Rightarrow>
             if e = conversation_ErrNotFound then (Inl (writeError errNotFound ''session not found''), w1)
             else (Inl (writeError errUnavailable ''could not load the conversation''), w1)
         | (Inr conv, w1) \<Rightarrow>
             (let effModel = (if model = [] then cv_Model conv else model)
              in if effModel = [] then (Inl (writeError errInvalidRequest ''model is required''), w1)
                 else let persona = (case crd_Persona cred of None \<Rightarrow> [] | Some p \<Rightarrow> p)
                 in case AssembleContext (h_core h) persona conv incoming w1 of
                   (Inl e, w2) \<Rightarrow> (Inl (writeError errUnavailable ''could not assemble context''), w2)
                 | (Inr assembled, w2) \<Rightarrow>
                     (Inr \<lparr>pt_cred = cred, pt_conv = conv, pt_incoming = incoming, pt_assembled = assembled,
                          pt_effModel = effModel, pt_req = req, pt_start = 0\<rparr>, w2)))"

definition prepareTurn :: "'a env_scheme ChatHandler \<Rightarrow> ctx request \<Rightarrow> 'a env_scheme
    \<Rightarrow> (wcall list, preparedTurn) result \<times> 'a env_scheme" where
  "prepareTurn h r w =
     (case CredentialFromContext (rq_ctx r) of
        None \<Rightarrow> (Inl (writeError errUnauthorized ''authentication required''), w)
      | Some cred \<Rightarrow>
          (case decode_request (parse_float w) (rq_body r) of
             Inl BodyTooLarge \<Rightarrow> (Inl (writeError errInvalidRequest ''request body too large''), w)
           | Inl BodyInvalid \<Rightarrow>
               (Inl (writeError errInvalidRequest ''request body is not valid JSON or contains unknown fields''), w)
           | Inr req \<Rightarrow>
               (case parseIncoming req of
                  Inl e \<Rightarrow> (Inl e, w)
                | Inr incoming \<Rightarrow> prepare_session h cred req incoming w)))"

section \<open>Audit\<close>

definition outcomeSuccess :: string where "outcomeSuccess = ''success''"
definition outcomeUpstreamError :: string where "outcomeUpstreamError = ''upstream_error''"
definition outcomePersistError :: string where "outcomePersistError = ''persist_error''"
definition outcomeClientDisconnect :: string where "outcomeClientDisconnect = ''client_disconnect''"
definition outcomeInternalError :: string where "outcomeInternalError = ''internal_error''"

definition usageRecord :: "preparedTurn \<Rightarrow> string \<Rightarrow> int option \<Rightarrow> int option \<Rightarrow> int option \<Rightarrow> 'a env_scheme
    \<Rightarrow> UsageRecord \<times> 'a env_scheme" where
  "usageRecord p outcome upstreamStatus promptTokens completionTokens w =
     (case now w of (t, w') \<Rightarrow>
        (\<lparr>ur_APIKeyID = crd_ID (pt_cred p), ur_ConversationID = cv_ID (pt_conv p), ur_Model = pt_effModel p,
          ur_Stream = rb_Stream (pt_req p), ur_PromptMsgCount = int (length (pt_assembled p)),
          ur_PromptTokenCount = promptTokens, ur_CompletionTokenCount = completionTokens,
          ur_UpstreamStatus = upstreamStatus, ur_Outcome = outcome,
          ur_LatencyMS = trunc_div (t - pt_start p) 1000000\<rparr>, w'))"

definition finish :: "'a env_scheme ChatHandler \<Rightarrow> ctx request \<Rightarrow> UsageRecord \<Rightarrow> nat \<Rightarrow> 'a env_scheme \<Rightarrow> 'a env_scheme" where
  "finish h r rec chunkCount w =
     (let w' = (case h_usage h of None \<Rightarrow> w | Some record \<Rightarrow> snd (record rec w))
      in LogAttrs (FromContext (rq_ctx r) w') LevelInfo ''gateway call''
           [(''api_key_id'', LStr (ur_APIKeyID rec)), (''conversation_id'', LStr (ur_ConversationID rec)),
            (''model'', LStr (ur_Model rec)), (''stream'', LBool (ur_Stream rec)),
            (''outcome'', LStr (ur_Outcome rec)), (''prompt_msg_count'', LInt (ur_PromptMsgCount rec)),
            (''chunk_count'', LInt (int chunkCount)), (''latency_ms'', LInt (ur_LatencyMS rec))] w')"

text \<open>The pair of calls that ends every accepted request.\<close>

definition audit :: "'a env_scheme ChatHandler \<Rightarrow> ctx request \<Rightarrow> preparedTurn \<Rightarrow> string \<Rightarrow> int option \<Rightarrow> int option
    \<Rightarrow> int option \<Rightarrow> nat \<Rightarrow> 'a env_scheme \<Rightarrow> 'a env_scheme" where
  "audit h r p outcome st pt ct chunks w =
     (case usageRecord p outcome st pt ct w of (rec, w') \<Rightarrow> finish h r rec chunks w')"

section \<open>The non-streaming path\<close>

definition toVLLMMessages :: "Message list \<Rightarrow> vllm_Message list" where
  "toVLLMMessages msgs = map (\<lambda>m. \<lparr>vm_Role = Role m, vm_Content = Content m\<rparr>) msgs"

definition upstreamStatusOf :: "vllm_error \<Rightarrow> int option" where
  "upstreamStatusOf e = (case e of UpstreamError st _ \<Rightarrow> Some st | _ \<Rightarrow> None)"

definition tokenCounts :: "vllm_Usage option \<Rightarrow> int option \<times> int option" where
  "tokenCounts u =
     (case u of None \<Rightarrow> (None, None) | Some u \<Rightarrow> (Some (vu_PromptTokens u), Some (vu_CompletionTokens u)))"

definition upstream_request :: "preparedTurn \<Rightarrow> ChatRequest" where
  "upstream_request p = \<lparr>vq_Model = pt_effModel p, vq_Messages = toVLLMMessages (pt_assembled p), vq_Stream = False,
     vq_Temperature = rb_Temperature (pt_req p), vq_TopP = rb_TopP (pt_req p),
     vq_MaxTokens = rb_MaxTokens (pt_req p), vq_Stop = rb_Stop (pt_req p)\<rparr>"

definition completeChat :: "'a env_scheme ChatHandler \<Rightarrow> ctx request \<Rightarrow> preparedTurn \<Rightarrow> 'a env_scheme
    \<Rightarrow> wcall list \<times> 'a env_scheme" where
  "completeChat h r p w =
     (case up_Complete (h_upstream h) (upstream_request p) w of
        (Inl e, w1) \<Rightarrow>
          (writeError errUpstream ''the model backend could not complete the request'',
           audit h r p outcomeUpstreamError (upstreamStatusOf e) None None 0 w1)
      | (Inr resp, w1) \<Rightarrow>
          (case vr_Choices resp of
             [] \<Rightarrow>
               (writeError errUpstream ''the model backend returned no completion'',
                audit h r p outcomeUpstreamError (Some 200) None None 0 w1)
           | choice # _ \<Rightarrow>
               (case tokenCounts (vr_Usage resp) of (promptTokens, completionTokens) \<Rightarrow>
                 (let assistant = \<lparr>Role = RoleAssistant, Content = vm_Content (ch_Message choice)\<rparr>
                  in case PersistExchange (h_core h) (pt_conv p) (pt_incoming p) assistant w1 of
                    (Inl _, w2) \<Rightarrow>
                      (writeError errInternal ''could not save the conversation'',
                       audit h r p outcomePersistError (Some 200) promptTokens completionTokens 0 w2)
                  | (Inr _, w2) \<Rightarrow>
                      (writeJSON 200 (chat_response_json (cv_ID (pt_conv p)) (pt_effModel p) assistant (vr_Usage resp)),
                       audit h r p outcomeSuccess (Some 200) promptTokens completionTokens 0 w2)))))"

section \<open>What validation accepts\<close>

lemma parse_messages_turns:
  "parse_messages ms = Inr out \<Longrightarrow>
   \<forall>m \<in> set out. turn_role (Role m) \<and> TrimSpace (Content m) \<noteq> []"
  by (induction ms arbitrary: out) (auto simp: Let_def turn_role_def split: if_splits sum.splits)

lemma parse_messages_length: "parse_messages ms = Inr out \<Longrightarrow> length out = length ms"
  by (induction ms arbitrary: out) (auto simp: Let_def split: if_splits sum.splits)

lemma parseIncoming_turns:
  "parseIncoming req = Inr out \<Longrightarrow> out \<noteq> [] \<and> (\<forall>m \<in> set out. turn_role (Role m) \<and> TrimSpace (Content m) \<noteq> [])"
  using parse_messages_turns [of "rb_Messages req" out] parse_messages_length [of "rb_Messages req" out]
  by (auto simp: parseIncoming_def turn_role_def split: if_splits)

lemma parse_messages_error: "parse_messages ms = Inl e \<Longrightarrow> \<exists>m. e = writeError errInvalidRequest m"
  by (induction ms arbitrary: e) (auto simp: Let_def split: if_splits sum.splits)

lemma parseIncoming_error: "parseIncoming req = Inl e \<Longrightarrow> \<exists>m. e = writeError errInvalidRequest m"
  by (auto simp: parseIncoming_def dest: parse_messages_error split: if_splits)

end
