(* ===== verification/Gateway_Stream.thy ===== *)
theory Gateway_Stream
  imports Gateway_Chat
begin

text \<open>
  \<open>backend/internal/gateway/stream.go\<close>: the SSE path, and \<open>Chat\<close> of chat.go, which
  dispatches to one of the two paths. The relay reads the upstream body line by line, passes
  the bytes through, flushes after every write and rebuilds the reply from the data frames.
  The body is the bytes it will deliver; the context is asked whether it is cancelled once in
  the relay (\<open>rq_ctxerr r 0\<close>) and once after it (\<open>rq_ctxerr r 1\<close>).
\<close>

definition HeaderSessionID :: string where "HeaderSessionID = ''X-DAB-Session-Id''"
definition sseDonePayload :: string where "sseDonePayload = ''[DONE]''"

section \<open>Frames\<close>

definition newline :: char where "newline = char_of_byte 10"
definition carriage :: char where "carriage = char_of_byte 13"

definition data_prefix :: string where "data_prefix = ''data:''"

definition sseData :: "string \<Rightarrow> string option" where
  "sseData line =
     (let s = TrimRight line [carriage, newline]
      in if \<not> HasPrefix s data_prefix then None
         else Some (TrimSpace (drop (length data_prefix) s)))"

text \<open>The anonymous struct of a chunk: choices, each with a delta with a content.\<close>

definition delta_schema :: "string field list" where
  "delta_schema = [(''content'', dec_string (\<lambda>s _. s))]"

definition chunk_choice_schema :: "string field list" where
  "chunk_choice_schema = [(''delta'', decode_struct False delta_schema)]"

definition chunk_schema :: "string list field list" where
  "chunk_schema = [(''choices'', dec_slice (decode_struct False chunk_choice_schema) [] (\<lambda>cs. cs) (\<lambda>cs _. cs))]"

definition deltaContent :: "string \<Rightarrow> string" where
  "deltaContent payload =
     (case json_unmarshal payload of
        None \<Rightarrow> []
      | Some v \<Rightarrow>
          (case decode_struct False chunk_schema v [] of
             None \<Rightarrow> []
           | Some [] \<Rightarrow> []
           | Some (c # _) \<Rightarrow> c))"

definition writeSSESession :: "string \<Rightarrow> wcall list" where
  "writeSSESession sessionID =
     [Write (''event: session'' @ lf @ ''data: ''), Write (json_encode (JObj [(''session_id'', JStr sessionID)])),
      Write (lf @ lf)]"

section \<open>The relay\<close>

text \<open>\<open>ReadBytes('\n')\<close>: the line with its newline, or what is left and an error; the rest.\<close>

definition ReadBytes :: "string \<Rightarrow> string \<times> bool \<times> string" where
  "ReadBytes body =
     (if newline \<in> set body
      then (takeWhile (\<lambda>c. c \<noteq> newline) body @ [newline], False, tl (dropWhile (\<lambda>c. c \<noteq> newline) body))
      else (body, True, []))"

lemma ReadBytes_rest: "ReadBytes body = (line, False, rest) \<Longrightarrow> body = line @ rest \<and> length rest < length body"
proof -
  assume r: "ReadBytes body = (line, False, rest)"
  then have n: "newline \<in> set body" by (auto simp: ReadBytes_def split: if_splits)
  then have d: "dropWhile (\<lambda>c. c \<noteq> newline) body \<noteq> []" by (auto simp: dropWhile_eq_Nil_conv)
  then have "hd (dropWhile (\<lambda>c. c \<noteq> newline) body) = newline"
    using hd_dropWhile [of "\<lambda>c. c \<noteq> newline" body] by blast
  with d obtain t where t: "dropWhile (\<lambda>c. c \<noteq> newline) body = newline # t"
    by (cases "dropWhile (\<lambda>c. c \<noteq> newline) body") auto
  have body: "takeWhile (\<lambda>c. c \<noteq> newline) body @ newline # t = body"
    using takeWhile_dropWhile_id [of "\<lambda>c. c \<noteq> newline" body] by (simp add: t)
  from r n t have lr: "line = takeWhile (\<lambda>c. c \<noteq> newline) body @ [newline]" "rest = t"
    by (simp_all add: ReadBytes_def)
  have eq: "line @ rest = body" unfolding lr append_assoc append_Cons append_Nil by (rule body)
  have "0 < length line" unfolding lr by simp
  moreover have "length body = length line + length rest" using arg_cong [OF eq, of length] by simp
  ultimately show ?thesis using eq by simp
qed

text \<open>What is written for one line: the bytes, an end for a broken frame, a flush.\<close>

definition relay_writes :: "string \<Rightarrow> wcall list" where
  "relay_writes line =
     (if line = [] then []
      else [Write line] @ (if last line \<noteq> newline then [Write (lf @ lf)] else []) @ [Flush])"

text \<open>The end of a stream without \<open>[DONE]\<close>: an error frame unless the client is gone.\<close>

definition relay_broken :: "bool \<Rightarrow> wcall list" where
  "relay_broken cancelled =
     (if cancelled then []
      else writeSSEError errUpstream ''the model backend ended the stream unexpectedly'' @ [Flush])"

function relayStream :: "bool \<Rightarrow> string \<Rightarrow> string \<Rightarrow> nat \<Rightarrow> wcall list \<times> Message \<times> bool \<times> nat" where
  "relayStream cancelled body content chunks =
     (case ReadBytes body of (line, err, rest) \<Rightarrow>
        (let out = relay_writes line;
             payload = (if line = [] then None else sseData line);
             done = (payload = Some sseDonePayload);
             chunks' = (if payload = None then chunks else Suc chunks);
             content' = (case payload of None \<Rightarrow> content | Some d \<Rightarrow> content @ deltaContent d)
         in if done then (out, \<lparr>Role = RoleAssistant, Content = content\<rparr>, True, chunks)
            else if err then (out @ relay_broken cancelled, \<lparr>Role = [], Content = []\<rparr>, False, chunks')
            else case relayStream cancelled rest content' chunks' of
              (out', res) \<Rightarrow> (out @ out', res)))"
  by pat_completeness auto
termination
  by (relation "measure (\<lambda>(_, body, _, _). length body)") (auto dest: ReadBytes_rest sym)

declare relayStream.simps [simp del]

section \<open>The streaming path\<close>

definition stream_headers :: "string \<Rightarrow> wcall list" where
  "stream_headers sid =
     [SetHeader ''Content-Type'' ''text/event-stream'', SetHeader ''Cache-Control'' ''no-cache'',
      SetHeader ''Connection'' ''keep-alive'', SetHeader ''X-Accel-Buffering'' ''no'',
      SetHeader HeaderSessionID sid, WriteHeader 200] @ writeSSESession sid @ [Flush]"

definition streamChat :: "'a env_scheme ChatHandler \<Rightarrow> ctx request \<Rightarrow> preparedTurn \<Rightarrow> 'a env_scheme
    \<Rightarrow> wcall list \<times> 'a env_scheme" where
  "streamChat h r p w =
     (if \<not> rq_flusher r
      then (writeError errInternal ''streaming is not supported by the server'',
            audit h r p outcomeInternalError None None None 0 w)
      else case up_Stream (h_upstream h) (upstream_request p) w of
        (Inl e, w1) \<Rightarrow>
          (writeError errUpstream ''the model backend could not start the stream'',
           audit h r p outcomeUpstreamError (upstreamStatusOf e) None None 0 w1)
      | (Inr stream, w1) \<Rightarrow>
          (let head = stream_headers (cv_ID (pt_conv p))
           in case relayStream (rq_ctxerr r 0) (sr_Body stream) [] 0 of (out, assistant, completed, chunks) \<Rightarrow>
             if \<not> completed
             then (head @ out,
                   audit h r p (if rq_ctxerr r 1 then outcomeClientDisconnect else outcomeUpstreamError)
                     (Some 200) None None chunks w1)
             else case PersistExchange (h_core h) (pt_conv p) (pt_incoming p) assistant w1 of
               (Inl _, w2) \<Rightarrow>
                 (head @ out @ writeSSEError errInternal ''the reply was delivered but could not be saved'' @ [Flush],
                  audit h r p outcomePersistError (Some 200) None None chunks w2)
             | (Inr _, w2) \<Rightarrow>
                 (head @ out, audit h r p outcomeSuccess (Some 200) None None chunks w2)))"

section \<open>The endpoint\<close>

definition Chat :: "'a env_scheme ChatHandler \<Rightarrow> (ctx, 'a env_scheme) handler" where
  "Chat h = (\<lambda>r w.
     case now w of (start, w0) \<Rightarrow>
       (case prepareTurn h r w0 of
          (Inl out, w1) \<Rightarrow> (out, Returned, w1)
        | (Inr p, w1) \<Rightarrow>
            (let p' = p\<lparr>pt_start := start\<rparr>;
                 (out, w2) = (if rb_Stream (pt_req p') then streamChat h r p' w1 else completeChat h r p' w1)
             in (out, Returned, w2))))"

text \<open>The route of \<open>RegisterChatRoutes\<close>, behind the two-key middleware.\<close>

definition gateway_endpoint :: "'a env_scheme Authenticator \<Rightarrow> 'a env_scheme ChatHandler \<Rightarrow> (ctx, 'a env_scheme) handler" where
  "gateway_endpoint authn h = RequireCredential authn (Chat h)"

end
