(* ===== verification/Gateway.thy ===== *)
theory Gateway
  imports Gateway_Stream
begin

text \<open>
  The public endpoint as \<open>app.go\<close> wires it: the two-key middleware over the key repository,
  the chat handler over the database core, the upstream client and the asynchronous recorder.
  The lemmas say what a call may do to the world on each path (upstream call, exchange, audit)
  and are shared by the properties at the end.
\<close>

definition db_core :: "int \<Rightarrow> 'a usage_db_scheme Service" where
  "db_core n = NewService repo_ConvRepo n"

definition db_handler :: "int \<Rightarrow> Client \<Rightarrow> Logger \<Rightarrow> 'a usage_db_scheme ChatHandler" where
  "db_handler n c lg = NewChatHandler (db_core n) (Client_upstream c) (Some (Async lg))"

definition gateway :: "int \<Rightarrow> Client \<Rightarrow> Logger \<Rightarrow> (ctx, 'a usage_db_scheme) handler" where
  "gateway n c lg = gateway_endpoint (NewAuthenticator repo_credentialStore) (db_handler n c lg)"

lemma db_handler_simps [simp]:
  "h_core (db_handler n c lg) = db_core n" "h_upstream (db_handler n c lg) = Client_upstream c"
  "h_usage (db_handler n c lg) = Some (Async lg)" "svc_repo (db_core n) = repo_ConvRepo"
  by (simp_all add: db_handler_def NewChatHandler_def db_core_def NewService_def)

lemma Client_upstream_simps [simp]:
  "up_Complete (Client_upstream c) = Complete c" "up_Stream (Client_upstream c) = vllm_Stream c"
  by (simp_all add: Client_upstream_def)

section \<open>What an audit changes\<close>

text \<open>Clock, logs and spawned goroutines.\<close>

definition bookkeeping :: "'a usage_db_scheme \<Rightarrow> 'a usage_db_scheme \<Rightarrow> bool" where
  "bookkeeping w w' \<longleftrightarrow> w' = w\<lparr>clock := clock w', ticks := ticks w', logs := logs w', tasks := tasks w'\<rparr>"

lemma bookkeeping_refl [simp]: "bookkeeping w w"
  by (simp add: bookkeeping_def)

lemma bookkeepingI: "w' = w\<lparr>clock := t, ticks := ts, logs := l, tasks := k\<rparr> \<Longrightarrow> bookkeeping w w'"
  by (simp add: bookkeeping_def)

lemma bookkeeping_trans: "bookkeeping a b \<Longrightarrow> bookkeeping b c \<Longrightarrow> bookkeeping a c"
proof -
  assume ab: "bookkeeping a b" and bc: "bookkeeping b c"
  have "c = b\<lparr>clock := clock c, ticks := ticks c, logs := logs c, tasks := tasks c\<rparr>"
    using bc by (simp add: bookkeeping_def)
  also have "\<dots> = a\<lparr>clock := clock c, ticks := ticks c, logs := logs c, tasks := tasks c\<rparr>"
    by (subst ab [unfolded bookkeeping_def]) simp
  finally show ?thesis by (rule bookkeepingI)
qed

lemma bookkeeping_now: "bookkeeping w (snd (now w))"
  by (rule bookkeepingI [where l = "logs w" and k = "tasks w"]) (simp add: now_def Let_def)

lemma bookkeeping_log: "bookkeeping w (LogAttrs lg lvl m as w)"
  by (simp add: LogAttrs_def log_line_def bookkeeping_def)

lemma bookkeeping_spawn: "bookkeeping w (spawn t w)"
  by (simp add: spawn_def bookkeeping_def)

lemma audit_eq:
  "audit (db_handler n c lg) r p out st pt ct k w =
    (case usageRecord p out st pt ct w of (rec, w') \<Rightarrow>
       LogAttrs (FromContext (rq_ctx r) w') LevelInfo ''gateway call''
         [(''api_key_id'', LStr (ur_APIKeyID rec)), (''conversation_id'', LStr (ur_ConversationID rec)),
          (''model'', LStr (ur_Model rec)), (''stream'', LBool (ur_Stream rec)),
          (''outcome'', LStr (ur_Outcome rec)), (''prompt_msg_count'', LInt (ur_PromptMsgCount rec)),
          (''chunk_count'', LInt (int k)), (''latency_ms'', LInt (ur_LatencyMS rec))]
         (spawn (TaskUsage lg rec) w'))"
  by (simp add: audit_def finish_def Async_def spawn_def FromContext_def Let_def split: prod.split option.split)

lemma audit_bookkeeping: "bookkeeping w (audit (db_handler n c lg) r p out st pt ct k w)"
proof -
  have "bookkeeping w (snd (usageRecord p out st pt ct w))"
    using bookkeeping_now [of w] by (cases "now w") (simp add: usageRecord_def)
  then show ?thesis
    unfolding audit_eq
    by (cases "usageRecord p out st pt ct w")
      (auto intro!: bookkeeping_trans [OF _ bookkeeping_log] bookkeeping_trans [OF _ bookkeeping_spawn])
qed

text \<open>One audit of a turn, whatever its outcome and counts.\<close>

definition audited :: "int \<Rightarrow> Client \<Rightarrow> Logger \<Rightarrow> ctx request \<Rightarrow> preparedTurn \<Rightarrow> 'a usage_db_scheme \<Rightarrow> 'a usage_db_scheme \<Rightarrow> bool" where
  "audited n c lg r p u v \<longleftrightarrow> (\<exists>out st pt ct k. v = audit (db_handler n c lg) r p out st pt ct k u)"

lemma auditedI: "audited n c lg r p u (audit (db_handler n c lg) r p out st pt ct k u)"
  unfolding audited_def by blast

lemma audited_bookkeeping: "audited n c lg r p u v \<Longrightarrow> bookkeeping u v"
  by (auto simp: audited_def audit_bookkeeping)

text \<open>A path after its upstream call: at most one exchange of an assistant's reply, an audit.\<close>

definition path_after :: "int \<Rightarrow> Client \<Rightarrow> Logger \<Rightarrow> ctx request \<Rightarrow> preparedTurn \<Rightarrow> 'a usage_db_scheme \<Rightarrow> 'a usage_db_scheme \<Rightarrow> bool" where
  "path_after n c lg r p w v \<longleftrightarrow> (\<exists>u. audited n c lg r p u v \<and>
     (u = w \<or> (\<exists>a x. Role a = RoleAssistant \<and> PersistExchange (db_core n) (pt_conv p) (pt_incoming p) a w = (x, u))))"

lemma path_afterI: "audited n c lg r p w v \<Longrightarrow> path_after n c lg r p w v"
  unfolding path_after_def by blast

lemma path_after_exchangeI:
  "PersistExchange (db_core n) (pt_conv p) (pt_incoming p) a w = (x, u) \<Longrightarrow> Role a = RoleAssistant \<Longrightarrow>
   audited n c lg r p u v \<Longrightarrow> path_after n c lg r p w v"
  unfolding path_after_def by blast

lemma completeChat_after:
  "path_after n c lg r p (snd (Complete c (upstream_request p) w)) (snd (completeChat (db_handler n c lg) r p w))"
proof -
  obtain x w1 where c: "Complete c (upstream_request p) w = (x, w1)" by fastforce
  show ?thesis
  proof (cases "\<exists>resp ch cs. x = Inr resp \<and> vr_Choices resp = ch # cs")
    case False
    then have "audited n c lg r p w1 (snd (completeChat (db_handler n c lg) r p w))"
      by (auto simp: completeChat_def c auditedI split: sum.split list.split)
    then show ?thesis by (simp add: c path_afterI)
  next
    case True
    then obtain resp ch cs where r: "x = Inr resp" "vr_Choices resp = ch # cs" by blast
    let ?a = "\<lparr>Role = RoleAssistant, Content = vm_Content (ch_Message ch)\<rparr>"
    obtain y w2 where pe: "PersistExchange (db_core n) (pt_conv p) (pt_incoming p) ?a w1 = (y, w2)" by fastforce
    have "audited n c lg r p w2 (snd (completeChat (db_handler n c lg) r p w))"
      by (auto simp: completeChat_def c r pe auditedI Let_def split: sum.split prod.split)
    with path_after_exchangeI [OF pe] show ?thesis by (simp add: c)
  qed
qed

lemma relayStream_role: "relayStream cancelled body content k = (out, a, True, k') \<Longrightarrow> Role a = RoleAssistant"
  by (induction cancelled body content k arbitrary: out rule: relayStream.induct)
    (subst (asm) (2) relayStream.simps, auto simp: Let_def split: prod.splits if_splits)

lemma streamChat_after:
  "path_after n c lg r p (if rq_flusher r then snd (vllm_Stream c (upstream_request p) w) else w)
     (snd (streamChat (db_handler n c lg) r p w))"
proof (cases "rq_flusher r")
  case False
  then show ?thesis by (simp add: streamChat_def auditedI path_afterI)
next
  case True
  obtain x w1 where c: "vllm_Stream c (upstream_request p) w = (x, w1)" by fastforce
  obtain out a fin k where rl: "relayStream (rq_ctxerr r 0) (case x of Inr s \<Rightarrow> sr_Body s | _ \<Rightarrow> []) [] 0 = (out, a, fin, k)"
    by (metis prod_cases4)
  show ?thesis
  proof (cases "fin \<and> is_ok x")
    case False
    with True rl have "audited n c lg r p w1 (snd (streamChat (db_handler n c lg) r p w))"
      by (auto simp: streamChat_def c auditedI Let_def split: sum.split)
    with True show ?thesis by (simp add: c path_afterI)
  next
    case d: True
    then obtain s where s: "x = Inr s" by (auto simp: is_ok_iff)
    obtain y w2 where pe: "PersistExchange (db_core n) (pt_conv p) (pt_incoming p) a w1 = (y, w2)" by fastforce
    have "Role a = RoleAssistant" using rl d relayStream_role by (fastforce simp: s)
    moreover have "audited n c lg r p w2 (snd (streamChat (db_handler n c lg) r p w))"
      using True rl d by (auto simp: streamChat_def c s pe auditedI Let_def split: sum.split)
    ultimately show ?thesis using True path_after_exchangeI [OF pe] by (simp add: c)
  qed
qed

text \<open>The world after the upstream call of a turn.\<close>

definition called :: "Client \<Rightarrow> ctx request \<Rightarrow> preparedTurn \<Rightarrow> 'a usage_db_scheme \<Rightarrow> 'a usage_db_scheme" where
  "called c r p w =
     (if \<not> rb_Stream (pt_req p) then snd (Complete c (upstream_request p) w)
      else if rq_flusher r then snd (vllm_Stream c (upstream_request p) w) else w)"

lemma called_quiet: "same_but_net w (called c r p w)"
  using client_complete_quiet [of w c "upstream_request p"] client_stream_quiet [of w c "upstream_request p"]
    same_but_netI [of w w] by (simp add: called_def)

section \<open>What a path does to the sessions\<close>

lemma table_view:
  assumes "messages w' = messages w" "uuid_in w' = uuid_in w" "conversations w' = conversations w"
  shows "session_history w' = session_history w" "owns_session w' = owns_session w"
    "same_session w' = same_session w"
  using assms history_view [of w' w]
  by (simp_all add: msg_view_def owns_session_def same_session_def fun_eq_iff)

lemma quiet_facts:
  assumes "same_but_net w w'"
  shows "session_history w' = session_history w" "owns_session w' = owns_session w"
    "same_session w' = same_session w" "gateway_usage w' = gateway_usage w" "api_keys w' = api_keys w"
    "tasks w' = tasks w" "logs w' = logs w" "settled w' = settled w"
proof -
  obtain l where w': "w' = w\<lparr>net_log := net_log w @ l\<rparr>" using assms by (auto simp: same_but_net_def)
  show h: "session_history w' = session_history w" "owns_session w' = owns_session w"
    "same_session w' = same_session w"
    by (rule table_view; simp add: w')+
  show "gateway_usage w' = gateway_usage w" "api_keys w' = api_keys w" "tasks w' = tasks w" "logs w' = logs w"
    by (simp_all add: w')
  show "settled w' = settled w" by (intro ext) (simp add: settled_def h, simp add: w')
qed

lemma bookkeeping_facts:
  assumes "bookkeeping w w'"
  shows "session_history w' = session_history w" "owns_session w' = owns_session w"
    "same_session w' = same_session w" "gateway_usage w' = gateway_usage w" "api_keys w' = api_keys w"
proof -
  have e: "w' = w\<lparr>clock := clock w', ticks := ticks w', logs := logs w', tasks := tasks w'\<rparr>"
    using assms by (simp add: bookkeeping_def)
  have t: "messages w' = messages w" "uuid_in w' = uuid_in w" "conversations w' = conversations w"
    by (subst e, simp)+
  show "session_history w' = session_history w" "owns_session w' = owns_session w"
    "same_session w' = same_session w"
    by (rule table_view [OF t])+
  show "gateway_usage w' = gateway_usage w" "api_keys w' = api_keys w"
    by (subst e, simp)+
qed

lemma touches_facts:
  assumes "conv_touches w w'"
  shows "gateway_usage w' = gateway_usage w" "api_keys w' = api_keys w" "tasks w' = tasks w"
    "logs w' = logs w" "net_log w' = net_log w" "same_session w' = same_session w" "users w' = users w"
    "default_logger w' = default_logger w" "uuid_in w' = uuid_in w"
proof -
  have e: "w' = w\<lparr>clock := clock w', ticks := ticks w', outcomes := outcomes w',
     uuid_next := uuid_next w', conversations := conversations w', messages := messages w'\<rparr>"
    using assms by (simp add: conv_touches_def)
  show "gateway_usage w' = gateway_usage w" "api_keys w' = api_keys w" "tasks w' = tasks w"
    "logs w' = logs w" "net_log w' = net_log w" "same_session w' = same_session w" "users w' = users w"
    "default_logger w' = default_logger w" "uuid_in w' = uuid_in w"
    by (subst e, simp add: same_session_def fun_eq_iff)+
qed

lemma PersistExchange_touches:
  assumes "PersistExchange (db_core n) c us a w = (x, w')"
  shows "conv_touches w w'" "owns_session w' = owns_session w"
proof -
  obtain r1 w1 where l: "conv_LoadHistory (cv_ID c) w = (r1, w1)" by fastforce
  have t: "conv_touches w w1" "owner_view w1 = owner_view w"
    using method_touches(3) [of w "cv_ID c"] pg_exec_owner [of "select_history (cv_ID c)" w, OF statement_owner(5)]
    by (simp_all add: l flip: method_world(3))
  have "conv_touches w w' \<and> owner_view w' = owner_view w"
  proof (cases r1)
    case (Inl e)
    with assms l t show ?thesis by (simp add: PersistExchange_def)
  next
    case (Inr ms)
    then obtain ns where "w' = snd (conv_AppendMessages (cv_ID c) ns w1)"
      using assms l by (auto simp: PersistExchange_def Let_def prod_eq_iff)
    with t Append_touches [of w1 "cv_ID c" ns] Append_owner [of "cv_ID c" ns w1] show ?thesis
      by (auto intro: conv_touches_trans)
  qed
  then show "conv_touches w w'" "owns_session w' = owns_session w" by (auto intro: owns_view)
qed

lemma path_facts:
  assumes "same_but_net w w1" "path_after n c lg r p w1 v"
  shows "owns_session v = owns_session w" "same_session v = same_session w" "api_keys v = api_keys w"
    "gateway_usage v = gateway_usage w"
    "\<not> same_session w (cv_ID (pt_conv p)) d \<Longrightarrow> session_history v d = session_history w d"
    "\<forall>m \<in> set (pt_incoming p). turn_role (Role m) \<Longrightarrow> \<forall>m \<in> set (session_history w d). turn_role (sm_Role m) \<Longrightarrow>
       \<forall>m \<in> set (session_history v d). turn_role (sm_Role m)"
proof -
  obtain u where b: "audited n c lg r p u v"
    and u: "u = w1 \<or> (\<exists>a x. Role a = RoleAssistant \<and> PersistExchange (db_core n) (pt_conv p) (pt_incoming p) a w1 = (x, u))"
    using assms(2) unfolding path_after_def by blast
  note q = quiet_facts [OF assms(1)] and b = bookkeeping_facts [OF audited_bookkeeping [OF b]]
  have "owns_session u = owns_session w1 \<and> same_session u = same_session w1 \<and> api_keys u = api_keys w1
    \<and> gateway_usage u = gateway_usage w1
    \<and> (\<not> same_session w1 (cv_ID (pt_conv p)) d \<longrightarrow> session_history u d = session_history w1 d)
    \<and> ((\<forall>m \<in> set (pt_incoming p). turn_role (Role m)) \<longrightarrow> (\<forall>m \<in> set (session_history w1 d). turn_role (sm_Role m)) \<longrightarrow>
       (\<forall>m \<in> set (session_history u d). turn_role (sm_Role m)))"
    using u
  proof
    assume "\<exists>a x. Role a = RoleAssistant \<and> PersistExchange (db_core n) (pt_conv p) (pt_incoming p) a w1 = (x, u)"
    then obtain a x where a: "Role a = RoleAssistant"
      and pe: "PersistExchange (db_core n) (pt_conv p) (pt_incoming p) a w1 = (x, u)" by blast
    have "turn_role (Role a)" by (simp add: a turn_role_def)
    with repo_conv.PersistExchange_roles [of "db_core n" w1 d "pt_incoming p" a "pt_conv p"]
      repo_conv.PersistExchange_other [of "db_core n" w1 "pt_conv p" d "pt_incoming p" a]
      touches_facts [OF PersistExchange_touches(1) [OF pe]] PersistExchange_touches(2) [OF pe]
    show ?thesis by (simp add: pe)
  qed simp
  with q b show "owns_session v = owns_session w" "same_session v = same_session w" "api_keys v = api_keys w"
    "gateway_usage v = gateway_usage w"
    "\<not> same_session w (cv_ID (pt_conv p)) d \<Longrightarrow> session_history v d = session_history w d"
    "\<forall>m \<in> set (pt_incoming p). turn_role (Role m) \<Longrightarrow> \<forall>m \<in> set (session_history w d). turn_role (sm_Role m) \<Longrightarrow>
       \<forall>m \<in> set (session_history v d). turn_role (sm_Role m)"
    by simp_all
qed

section \<open>Preparation\<close>

lemma Resolve_touches: "conv_touches w (snd (Resolve (db_core n) a s m w))"
proof -
  have "snd (Resolve (db_core n) a s m w) =
      (if s = [] then snd (conv_CreateConversation a m w) else snd (conv_GetConversation a s w))"
    by (auto simp: Resolve_def split: prod.splits sum.splits)
  then show ?thesis by (simp add: method_touches)
qed

lemma AssembleContext_world: "snd (AssembleContext (db_core n) p c us w) = snd (conv_LoadHistory (cv_ID c) w)"
  by (simp add: AssembleContext_def split: prod.split sum.split)

lemma Load_owner: "owns_session (snd (conv_LoadHistory c w)) = owns_session w"
  using owns_view [OF pg_exec_owner [of "select_history c" w, OF statement_owner(5)]]
  by (simp flip: method_world(3))

lemma Resolve_owner: "s \<noteq> [] \<Longrightarrow> owns_session (snd (Resolve (db_core n) a s m w)) = owns_session w"
proof -
  assume "s \<noteq> []"
  then have "snd (Resolve (db_core n) a s m w) = snd (conv_GetConversation a s w)"
    by (auto simp: Resolve_def split: prod.splits sum.splits)
  then show ?thesis
    using owns_view [OF pg_exec_owner [of "select_conversation a s" w, OF statement_owner(4)]]
    by (simp flip: method_world(2))
qed

lemma Resolve_owns: "Resolve (db_core n) a s m w = (Inr c, w') \<Longrightarrow> owns_session w' a (cv_ID c)"
  using repo_conv.Resolve_owned [of n a s m w c w'] Resolve_owner [of s n a m w]
  by (auto simp: db_core_def)

lemma Resolve_history: "session_history (snd (Resolve (db_core n) a s m w)) = session_history w"
  using repo_conv.Resolve_hist [of n a s m w] by (simp add: db_core_def)

lemma prepare_session_world:
  assumes "Resolve (h_core h) (crd_ID cred) (TrimSpace (rb_SessionID req)) (TrimSpace (rb_Model req)) w = (y, w1)"
  shows "snd (prepare_session h cred req inc w) \<in>
    {w, w1} \<union> {snd (AssembleContext (h_core h) q k inc w1) | q k. True}"
proof (cases y)
  case (Inl e)
  then show ?thesis using assms by (simp add: prepare_session_def Let_def)
next
  case (Inr cv)
  obtain z w2 where ac: "AssembleContext (h_core h) (case crd_Persona cred of None \<Rightarrow> [] | Some p \<Rightarrow> p) cv inc w1 = (z, w2)"
    by fastforce
  then have "snd (prepare_session h cred req inc w) \<in> {w, w1, w2}"
    using assms Inr by (cases z) (simp_all add: prepare_session_def Let_def)
  moreover have "w2 = snd (AssembleContext (h_core h) (case crd_Persona cred of None \<Rightarrow> [] | Some p \<Rightarrow> p) cv inc w1)"
    by (simp add: ac)
  ultimately show ?thesis by blast
qed

text \<open>A turn is prepared for a session of the calling credential; no message changes.\<close>

lemma prepareTurn_world:
  assumes "prepareTurn (db_handler n c lg) r w = (x, w')"
  shows "conv_touches w w'" "session_history w' = session_history w"
proof -
  have "conv_touches w w' \<and> session_history w' = session_history w"
  proof (cases "\<exists>cred req inc. CredentialFromContext (rq_ctx r) = Some cred
      \<and> decode_request (parse_float w) (rq_body r) = Inr req \<and> parseIncoming req = Inr inc")
    case False
    then have "w' = w"
      using assms by (auto simp: prepareTurn_def split: option.splits sum.splits body_error.splits)
    then show ?thesis by simp
  next
    case True
    then obtain cred req inc where eq: "CredentialFromContext (rq_ctx r) = Some cred"
      "decode_request (parse_float w) (rq_body r) = Inr req" "parseIncoming req = Inr inc" by blast
    define s where "s = TrimSpace (rb_SessionID req)"
    define m where "m = TrimSpace (rb_Model req)"
    obtain y w1 where rs: "Resolve (db_core n) (crd_ID cred) s m w = (y, w1)" by fastforce
    have r1: "conv_touches w w1" "session_history w1 = session_history w"
      using Resolve_touches [of w n "crd_ID cred" s m] Resolve_history [of n "crd_ID cred" s m w] by (simp_all add: rs)
    have "w' = snd (prepare_session (db_handler n c lg) cred req inc w)"
      using assms by (simp add: prepareTurn_def eq)
    also have "\<dots> \<in> {w, w1} \<union> {snd (AssembleContext (db_core n) q k inc w1) | q k. True}"
      using prepare_session_world [of "db_handler n c lg" cred req w y w1 inc] rs by (simp add: s_def m_def)
    finally have "w' = w \<or> w' = w1 \<or> (\<exists>k. w' = snd (conv_LoadHistory k w1))"
      by (auto simp: AssembleContext_world)
    then show ?thesis
      using r1 method_touches(3) [of w1] method_history(3) [of _ w1] by (auto intro: conv_touches_trans)
  qed
  then show "conv_touches w w'" "session_history w' = session_history w" by auto
qed

lemma prepareTurn_Inr:
  assumes "prepareTurn (db_handler n c lg) r w = (Inr p, w')"
  obtains cred req w1 persona where "CredentialFromContext (rq_ctx r) = Some cred"
    "decode_request (parse_float w) (rq_body r) = Inr req" "parseIncoming req = Inr (pt_incoming p)"
    "pt_cred p = cred" "pt_req p = req" "owns_session w' (crd_ID cred) (cv_ID (pt_conv p))"
    "persona = (case crd_Persona cred of None \<Rightarrow> [] | Some p \<Rightarrow> p)"
    "Resolve (db_core n) (crd_ID cred) (TrimSpace (rb_SessionID req)) (TrimSpace (rb_Model req)) w = (Inr (pt_conv p), w1)"
    "AssembleContext (db_core n) persona (pt_conv p) (pt_incoming p) w1 = (Inr (pt_assembled p), w')"
    "pt_effModel p = (if TrimSpace (rb_Model req) = [] then cv_Model (pt_conv p) else TrimSpace (rb_Model req))"
    "pt_effModel p \<noteq> []"
proof -
  from assms obtain cred req inc where eq: "CredentialFromContext (rq_ctx r) = Some cred"
    "decode_request (parse_float w) (rq_body r) = Inr req" "parseIncoming req = Inr inc"
    and ps: "prepare_session (db_handler n c lg) cred req inc w = (Inr p, w')"
    by (auto simp: prepareTurn_def split: option.splits sum.splits body_error.splits)
  define s where "s = TrimSpace (rb_SessionID req)"
  define m where "m = TrimSpace (rb_Model req)"
  define persona where "persona = (case crd_Persona cred of None \<Rightarrow> [] | Some p \<Rightarrow> p)"
  from ps obtain cv w1 out where rs: "Resolve (db_core n) (crd_ID cred) s m w = (Inr cv, w1)"
    and ac: "AssembleContext (db_core n) persona cv inc w1 = (Inr out, w')"
    and p: "p = \<lparr>pt_cred = cred, pt_conv = cv, pt_incoming = inc, pt_assembled = out,
       pt_effModel = (if m = [] then cv_Model cv else m), pt_req = req, pt_start = 0\<rparr>"
    and ne: "(if m = [] then cv_Model cv else m) \<noteq> []"
    by (auto simp: prepare_session_def Let_def simp flip: s_def m_def persona_def
        split: if_splits sum.splits prod.splits)
  have "owns_session w' (crd_ID cred) (cv_ID cv)"
    using Resolve_owns [OF rs] AssembleContext_world [of n persona cv inc w1] Load_owner [of "cv_ID cv" w1]
    by (simp add: ac)
  then show ?thesis
    by (intro that [OF eq(1,2), of persona w1]) (use eq(3) rs ac ne in \<open>simp_all add: p s_def m_def persona_def\<close>)
qed

section \<open>The call as a whole\<close>

definition run_turn :: "'a env_scheme ChatHandler \<Rightarrow> ctx request \<Rightarrow> preparedTurn \<Rightarrow> 'a env_scheme \<Rightarrow> wcall list \<times> 'a env_scheme" where
  "run_turn h r p w = (if rb_Stream (pt_req p) then streamChat h r p w else completeChat h r p w)"

lemma Chat_rejected:
  "prepareTurn h r (snd (now w)) = (Inl out, w1) \<Longrightarrow> Chat h r w = (out, Returned, w1)"
  by (cases "now w") (simp add: Chat_def)

lemma Chat_accepted:
  "prepareTurn h r (snd (now w)) = (Inr p, w1) \<Longrightarrow>
   Chat h r w = (fst (run_turn h r (p\<lparr>pt_start := fst (now w)\<rparr>) w1), Returned,
                 snd (run_turn h r (p\<lparr>pt_start := fst (now w)\<rparr>) w1))"
  by (cases "now w") (simp add: Chat_def run_turn_def Let_def split: prod.split)

lemma run_turn_after: "path_after n c lg r p (called c r p w) (snd (run_turn (db_handler n c lg) r p w))"
  using streamChat_after [of n c lg r p w] completeChat_after [of n c lg r p w] by (simp add: run_turn_def called_def)

text \<open>A call either is rejected, and only prepares, or runs a path for a prepared turn.\<close>

lemma Chat_world:
  obtains (rejected) out w1 where "Chat (db_handler n c lg) r w = (out, Returned, w1)"
      "prepareTurn (db_handler n c lg) r (snd (now w)) = (Inl out, w1)"
    | (accepted) p w1 where "prepareTurn (db_handler n c lg) r (snd (now w)) = (Inr p, w1)"
      "path_after n c lg r (p\<lparr>pt_start := fst (now w)\<rparr>) (called c r (p\<lparr>pt_start := fst (now w)\<rparr>) w1)
         (world_of (Chat (db_handler n c lg) r w))"
proof (cases "prepareTurn (db_handler n c lg) r (snd (now w))")
  case (Pair x w1)
  show ?thesis
  proof (cases x)
    case (Inl out)
    with Pair Chat_rejected [of "db_handler n c lg" r w out w1] rejected show ?thesis by simp
  next
    case (Inr p)
    with Pair accepted Chat_accepted [of "db_handler n c lg" r w p w1]
      run_turn_after [of n c lg r "p\<lparr>pt_start := fst (now w)\<rparr>" w1]
    show ?thesis by simp
  qed
qed

lemma now_facts:
  "session_history (snd (now w)) = session_history w" "owns_session (snd (now w)) = owns_session w"
  "same_session (snd (now w)) = same_session w" "api_keys (snd (now w)) = api_keys w"
  "gateway_usage (snd (now w)) = gateway_usage w" "tasks (snd (now w)) = tasks w" "logs (snd (now w)) = logs w"
  using bookkeeping_facts [OF bookkeeping_now [of w]] by (simp_all add: now_def Let_def)

lemma Chat_history:
  assumes "session_history (world_of (Chat (db_handler n c lg) r w)) d \<noteq> session_history w d"
  obtains cred s where "CredentialFromContext (rq_ctx r) = Some cred"
    "owns_session (world_of (Chat (db_handler n c lg) r w)) (crd_ID cred) s" "same_session w s d"
proof (cases rule: Chat_world [of n c lg r w])
  case (rejected out w1)
  with assms prepareTurn_world(2) [OF rejected(2)] show ?thesis by (simp add: now_facts)
next
  case (accepted p w1)
  from accepted(1) obtain cred where cr: "CredentialFromContext (rq_ctx r) = Some cred"
    and ow: "owns_session w1 (crd_ID cred) (cv_ID (pt_conv p))"
    by (rule prepareTurn_Inr)
  note pf = path_facts [OF called_quiet accepted(2)]
  have "same_session w1 = same_session w"
    using touches_facts(6) [OF prepareTurn_world(1) [OF accepted(1)]] by (simp add: now_facts)
  moreover have "session_history w1 d = session_history w d"
    using prepareTurn_world(2) [OF accepted(1)] by (simp add: now_facts)
  ultimately have "same_session w (cv_ID (pt_conv p)) d" using assms pf(5) [of d] by auto
  with cr ow show ?thesis using that pf(1) by simp
qed

lemma Chat_roles:
  assumes "\<forall>m \<in> set (session_history w d). turn_role (sm_Role m)"
  shows "\<forall>m \<in> set (session_history (world_of (Chat (db_handler n c lg) r w)) d). turn_role (sm_Role m)"
proof (cases rule: Chat_world [of n c lg r w])
  case (rejected out w1)
  with assms prepareTurn_world(2) [OF rejected(2)] show ?thesis by (simp add: now_facts)
next
  case (accepted p w1)
  from accepted(1) have "\<forall>m \<in> set (pt_incoming p). turn_role (Role m)"
    by (rule prepareTurn_Inr) (auto dest: parseIncoming_turns)
  moreover have "session_history w1 d = session_history w d"
    using prepareTurn_world(2) [OF accepted(1)] by (simp add: now_facts)
  ultimately show ?thesis using path_facts(6) [OF called_quiet accepted(2), of d] assms by simp
qed

end
