(* ===== verification/Access_Properties.thy ===== *)
theory Access_Properties
  imports Gateway Data_Properties
begin

text \<open>
  The properties of the public endpoint that concern who may call it and whose sessions a call
  reaches: the decision of the two-key middleware over the database, in every state of it, and
  the isolation of the credentials' sessions.
\<close>

section \<open>The decision\<close>

definition rejection :: "wcall list" where
  "rejection = writeError errUnauthorized ''a valid api key id and secret are required''"

lemma gw_GetActive_healthy:
  "keys_ready kid w \<Longrightarrow> GetActiveByKeyID repo_credentialStore kid w =
     (case find (active_with kid) (api_keys w) of None \<Rightarrow> (Inl apikey_ErrNotFound, w) | Some k \<Rightarrow> (Inr k, w))"
  by (auto simp: repo_credentialStore_def keys_ready_def apikey_GetActiveByKeyID_def select_active_def split: option.split)

lemma gw_authenticate_healthy:
  assumes "keys_ready (presented_key r) w"
  shows "gw_authenticate (NewAuthenticator repo_credentialStore) r w =
    (if presented_key r = [] \<or> presented_secret r = [] then Inl errInvalidCredential
     else case find (active_with (presented_key r)) (api_keys w) of
       None \<Rightarrow> Inl errInvalidCredential
     | Some k \<Rightarrow> if VerifySecret (presented_secret r) (ak_SecretHash k) then Inr (credential_of k)
                 else Inl errInvalidCredential, w)"
  by (auto simp: gw_authenticate_cases gw_GetActive_healthy [OF assms] split: option.split)

lemma credential_of_ID [simp]: "crd_ID (credential_of k) = ak_ID k"
  by (simp add: credential_of_def)

text \<open>The request as the handler behind the middleware sees it.\<close>

definition with_key :: "ctx request \<Rightarrow> APIKey \<Rightarrow> ctx request" where
  "with_key r k = r\<lparr>rq_ctx := withCredential (rq_ctx r) (credential_of k)\<rparr>"

lemma gw_authenticate_bad_key:
  assumes "healthy w" "\<not> text_ok w (presented_key r)" "presented_key r \<noteq> []" "presented_secret r \<noteq> []"
  shows "gw_authenticate (NewAuthenticator repo_credentialStore) r w = (Inl (auth_store (apikey_wrapped bad_encoding)), w)"
  using assms by (simp add: gw_authenticate_cases repo_credentialStore_def apikey_GetActiveByKeyID_def select_active_def)

text \<open>C1: while the database answers, a request that presents the key id of an active row and a secret
  with that row's digest is handled as that credential's, after its last-use update was started. Every other
  request gets the same 401, byte for byte, and has no effect; only a key id that is no text for the database
  (a NUL, or bytes that are no UTF-8), presented with some secret, gets a 503 instead, without effect too.\<close>

theorem gateway_decides:
  assumes "healthy w" "ids_unique (api_keys w)"
  shows "if presented_key r \<noteq> [] \<and> presented_secret r \<noteq> [] \<and> \<not> text_ok w (presented_key r)
    then gateway n c lg r w = (writeError errUnavailable ''could not verify credentials, try again'', Returned, w)
    else (\<forall>k. authentic (api_keys w) r k \<longrightarrow>
        gateway n c lg r w = Chat (db_handler n c lg) (with_key r k) (spawn (TaskTouch (ak_ID k)) w)) \<and>
      ((\<nexists>k. authentic (api_keys w) r k) \<longrightarrow> gateway n c lg r w = (rejection, Returned, w))"
proof -
  let ?bad = "presented_key r \<noteq> [] \<and> presented_secret r \<noteq> [] \<and> \<not> text_ok w (presented_key r)"
  have bad: "gateway n c lg r w = (writeError errUnavailable ''could not verify credentials, try again'', Returned, w)" if ?bad
    using gw_authenticate_bad_key [OF assms(1), of r] that by (simp add: gateway_def gateway_endpoint_def RequireCredential_def)
  have auth: "gw_authenticate (NewAuthenticator repo_credentialStore) r w = (Inr (credential_of k), w)"
    if "\<not> ?bad" "authentic (api_keys w) r k" for k
  proof -
    have "keys_ready (presented_key r) w" using that assms(1) by (auto simp: keys_ready_def authentic_def)
    moreover have "find (active_with (presented_key r)) (api_keys w) = Some k"
      using assms(2) that by (auto simp: authentic_def intro: find_active_unique)
    ultimately show ?thesis using that by (auto simp: gw_authenticate_healthy authentic_def VerifySecret_iff)
  qed
  have none: "gw_authenticate (NewAuthenticator repo_credentialStore) r w = (Inl errInvalidCredential, w)"
    if "\<not> ?bad" "\<nexists>k. authentic (api_keys w) r k"
  proof (cases "presented_key r = [] \<or> presented_secret r = []")
    case False
    then have "keys_ready (presented_key r) w" using that(1) assms(1) by (auto simp: keys_ready_def)
    then show ?thesis
      using that(2) False
      by (auto simp: gw_authenticate_healthy authentic_def VerifySecret_iff split: option.split dest!: find_SomeD)
  qed (auto simp: gw_authenticate_cases)
  show ?thesis
    using bad auth none
    by (auto simp: gateway_def gateway_endpoint_def RequireCredential_def with_key_def touchLastUsedAsync_def rejection_def)
qed

text \<open>The sample request where the row holds the digest of its secret, where it does not, and where its key id is no text.\<close>

definition sample_active :: APIKey where
  "sample_active = sample_key\<lparr>ak_SecretHash := HashSecret ''dab_sk_a''\<rparr>"

lemma sample_presents:
  "presented_key (sample_request b) = ''dab_pk_a''" "presented_secret (sample_request b) = ''dab_sk_a''"
proof -
  have "TrimSpace ''dab_pk_a'' = ''dab_pk_a''" "TrimSpace ''dab_sk_a'' = ''dab_sk_a''" by code_simp+
  then show "presented_key (sample_request b) = ''dab_pk_a''" "presented_secret (sample_request b) = ''dab_sk_a''"
    by (simp_all add: presented_key_def presented_secret_def sample_request_def header_get_def HeaderKeyID_def HeaderSecret_def)
qed

lemma sample_authentic:
  "authentic [sample_active] (sample_request b) sample_active" "\<not> authentic [sample_key] (sample_request b) k"
proof -
  show "authentic [sample_active] (sample_request b) sample_active"
    by (simp add: authentic_def sample_presents sample_active_def sample_key_def active_with_def ak_active_def HashSecret_def)
  have h: "hex_DecodeString ''00'' = Some [CHR 0x00]" by code_simp
  have "hex_DecodeString ''00'' \<noteq> Some (sha256_Sum256 s)" for s
    using length_sha256 [of s] unfolding h by (cases "sha256_Sum256 s") auto
  then show "\<not> authentic [sample_key] (sample_request b) k"
    by (auto simp: authentic_def sample_key_def)
qed

theorem gateway_decides_witness:
  "gateway 0 sample_client sample_logger (sample_request sample_body) (sample_world\<lparr>api_keys := [sample_active]\<rparr>) =
     Chat (db_handler 0 sample_client sample_logger) (with_key (sample_request sample_body) sample_active)
       (spawn (TaskTouch ''k1'') (sample_world\<lparr>api_keys := [sample_active]\<rparr>)) \<and>
   gateway 0 sample_client sample_logger (sample_request sample_body) sample_world = (rejection, Returned, sample_world) \<and>
   gateway 0 sample_client sample_logger (sample_request sample_body) (sample_world\<lparr>text_ok := \<lambda>_. False\<rparr>) =
     (writeError errUnavailable ''could not verify credentials, try again'', Returned, sample_world\<lparr>text_ok := \<lambda>_. False\<rparr>)"
proof -
  note U = gateway_decides [of _ "sample_request sample_body" 0 sample_client sample_logger]
  have w: "api_keys sample_world = [sample_key]" "text_ok sample_world = (\<lambda>_. True)" "outcomes sample_world = []"
    by (simp_all add: sample_world_def)
  have i: "ak_ID sample_active = ''k1''" by (simp add: sample_active_def sample_key_def)
  have "gateway 0 sample_client sample_logger (sample_request sample_body) (sample_world\<lparr>api_keys := [sample_active]\<rparr>) =
     Chat (db_handler 0 sample_client sample_logger) (with_key (sample_request sample_body) sample_active)
       (spawn (TaskTouch (ak_ID sample_active)) (sample_world\<lparr>api_keys := [sample_active]\<rparr>))"
    using U [of "sample_world\<lparr>api_keys := [sample_active]\<rparr>"] sample_authentic(1) [of sample_body]
    by (simp add: healthy_def ids_unique_def sample_presents w)
  then show ?thesis
    using U [of sample_world] U [of "sample_world\<lparr>text_ok := \<lambda>_. False\<rparr>"]
    by (simp add: healthy_def ids_unique_def sample_presents sample_authentic(2) w i)
qed

section \<open>In every state of the database\<close>

lemma GetActive_world:
  fixes w :: "'a keys_db_scheme"
  shows "\<exists>os. snd (apikey_GetActiveByKeyID kid w) = w\<lparr>outcomes := os\<rparr>"
proof -
  have "snd (apikey_GetActiveByKeyID kid w) = snd (pg_exec (select_active kid) w)"
    by (simp add: apikey_GetActiveByKeyID_def split: prod.split sum.split)
  moreover have "snd (select_active kid w') = w'" for w' :: "'a keys_db_scheme"
    by (simp add: select_active_def split: option.split)
  moreover have "\<exists>os. w = w\<lparr>outcomes := os\<rparr>" by (intro exI [of _ "outcomes w"]) simp
  ultimately show ?thesis by - (rule pg_exec_cases [of "select_active kid" w]; auto)
qed

lemma authenticate_world:
  "\<exists>os. snd (gw_authenticate (NewAuthenticator repo_credentialStore) r w) = w\<lparr>outcomes := os\<rparr>"
proof -
  have "snd (gw_authenticate (NewAuthenticator repo_credentialStore) r w) \<in>
      {w, snd (apikey_GetActiveByKeyID (presented_key r) w)}"
    by (auto simp: gw_authenticate_cases repo_credentialStore_def split: prod.splits sum.splits)
  then show ?thesis
    using GetActive_world [of "presented_key r" w] by (auto intro: exI [of _ "outcomes w"])
qed

text \<open>Either a call is refused, or it is a chat for an authentic row.\<close>

lemma gateway_cases:
  obtains (refused) os cs where "gateway n c lg r w = (cs, Returned, w\<lparr>outcomes := os\<rparr>)" "status_of cs \<in> {401, 503}"
    | (passed) os k where "authentic (api_keys w) r k"
      "gateway n c lg r w = Chat (db_handler n c lg) (with_key r k) (spawn (TaskTouch (ak_ID k)) (w\<lparr>outcomes := os\<rparr>))"
proof -
  let ?a = "NewAuthenticator repo_credentialStore"
  obtain x w' where g: "gw_authenticate ?a r w = (x, w')" by fastforce
  obtain os where os: "w' = w\<lparr>outcomes := os\<rparr>" using authenticate_world [of r w] g by auto
  show ?thesis
  proof (cases x)
    case (Inl e)
    with g show ?thesis
      by (intro refused [of "calls_of (gateway n c lg r w)" os]) (auto simp: gateway_def gateway_endpoint_def RequireCredential_def os)
  next
    case (Inr cr)
    obtain k where k: "authentic (api_keys w) r k" "cr = credential_of k"
      using repo_cs.authenticate_sound [of ?a r w cr w'] g Inr by auto
    then show ?thesis
      using g Inr by (intro passed [of k os])
        (simp_all add: gateway_def gateway_endpoint_def RequireCredential_def with_key_def touchLastUsedAsync_def os)
  qed
qed

text \<open>Whatever the state of the database and whatever its failures, a request that presents no
  active row's credentials is answered 401 or 503 and changes nothing: no session, no message,
  no audit, no call to the model.\<close>

theorem unauthentic_is_refused:
  assumes "\<nexists>k. authentic (api_keys w) r k"
  shows "status_of (calls_of (gateway n c lg r w)) \<in> {401, 503} \<and>
    (\<exists>os. world_of (gateway n c lg r w) = w\<lparr>outcomes := os\<rparr>)"
  using assms by (cases rule: gateway_cases [of n c lg r w]) auto

theorem unauthentic_is_refused_witness:
  "status_of (calls_of (gateway 0 sample_client sample_logger (sample_request []) (revoked_world\<lparr>outcomes := [Unacked]\<rparr>)))
    \<in> {401, 503}"
  using unauthentic_is_refused [of "revoked_world\<lparr>outcomes := [Unacked]\<rparr>" "sample_request []" 0 sample_client sample_logger]
  by (simp add: authentic_def active_with_def ak_active_def revoked_world_def)

section \<open>Isolation\<close>

lemma spawn_facts [simp]:
  "session_history (spawn t w) = session_history w" "same_session (spawn t w) = same_session w"
  "owns_session (spawn t w) = owns_session w"
  "session_history (w\<lparr>outcomes := os\<rparr>) = session_history w" "same_session (w\<lparr>outcomes := os\<rparr>) = same_session w"
  "owns_session (w\<lparr>outcomes := os\<rparr>) = owns_session w"
  by (intro table_view; simp add: spawn_def)+

text \<open>C2: the sessions a call changes are sessions the presented credential owns, in every state of
  the world and whatever fails.\<close>

theorem tenant_isolation:
  "{d. session_history (world_of (gateway n c lg r w)) d \<noteq> session_history w d} \<subseteq>
   {d. \<exists>k s. authentic (api_keys w) r k \<and> owns_session (world_of (gateway n c lg r w)) (ak_ID k) s \<and> same_session w s d}"
proof (cases rule: gateway_cases [of n c lg r w])
  case (refused os cs)
  then show ?thesis by simp
next
  case (passed os k)
  show ?thesis
  proof
    fix d
    let ?w = "spawn (TaskTouch (ak_ID k)) (w\<lparr>outcomes := os\<rparr>)"
    assume "d \<in> {d. session_history (world_of (gateway n c lg r w)) d \<noteq> session_history w d}"
    then have "session_history (world_of (Chat (db_handler n c lg) (with_key r k) ?w)) d \<noteq> session_history ?w d"
      by (simp add: passed)
    then obtain cr s where "CredentialFromContext (rq_ctx (with_key r k)) = Some cr"
      "owns_session (world_of (Chat (db_handler n c lg) (with_key r k) ?w)) (crd_ID cr) s" "same_session ?w s d"
      by (rule Chat_history)
    moreover from this have "crd_ID cr = ak_ID k" by (auto simp: with_key_def)
    ultimately show "d \<in> {d. \<exists>k s. authentic (api_keys w) r k \<and>
        owns_session (world_of (gateway n c lg r w)) (ak_ID k) s \<and> same_session w s d}"
      using passed by (intro CollectI exI [of _ k] exI [of _ s]) (simp add: with_key_def)
  qed
qed

text \<open>No call ever stores a message whose role is not user or assistant, so a persona or an
  injected system turn never enters a history.\<close>

theorem turn_roles_invariant:
  assumes "\<forall>m \<in> set (session_history w d). turn_role (sm_Role m)"
  shows "\<forall>m \<in> set (session_history (world_of (gateway n c lg r w)) d). turn_role (sm_Role m)"
proof (cases rule: gateway_cases [of n c lg r w])
  case (refused os cs)
  then show ?thesis using assms by simp
next
  case (passed os k)
  show ?thesis
    unfolding passed using Chat_roles [of "spawn (TaskTouch (ak_ID k)) (w\<lparr>outcomes := os\<rparr>)"] assms by auto
qed

theorem turn_roles_invariant_witness:
  "list_all (\<lambda>m. turn_role (sm_Role m))
    (session_history (world_of (gateway 0 sample_client sample_logger (sample_request sample_body) sample_world)) ''s1'')"
  unfolding list_all_iff
  by (rule turn_roles_invariant) (simp add: session_history_def sample_world_def messages_of_def oldest_first_def
      sample_message_def turn_role_def RoleUser_def RoleAssistant_def)

end
