(* ===== verification/Stream_Spec.thy ===== *)
theory Stream_Spec
  imports Gateway_Stream
begin

text \<open>
  What the relay of gateway/stream.go computes, stated on the upstream body as a whole: its
  lines, the payloads of its data lines, and the frames an OpenAI-style server writes. The
  loop of \<open>relayStream\<close> is shown to compute exactly this, and the reconstruction to give back
  the deltas of every well-formed stream.
\<close>

section \<open>Lines\<close>

text \<open>The lines of a body, each with its newline; the last one may have none.\<close>

fun lines_of :: "string \<Rightarrow> string list" where
  "lines_of [] = []"
| "lines_of (c # s) =
     (if c = newline then [c] # lines_of s
      else case lines_of s of [] \<Rightarrow> [[c]] | l # ls \<Rightarrow> (c # l) # ls)"

lemma concat_lines_of: "concat (lines_of s) = s"
  by (induction s rule: lines_of.induct) (auto split: list.splits)

lemma lines_of_line: "newline \<notin> set l \<Longrightarrow> lines_of (l @ newline # s) = (l @ [newline]) # lines_of s"
  by (induction l) auto

lemma lines_of_last: "newline \<notin> set l \<Longrightarrow> lines_of l = (if l = [] then [] else [l])"
  by (induction l) auto

lemma ReadBytes_line: "newline \<notin> set l \<Longrightarrow> ReadBytes (l @ newline # s) = (l @ [newline], False, s)"
  by (auto simp: ReadBytes_def takeWhile_append dropWhile_append)

lemma ReadBytes_last: "newline \<notin> set l \<Longrightarrow> ReadBytes l = (l, True, [])"
  by (simp add: ReadBytes_def)

lemma split_line:
  obtains (line) l r where "newline \<notin> set l" "s = l @ newline # r" "ReadBytes s = (l @ [newline], False, r)"
      "lines_of s = (l @ [newline]) # lines_of r"
    | (last) "newline \<notin> set s" "ReadBytes s = (s, True, [])" "lines_of s = (if s = [] then [] else [s])"
proof (cases "newline \<in> set s")
  case True
  then obtain l r where "s = l @ newline # r" "newline \<notin> set l" by (meson split_list_first)
  then show ?thesis using line lines_of_line ReadBytes_line by auto
next
  case False
  then show ?thesis using last lines_of_last ReadBytes_last by auto
qed

section \<open>The relay as a function of the lines\<close>

text \<open>The lines up to the one that carries \<open>[DONE]\<close>, and the payloads before it.\<close>

fun upto_done :: "string list \<Rightarrow> string list" where
  "upto_done [] = []"
| "upto_done (l # ls) = (if sseData l = Some sseDonePayload then [l] else l # upto_done ls)"

definition payloads :: "string list \<Rightarrow> string list" where
  "payloads ls = List.map_filter sseData ls"

lemma payloads_simps [simp]:
  "payloads [] = []"
  "payloads (l # ls) = (case sseData l of None \<Rightarrow> payloads ls | Some d \<Rightarrow> d # payloads ls)"
  by (simp_all add: payloads_def List.map_filter_def split: option.split)

lemma lines_of_nonempty: "[] \<notin> set (lines_of s)"
  by (induction s rule: lines_of.induct) (auto split: list.splits)

lemma upto_done_prefix: "prefix (upto_done ls) ls"
  by (induction ls) auto

lemma upto_done_set: "l \<in> set (upto_done ls) \<Longrightarrow> l \<in> set ls"
  using set_mono_prefix [OF upto_done_prefix [of ls]] by blast

lemma upto_done_all: "sseDonePayload \<notin> set (payloads ls) \<Longrightarrow> upto_done ls = ls"
  by (induction ls) (auto split: option.splits)

lemma prefix_concat: "prefix xs ys \<Longrightarrow> prefix (concat xs) (concat ys)"
  by (auto simp: prefix_def)

definition relay_spec :: "bool \<Rightarrow> string list \<Rightarrow> string \<Rightarrow> nat \<Rightarrow> wcall list \<times> Message \<times> bool \<times> nat" where
  "relay_spec cancelled ls content chunks =
     (let ps = takeWhile (\<lambda>d. d \<noteq> sseDonePayload) (payloads ls);
          fin = (sseDonePayload \<in> set (payloads ls))
      in (concat (map relay_writes (upto_done ls)) @ (if fin then [] else relay_broken cancelled),
          if fin then \<lparr>Role = RoleAssistant, Content = content @ concat (map deltaContent ps)\<rparr> else \<lparr>Role = [], Content = []\<rparr>,
          fin, chunks + length ps))"

lemma relayStream_spec: "relayStream cancelled body content chunks = relay_spec cancelled (lines_of body) content chunks"
proof (induction cancelled body content chunks rule: relayStream.induct)
  case (1 cancelled body content chunks)
  show ?case
  proof (cases body rule: split_line)
    case last
    have "sseData [] = None" by (simp add: sseData_def TrimRight_def HasPrefix_def data_prefix_def)
    with last show ?thesis
      by (auto simp: relayStream.simps [of cancelled body] relay_spec_def Let_def relay_writes_def split: option.split)
  next
    case (line l r)
    note IH = "1.IH" [OF line(3) [symmetric] refl refl refl refl refl refl]
    show ?thesis
    proof (cases "sseData (l @ [newline])")
      case None
      then show ?thesis using IH line(3,4)
        unfolding relayStream.simps [of cancelled body content chunks]
        by (simp add: relay_spec_def Let_def)
    next
      case (Some d)
      then show ?thesis using IH line(3,4)
        unfolding relayStream.simps [of cancelled body content chunks]
        by (cases "d = sseDonePayload") (simp_all add: relay_spec_def Let_def)
    qed
  qed
qed

section \<open>Frames\<close>

text \<open>Encoded text has no control characters, so a frame is one line.\<close>

lemma utf8_bytes_high:
  "byte_of c \<ge> 128 \<Longrightarrow> x \<in> set (take (utf8_len (c # s)) (c # s)) \<Longrightarrow> 128 \<le> byte_of x"
  by (cases s; cases "tl s"; cases "tl (tl s)")
    (auto simp: utf8_len_def utf8_head_def seq2_def seq3_def seq4_def cont_def split: if_splits)

lemma hex_digit_printable: "n < 16 \<Longrightarrow> 48 \<le> byte_of (hex_digit n)"
  by (simp add: hex_digit_def)

lemma esc_u_printable: "n < 65536 \<Longrightarrow> x \<in> set (esc_u n) \<Longrightarrow> 32 \<le> byte_of x"
  using hex_digit_printable [of "n div 4096"] hex_digit_printable [of "n div 256 mod 16"]
    hex_digit_printable [of "n div 16 mod 16"] hex_digit_printable [of "n mod 16"]
  by (auto simp: esc_u_def less_mult_imp_div_less byte_of_def backslash_def)

lemma esc_ascii_printable: "byte_of c < 128 \<Longrightarrow> x \<in> set (esc_ascii c) \<Longrightarrow> 32 \<le> byte_of x"
  using esc_u_printable [of "byte_of c" x]
  by (auto simp: esc_ascii_def Let_def byte_of_def backslash_def quote_def split: if_splits)

lemma esc_string_printable: "x \<in> set (esc_string s) \<Longrightarrow> 32 \<le> byte_of x"
proof (induction s rule: esc_string.induct)
  case (2 c s)
  let ?n = "utf8_len (c # s)"
  have high: "32 \<le> byte_of x" if "\<not> byte_of c < 128" "x \<in> set (take ?n (c # s))"
    using utf8_bytes_high [of c x s] that by simp
  show ?case
    using "2.prems" "2.IH" high esc_ascii_printable [of c x] esc_u_printable [of 65533 x]
      esc_u_printable [of 8232 x] esc_u_printable [of 8233 x]
    unfolding esc_string.simps(2) Let_def by (auto split: if_splits)
qed simp

lemma json_string_printable: "x \<in> set (json_string s) \<Longrightarrow> 32 \<le> byte_of x"
  by (auto simp: json_string_def dest: esc_string_printable)

lemma encode_printable:
  "textual j \<Longrightarrow> x \<in> set (json_encode j) \<Longrightarrow> 32 \<le> byte_of x"
  "list_all textual xs \<Longrightarrow> x \<in> set (enc_elems xs) \<Longrightarrow> 32 \<le> byte_of x"
  "list_all (\<lambda>(k, v). utf8_valid k \<and> textual v) ms \<Longrightarrow> x \<in> set (enc_members ms) \<Longrightarrow> 32 \<le> byte_of x"
  by (induction j and xs and ms rule: json_encode_enc_elems_enc_members.induct)
    (auto simp: byte_of_def dest!: json_string_printable split: if_splits)

lemma newline_byte [simp]: "byte_of newline = 10" "byte_of carriage = 13"
  by (simp_all add: newline_def carriage_def)

lemma encode_no_newline: "textual j \<Longrightarrow> newline \<notin> set (json_encode j) \<and> carriage \<notin> set (json_encode j)"
  using encode_printable(1) [of j newline] encode_printable(1) [of j carriage] by auto

text \<open>A data frame with an object, and the terminator.\<close>

definition data_frame :: "string \<Rightarrow> string" where
  "data_frame payload = data_prefix @ '' '' @ payload @ [newline, newline]"

lemma TrimSpace_leading: "TrimSpace (CHR '' '' # s) = TrimSpace s"
  by (simp add: TrimSpace_def TrimLeftSpace.simps [of "CHR '' '' # s"] byte_of_def space1_def)

lemma space_suffix_closed:
  assumes "\<not> space1 (byte_of c)" "byte_of c < 128"
  shows "space_suffix (s @ [c]) = 0"
proof -
  have 1: "last_n 1 (s @ [c]) = [c]" by (simp add: last_n_def)
  have 2: "last_n 2 (s @ [c]) = last_n 1 s @ [c]" by (simp add: last_n_def)
  have 3: "last_n 3 (s @ [c]) = last_n 2 s @ [c]" by (simp add: last_n_def)
  have two: "space_rune (u @ [c]) \<noteq> 2" if "length u \<le> 1" for u
    using assms that by (cases u) (auto simp: space2_def)
  have three: "space_rune (u @ [c]) \<noteq> 3" if "length u \<le> 2" for u
    using assms that by (cases u; cases "tl u") (auto simp: space3_def)
  have "space_rune [c] = 0" using assms by simp
  then show ?thesis
    using two [of "last_n 1 s"] three [of "last_n 2 s"]
    unfolding space_suffix_def 1 2 3 by simp
qed

lemma TrimSpace_object: "TrimSpace (json_encode (JObj ms)) = json_encode (JObj ms)"
  using space_suffix_closed [of "CHR ''}''" "''{'' @ enc_members ms"]
  by (intro TrimSpace_fixed) (auto simp: space1_def space2_def space3_def byte_of_def split: list.split)

lemma sseData_frame:
  assumes "carriage \<notin> set p" "newline \<notin> set p" "TrimSpace p = p" "p \<noteq> []"
  shows "sseData (data_prefix @ '' '' @ p @ [newline]) = Some p"
proof -
  have "last p \<notin> set [carriage, newline]" using last_in_set [OF assms(4)] assms(1,2) by auto
  then have "TrimRight (data_prefix @ '' '' @ p) [carriage, newline] = data_prefix @ '' '' @ p"
    using assms(4) by (intro TrimRight_fixed) simp
  then have "TrimRight (data_prefix @ '' '' @ p @ [newline]) [carriage, newline] = data_prefix @ '' '' @ p"
    using TrimRight_append [of "[newline]" "[carriage, newline]" "data_prefix @ '' '' @ p"] by simp
  then show ?thesis using TrimSpace_leading [of p] assms(3) by (simp add: sseData_def)
qed

lemma sseData_blank: "sseData [newline] = None"
  by (simp add: sseData_def TrimRight_def HasPrefix_def data_prefix_def)

lemma data_prefix_newline: "newline \<notin> set data_prefix" "newline \<noteq> CHR '' ''"
  by (code_simp, code_simp)

lemma lines_of_frame:
  "newline \<notin> set p \<Longrightarrow>
   lines_of (data_frame p @ s) = (data_prefix @ '' '' @ p @ [newline]) # [newline] # lines_of s"
  using lines_of_line [of "data_prefix @ '' '' @ p" "newline # s"] data_prefix_newline
  by (simp add: data_frame_def)

lemma done_payload: "carriage \<notin> set sseDonePayload" "newline \<notin> set sseDonePayload"
  "TrimSpace sseDonePayload = sseDonePayload" "sseDonePayload \<noteq> []"
  by (code_simp, code_simp, code_simp, code_simp)

lemma object_not_done: "json_encode (JObj ms) \<noteq> sseDonePayload"
  by (simp add: sseDonePayload_def)

lemma payloads_frame:
  assumes "carriage \<notin> set p" "newline \<notin> set p" "TrimSpace p = p" "p \<noteq> []"
  shows "payloads (lines_of (data_frame p @ s)) = p # payloads (lines_of s)"
  using assms by (simp add: lines_of_frame sseData_frame [simplified] sseData_blank)

lemma payloads_frames:
  assumes "\<forall>ms \<in> set os. textual (JObj ms)"
  shows "payloads (lines_of (concat (map (\<lambda>ms. data_frame (json_encode (JObj ms))) os) @ s)) =
    map (\<lambda>ms. json_encode (JObj ms)) os @ payloads (lines_of s)"
  using assms
proof (induction os)
  case (Cons ms os)
  then show ?case
    using payloads_frame [OF _ _ TrimSpace_object [of ms]] encode_no_newline [of "JObj ms"] by simp
qed simp

end
