(* ===== verification/Turn_Properties.thy ===== *)
theory Turn_Properties
  imports Gateway Stream_Spec Data_Properties
begin

text \<open>
  The properties of a chat turn: the relay against its specification, what goes upstream, what
  is audited, and when an exchange is stored.
\<close>

section \<open>The relay\<close>

text \<open>C17: the relay writes the lines of the body up to the one with \<open>[DONE]\<close>, each as it came and
  flushed at once, and a blank line after an unfinished last line; without \<open>[DONE]\<close> it has passed on the
  whole body, and closes with an error frame unless the client is gone. The reply is the concatenation of
  the deltas of the data lines before \<open>[DONE]\<close>, and the stream is complete exactly when \<open>[DONE]\<close> was seen.\<close>

theorem relay_computes_spec:
  "let ls = upto_done (lines_of body);
       ps = takeWhile (\<lambda>d. d \<noteq> sseDonePayload) (payloads (lines_of body));
       fin = (sseDonePayload \<in> set (payloads (lines_of body)))
   in relayStream cancelled body [] 0 =
        (concat (map (\<lambda>l. [Write l] @ (if last l \<noteq> newline then [Write [newline, newline]] else []) @ [Flush]) ls)
           @ (if fin \<or> cancelled then []
              else writeSSEError errUpstream ''the model backend ended the stream unexpectedly'' @ [Flush]),
         if fin then \<lparr>Role = RoleAssistant, Content = concat (map deltaContent ps)\<rparr> else \<lparr>Role = [], Content = []\<rparr>,
         fin, length ps)
      \<and> prefix (concat ls) body \<and> (fin \<or> concat ls = body)"
proof -
  have w: "relay_writes l = [Write l] @ (if last l \<noteq> newline then [Write [newline, newline]] else []) @ [Flush]"
    if "l \<in> set (upto_done (lines_of body))" for l
    using lines_of_nonempty upto_done_set that by (auto simp: relay_writes_def lf_def newline_def)
  have map: "map relay_writes (upto_done (lines_of body)) =
      map (\<lambda>l. [Write l] @ (if last l \<noteq> newline then [Write [newline, newline]] else []) @ [Flush]) (upto_done (lines_of body))"
    by (rule list.map_cong [OF refl w])
  have "prefix (concat (upto_done (lines_of body))) (concat (lines_of body))"
    "sseDonePayload \<in> set (payloads (lines_of body)) \<or> upto_done (lines_of body) = lines_of body"
    using prefix_concat [OF upto_done_prefix] upto_done_all by blast+
  then show ?thesis
    unfolding relayStream_spec relay_spec_def map Let_def concat_lines_of
    by (cases "sseDonePayload \<in> set (payloads (lines_of body))") (simp_all add: relay_broken_def concat_lines_of)
qed

text \<open>A well-formed stream: one frame per object, the terminator, and anything after it.\<close>

definition object_text :: "(string \<times> json) list \<Rightarrow> string" where
  "object_text ms = json_encode (JObj ms)"

definition stream_body :: "(string \<times> json) list list \<Rightarrow> string \<Rightarrow> string" where
  "stream_body os tail = concat (map (\<lambda>ms. data_frame (object_text ms)) os) @ data_frame sseDonePayload @ tail"

lemma object_text_not_done: "object_text ms \<noteq> sseDonePayload"
  unfolding object_text_def by (rule object_not_done)

lemma stream_payloads:
  assumes "\<forall>ms \<in> set os. textual (JObj ms)"
  shows "payloads (lines_of (stream_body os tail)) = map object_text os @ sseDonePayload # payloads (lines_of tail)"
  using payloads_frames [OF assms, folded object_text_def] payloads_frame [OF done_payload]
  by (simp add: stream_body_def)

lemma takeWhile_objects:
  "takeWhile (\<lambda>d. d \<noteq> sseDonePayload) (map object_text os @ sseDonePayload # r) = map object_text os"
  by (induction os) (simp_all add: object_text_not_done)

lemma relay_frames:
  assumes "\<forall>ms \<in> set os. textual (JObj ms)"
  shows "snd (relayStream cancelled (stream_body os tail) [] 0) =
    (\<lparr>Role = RoleAssistant, Content = concat (map (deltaContent \<circ> object_text) os)\<rparr>, True, length os)"
  by (simp add: relayStream_spec relay_spec_def stream_payloads [OF assms] takeWhile_objects Let_def)

text \<open>A chunk as an OpenAI-style server writes it, and the piece of reply it carries.\<close>

definition chunk_object :: "string \<Rightarrow> (string \<times> json) list" where
  "chunk_object d = [(''object'', JStr ''chat.completion.chunk''),
     (''choices'', JArr [JObj [(''delta'', JObj [(''content'', JStr d)])]])]"

lemma chunk_literals:
  "utf8_valid ''object''" "utf8_valid ''chat.completion.chunk''" "utf8_valid ''choices''"
  "utf8_valid ''delta''" "utf8_valid ''content''" "fold_name ''object'' = ''object''" "fold_name ''choices'' = ''choices''"
  by (intro utf8_valid_ascii fold_name_lower; simp add: byte_of_def)+

lemma chunk_textual: "utf8_valid d \<Longrightarrow> textual (JObj (chunk_object d))"
  by (simp add: chunk_object_def chunk_literals)

lemma chunk_fields:
  "find_field chunk_schema ''object'' = None"
  "find_field chunk_schema ''choices'' = Some (dec_slice (decode_struct False chunk_choice_schema) [] (\<lambda>cs. cs) (\<lambda>cs _. cs))"
  "find_field chunk_choice_schema ''delta'' = Some (decode_struct False delta_schema)"
  "find_field delta_schema ''content'' = Some (dec_string (\<lambda>s _. s))"
  by (simp_all add: find_field_def chunk_schema_def chunk_choice_schema_def delta_schema_def chunk_literals del: fold_name.simps)

lemma deltaContent_chunk:
  assumes "utf8_valid d" shows "deltaContent (object_text (chunk_object d)) = d"
proof -
  have "json_unmarshal (object_text (chunk_object d)) = Some (JObj (chunk_object d))"
    unfolding object_text_def by (rule json_unmarshal_encode) (rule chunk_textual [OF assms])
  then show ?thesis
    by (simp add: deltaContent_def chunk_object_def chunk_fields decode_struct_def dec_slice_def dec_string_def)
qed

text \<open>C6: a reply streamed as data frames, one chunk per piece of text, and closed by \<open>[DONE]\<close> is
  reconstructed exactly, whatever its UTF-8 text and whatever follows the terminator.\<close>

theorem stream_roundtrip:
  assumes "\<forall>d \<in> set ds. utf8_valid d"
  shows "snd (relayStream cancelled (stream_body (map chunk_object ds) tail) [] 0) =
    (\<lparr>Role = RoleAssistant, Content = concat ds\<rparr>, True, length ds)"
proof -
  have "map (deltaContent \<circ> object_text \<circ> chunk_object) ds = ds"
    using assms by (intro map_idI) (simp add: deltaContent_chunk)
  then show ?thesis
    using assms relay_frames [of "map chunk_object ds" cancelled tail] chunk_textual
    by (simp add: comp_assoc)
qed

theorem stream_roundtrip_witness:
  "snd (relayStream False (stream_body (map chunk_object [''He'', ''llo'']) []) [] 0) =
    (\<lparr>Role = RoleAssistant, Content = ''Hello''\<rparr>, True, 2)"
proof -
  have "utf8_valid ''He''" "utf8_valid ''llo''" by (intro utf8_valid_ascii; simp add: byte_of_def)+
  then show ?thesis using stream_roundtrip [of "[''He'', ''llo'']" False "[]"] by simp
qed

section \<open>Upstream\<close>

lemma bookkeeping_net: "bookkeeping u v \<Longrightarrow> net_log v = net_log u"
proof -
  assume "bookkeeping u v"
  then have e: "v = u\<lparr>clock := clock v, ticks := ticks v, logs := logs v, tasks := tasks v\<rparr>"
    by (simp add: bookkeeping_def)
  show ?thesis by (subst e) simp
qed

lemma path_after_net: "path_after n c lg r p w v \<Longrightarrow> net_log v = net_log w"
  unfolding path_after_def
  using touches_facts(5) [OF PersistExchange_touches(1)] bookkeeping_net [OF audited_bookkeeping] by metis

text \<open>A prepared turn makes exactly one upstream call, on both paths the same request (the
  assembled context and the sampling parameters of the body) but for the stream flag, to the
  configured URL with the shared bearer key.\<close>

theorem one_upstream_call:
  assumes "url_ok w (cl_baseURL c @ chatCompletionsPath)" "rq_flusher r"
  shows "net_log (snd (run_turn (db_handler n c lg) r p w)) =
    net_log w @ [sent_request c (format_float w) ((upstream_request p)\<lparr>vq_Stream := rb_Stream (pt_req p)\<rparr>)]"
proof -
  have "net_log (snd (run_turn (db_handler n c lg) r p w)) = net_log (called c r p w)"
    using run_turn_after by (rule path_after_net)
  also have "\<dots> = net_log w @ [sent_request c (format_float w) ((upstream_request p)\<lparr>vq_Stream := rb_Stream (pt_req p)\<rparr>)]"
    using assms by (simp add: called_def call_world Client_do_sends)
  finally show ?thesis .
qed

definition sample_prepared :: "bool \<Rightarrow> preparedTurn" where
  "sample_prepared stream = \<lparr>pt_cred = sample_credential,
     pt_conv = \<lparr>cv_ID = ''s1'', cv_APIKeyID = ''k1'', cv_Model = ''m'', cv_CreatedAt = 1, cv_UpdatedAt = 1\<rparr>,
     pt_incoming = [\<lparr>Role = RoleUser, Content = ''Go on''\<rparr>],
     pt_assembled = [\<lparr>Role = RoleUser, Content = ''Go on''\<rparr>], pt_effModel = ''m'',
     pt_req = zero_request\<lparr>rb_Stream := stream\<rparr>, pt_start = 0\<rparr>"

theorem one_upstream_call_witness:
  "length (net_log (snd (run_turn (db_handler 0 sample_client sample_logger) (sample_request []) (sample_prepared True) sample_world))) = 1"
  by (subst one_upstream_call) (simp_all add: sample_world_def sample_request_def)

lemma audit_messages: "messages (audit (db_handler n c lg) r p out st pt ct k w) = messages w"
proof -
  let ?v = "audit (db_handler n c lg) r p out st pt ct k w"
  have e: "?v = w\<lparr>clock := clock ?v, ticks := ticks ?v, logs := logs ?v, tasks := tasks ?v\<rparr>"
    using audit_bookkeeping [of w n c lg r p out st pt ct k] by (simp only: bookkeeping_def)
  show ?thesis by (subst e) simp
qed

lemma quiet_messages: "same_but_net w w' \<Longrightarrow> messages w' = messages w"
  by (auto simp: same_but_net_def)

lemma call_messages:
  "Complete c q w = (x, w1) \<Longrightarrow> messages w1 = messages w" "vllm_Stream c q w = (y, w1) \<Longrightarrow> messages w1 = messages w"
  using client_complete_quiet [of w c q] client_stream_quiet [of w c q] by (auto dest: quiet_messages)

text \<open>What the gateway answers when it got no usable response from the model backend.\<close>

definition backend_error :: "bool \<Rightarrow> wcall list" where
  "backend_error stream = writeError errUpstream
     (if stream then ''the model backend could not start the stream'' else ''the model backend could not complete the request'')"

lemma run_turn_failed:
  assumes "run_turn (db_handler n c lg) r p w = (out, w')" "rq_flusher r"
    and "if rb_Stream (pt_req p) then fst (vllm_Stream c (upstream_request p) w) = Inl e
      else fst (Complete c (upstream_request p) w) = Inl e"
  shows "out = backend_error (rb_Stream (pt_req p)) \<and> messages w' = messages w"
  using assms
  by (auto simp: run_turn_def streamChat_def completeChat_def backend_error_def audit_messages
      split: prod.splits if_splits dest: call_messages)

text \<open>C30: when the model backend fails, no message is stored. A URL that cannot be used, a lost
  connection, a status outside 2xx and, on the non-streaming path, a body that is not the JSON of a completion
  are answered 502 with a fixed text of the gateway's own; so is a completion without choices. A stream
  that ends without \<open>[DONE]\<close> has been passed on, and ends with an error frame unless the client is gone.\<close>

theorem upstream_failure:
  assumes "run_turn (db_handler n c lg) r p w = (out, w')" "rq_flusher r"
  shows "let stream = rb_Stream (pt_req p); nothing_stored = (messages w' = messages w)
    in case upstream_answer c ((upstream_request p)\<lparr>vq_Stream := stream\<rparr>) w of
        None \<Rightarrow> out = backend_error stream \<and> nothing_stored
      | Some resp \<Rightarrow>
          if in_status resp < 200 \<or> 300 \<le> in_status resp then out = backend_error stream \<and> nothing_stored
          else if stream then sseDonePayload \<in> set (payloads (lines_of (in_body resp))) \<or>
            (out = stream_headers (cv_ID (pt_conv p)) @ concat (map relay_writes (lines_of (in_body resp))) @
               (if rq_ctxerr r 0 then []
                else writeSSEError errUpstream ''the model backend ended the stream unexpectedly'' @ [Flush]) \<and>
             nothing_stored)
          else if \<forall>v t. json_scan (in_body resp) \<noteq> POk v t then out = backend_error False \<and> nothing_stored
          else case decode_body resp of
            None \<Rightarrow> out = backend_error False \<and> nothing_stored
          | Some a \<Rightarrow> vr_Choices a \<noteq> [] \<or>
              (out = writeError errUpstream ''the model backend returned no completion'' \<and> nothing_stored)"
proof (cases "rb_Stream (pt_req p)")
  case stream: True
  have fails: "out = backend_error True \<and> messages w' = messages w"
    if "\<exists>e. fst (vllm_Stream c (upstream_request p) w) = Inl e"
    using that run_turn_failed [OF assms] stream by auto
  show ?thesis
  proof (cases "upstream_answer c ((upstream_request p)\<lparr>vq_Stream := True\<rparr>) w")
    case None
    with Stream_answer(1) [OF None] fails stream show ?thesis by (auto simp: Let_def)
  next
    case (Some resp)
    show ?thesis
    proof (cases "status_2xx resp")
      case False
      then have "in_status resp < 200 \<or> 300 \<le> in_status resp" by (auto simp: status_2xx_def)
      with Stream_answer(2) [OF Some False] fails stream Some show ?thesis by (auto simp: Let_def)
    next
      case True
      from Stream_answer(3) [OF Some True] obtain w1
        where st: "vllm_Stream c (upstream_request p) w = (Inr \<lparr>sr_Body = in_body resp, sr_End = in_end resp\<rparr>, w1)"
        by (auto simp: prod_eq_iff)
      have "out = stream_headers (cv_ID (pt_conv p)) @ concat (map relay_writes (lines_of (in_body resp))) @
          relay_broken (rq_ctxerr r 0) \<and> messages w' = messages w"
        if "sseDonePayload \<notin> set (payloads (lines_of (in_body resp)))"
        using assms that stream call_messages(2) [OF st]
        by (auto simp: run_turn_def streamChat_def st relayStream_spec relay_spec_def upto_done_all Let_def audit_messages)
      then show ?thesis using Some True stream by (auto simp: Let_def status_2xx_def relay_broken_def)
    qed
  qed
next
  case plain: False
  have fails: "out = backend_error False \<and> messages w' = messages w"
    if "\<exists>e. fst (Complete c (upstream_request p) w) = Inl e"
    using that run_turn_failed [OF assms] plain by auto
  show ?thesis
  proof (cases "upstream_answer c ((upstream_request p)\<lparr>vq_Stream := False\<rparr>) w")
    case None
    with Complete_answer(1) [OF None] fails plain show ?thesis by (auto simp: Let_def)
  next
    case (Some resp)
    show ?thesis
    proof (cases "\<not> status_2xx resp \<or> decode_body resp = None")
      case True
      then have "out = backend_error False \<and> messages w' = messages w"
        using Complete_answer(2) [OF Some] by (intro fails) auto
      with True Some plain show ?thesis by (auto simp: Let_def status_2xx_def)
    next
      case False
      then obtain a where a: "status_2xx resp" "decode_body resp = Some a" by auto
      from Complete_answer(3) [OF Some a] obtain w1 where co: "Complete c (upstream_request p) w = (Inr a, w1)"
        by (auto simp: prod_eq_iff)
      have "out = writeError errUpstream ''the model backend returned no completion'' \<and> messages w' = messages w"
        if "vr_Choices a = []"
        using assms(1) that plain call_messages(1) [OF co]
        by (auto simp: run_turn_def completeChat_def co audit_messages)
      moreover have "\<exists>v t. json_scan (in_body resp) = POk v t"
        using a(2) by (auto simp: decode_body_def split: pres.splits)
      ultimately show ?thesis using Some a plain by (auto simp: Let_def status_2xx_def)
    qed
  qed
qed

text \<open>A backend that is down, one that answers 503 and one whose stream breaks off.\<close>

theorem upstream_failure_witness:
  "fst (run_turn (db_handler 0 sample_client sample_logger) (sample_request []) (sample_prepared True) (sample_world\<lparr>net := \<lambda>_ _. NetErr\<rparr>))
     = backend_error True \<and>
   fst (run_turn (db_handler 0 sample_client sample_logger) (sample_request []) (sample_prepared False)
       (sample_world\<lparr>net := \<lambda>_ _. NetResp \<lparr>in_status = 503, in_body = ''{}'', in_end = EndEOF\<rparr>\<rparr>)) = backend_error False \<and>
   fst (run_turn (db_handler 0 sample_client sample_logger) (sample_request []) (sample_prepared True)
       (sample_world\<lparr>net := \<lambda>_ _. NetResp \<lparr>in_status = 200, in_body = [], in_end = EndErr\<rparr>\<rparr>))
     = stream_headers ''s1'' @ writeSSEError errUpstream ''the model backend ended the stream unexpectedly'' @ [Flush]"
proof -
  note U = upstream_failure [where n = 0 and c = sample_client and lg = sample_logger and r = "sample_request []",
      OF prod.collapse [symmetric]]
  note facts = upstream_answer_def sample_world_def sample_prepared_def sample_request_def Let_def
  show ?thesis
    using U [where p = "sample_prepared True" and w = "sample_world\<lparr>net := \<lambda>_ _. NetErr\<rparr>"]
      U [where p = "sample_prepared False" and w = "sample_world\<lparr>net := \<lambda>_ _. NetResp \<lparr>in_status = 503, in_body = ''{}'', in_end = EndEOF\<rparr>\<rparr>"]
      U [where p = "sample_prepared True" and w = "sample_world\<lparr>net := \<lambda>_ _. NetResp \<lparr>in_status = 200, in_body = [], in_end = EndErr\<rparr>\<rparr>"]
    by (simp add: facts)
qed

section \<open>Storage\<close>

lemma audit_view: "msg_view (audit (db_handler n c lg) r p out st pt ct k w) = msg_view w"
proof -
  let ?v = "audit (db_handler n c lg) r p out st pt ct k w"
  have e: "?v = w\<lparr>clock := clock ?v, ticks := ticks ?v, logs := logs ?v, tasks := tasks ?v\<rparr>"
    using audit_bookkeeping [of w n c lg r p out st pt ct k] by (simp only: bookkeeping_def)
  show ?thesis by (subst e) (simp add: msg_view_def)
qed

text \<open>
  What is stored after an upstream call is stored as of before it; the audit that follows changes
  none of it. \<open>turn_exchange p w a\<close> is the exchange of the turn with reply \<open>a\<close>.
\<close>

definition turn_exchange :: "preparedTurn \<Rightarrow> 'a conv_db_scheme \<Rightarrow> Message \<Rightarrow> Message list" where
  "turn_exchange p w a = dropOverlap (toMessages (session_history w (cv_ID (pt_conv p)))) (pt_incoming p) @ [a]"

lemma Persist_stored:
  assumes "same_but_net w w1" "PersistExchange (db_core n) (pt_conv p) (pt_incoming p) a w1 = (y, w2)"
    and "msg_view w' = msg_view w2"
  shows "if y = Inr () then exchange_stored w w' (cv_ID (pt_conv p)) (turn_exchange p w a)
    else messages w' = messages w \<or> exchange_stored w w' (cv_ID (pt_conv p)) (turn_exchange p w a)"
proof -
  have v: "msg_view w1 = msg_view w" "clock w1 = clock w" "ticks w1 = ticks w"
    using assms(1) by (auto simp: same_but_net_def msg_view_def)
  have "exchange_of w1 = exchange_of w" by (rule exchange_of_cong [OF v(1)])
  with PersistExchange_stored [OF assms(2) [unfolded db_core_def]] v assms(3)
    exchange_stored_cong [OF v assms(3) [symmetric]]
  show ?thesis by (auto simp: turn_exchange_def exchange_of_def msg_view_def)
qed

text \<open>C8: a 200 on the non-streaming path means the exchange is stored: the body is the session id,
  the model and the text of the upstream's first choice, and the session's new rows are the new part of
  the turn and that reply, in order. They are the end of the session when the clock is past every message of it.\<close>

theorem reply_is_stored:
  assumes "completeChat (db_handler n c lg) r p w = (out, w')" "status_of out = 200"
  shows "\<exists>resp ch chs. fst (Complete c (upstream_request p) w) = Inr resp \<and> vr_Choices resp = ch # chs \<and>
    (let a = \<lparr>Role = RoleAssistant, Content = vm_Content (ch_Message ch)\<rparr>
     in out = writeJSON 200 (chat_response_json (cv_ID (pt_conv p)) (pt_effModel p) a (vr_Usage resp)) \<and>
        exchange_stored w w' (cv_ID (pt_conv p)) (turn_exchange p w a) \<and>
        (settled w (cv_ID (pt_conv p)) \<longrightarrow> toMessages (session_history w' (cv_ID (pt_conv p))) =
           toMessages (session_history w (cv_ID (pt_conv p))) @ turn_exchange p w a))"
proof -
  obtain x w1 where c: "Complete c (upstream_request p) w = (x, w1)" by fastforce
  then have q: "same_but_net w w1" using client_complete_quiet [of w c "upstream_request p"] by simp
  from assms(1,2) obtain resp ch cs where r: "x = Inr resp" "vr_Choices resp = ch # cs"
    by (cases x) (auto simp: completeChat_def c split: list.splits)
  let ?a = "\<lparr>Role = RoleAssistant, Content = vm_Content (ch_Message ch)\<rparr>"
  obtain y w2 where pe: "PersistExchange (db_core n) (pt_conv p) (pt_incoming p) ?a w1 = (y, w2)" by fastforce
  from assms(1,2) have y: "y = Inr ()"
    and out: "out = writeJSON 200 (chat_response_json (cv_ID (pt_conv p)) (pt_effModel p) ?a (vr_Usage resp))"
    and h: "msg_view w' = msg_view w2"
    by (auto simp: completeChat_def c r pe Let_def audit_view split: prod.splits sum.splits)
  from Persist_stored [OF q pe h] y
  have st: "exchange_stored w w' (cv_ID (pt_conv p)) (turn_exchange p w ?a)" by simp
  show ?thesis
    using out r(2) st exchange_stored_settled [OF st] unfolding c r(1) fst_conv Let_def by blast
qed

lemma sample_reply_200:
  "status_of (fst (completeChat (db_handler 0 sample_client sample_logger) (sample_request []) (sample_prepared False) sample_world)) = 200"
  by code_simp

lemma settled_prepared: "settled sample_world (cv_ID (pt_conv (sample_prepared b)))"
  using sample_settled by (simp add: sample_prepared_def)

theorem reply_is_stored_witness:
  "\<exists>a. toMessages (session_history (snd (completeChat (db_handler 0 sample_client sample_logger) (sample_request [])
     (sample_prepared False) sample_world)) ''s1'') =
     toMessages (session_history sample_world ''s1'') @ turn_exchange (sample_prepared False) sample_world a"
  using reply_is_stored [OF prod.collapse [symmetric] sample_reply_200] settled_prepared [of False]
  by (auto simp: sample_prepared_def Let_def)

text \<open>C9: on the streaming path an exchange is stored only after \<open>[DONE]\<close> of a 2xx stream, and then as the
  new part of the turn and the text of the data lines before it, in order; or it is not stored and the stream
  ends with an error frame that says so. A stream that never started or that broke off (the model backend's end,
  or the client's leaving) stores nothing.\<close>

theorem stream_storage:
  assumes "streamChat (db_handler n c lg) r p w = (out, w')"
  shows "case upstream_answer c ((upstream_request p)\<lparr>vq_Stream := True\<rparr>) w of
      None \<Rightarrow> messages w' = messages w
    | Some resp \<Rightarrow>
        (let ps = payloads (lines_of (in_body resp));
             a = \<lparr>Role = RoleAssistant, Content = concat (map deltaContent (takeWhile (\<lambda>d. d \<noteq> sseDonePayload) ps))\<rparr>
         in if rq_flusher r \<and> 200 \<le> in_status resp \<and> in_status resp < 300 \<and> sseDonePayload \<in> set ps
            then exchange_stored w w' (cv_ID (pt_conv p)) (turn_exchange p w a) \<or>
              (messages w' = messages w \<and>
               suffix (writeSSEError errInternal ''the reply was delivered but could not be saved'' @ [Flush]) out)
            else messages w' = messages w)"
proof -
  obtain x w1 where s: "vllm_Stream c (upstream_request p) w = (x, w1)" by fastforce
  then have q: "same_but_net w w1" using client_stream_quiet [of w c "upstream_request p"] by simp
  have failed: "messages w' = messages w" if "\<not> rq_flusher r \<or> (\<exists>e. x = Inl e)"
    using that assms quiet_messages [OF q] by (auto simp: streamChat_def s audit_messages split: if_splits)
  show ?thesis
  proof (cases "upstream_answer c ((upstream_request p)\<lparr>vq_Stream := True\<rparr>) w")
    case None
    with Stream_answer(1) [OF None] failed show ?thesis by (simp add: s)
  next
    case (Some resp)
    let ?ps = "payloads (lines_of (in_body resp))"
    let ?a = "\<lparr>Role = RoleAssistant, Content = concat (map deltaContent (takeWhile (\<lambda>d. d \<noteq> sseDonePayload) ?ps))\<rparr>"
    show ?thesis
    proof (cases "rq_flusher r \<and> status_2xx resp")
      case False
      with Stream_answer(2) [OF Some] have "messages w' = messages w" by (intro failed) (auto simp: s)
      then show ?thesis using False Some by (auto simp: Let_def status_2xx_def)
    next
      case ok: True
      then have x: "x = Inr \<lparr>sr_Body = in_body resp, sr_End = in_end resp\<rparr>"
        using Stream_answer(3) [OF Some] by (simp add: s)
      show ?thesis
      proof (cases "sseDonePayload \<in> set ?ps")
        case False
        then have "messages w' = messages w"
          using assms ok quiet_messages [OF q]
          by (auto simp: streamChat_def s x relayStream_spec relay_spec_def Let_def audit_messages)
        then show ?thesis using False Some by (simp add: Let_def)
      next
        case True
        obtain y w2 where pe: "PersistExchange (db_core n) (pt_conv p) (pt_incoming p) ?a w1 = (y, w2)" by fastforce
        from assms ok True have v: "msg_view w' = msg_view w2"
          and e: "y = Inr () \<or> suffix (writeSSEError errInternal ''the reply was delivered but could not be saved'' @ [Flush]) out"
          by (auto simp: streamChat_def s x pe relayStream_spec relay_spec_def Let_def audit_view suffix_def split: sum.splits)
        from Persist_stored [OF q pe v] e True ok show ?thesis
          by (auto simp: Some Let_def status_2xx_def split: if_splits)
      qed
    qed
  qed
qed

text \<open>A stream that breaks off, and one that is complete.\<close>

definition stream_world :: "string \<Rightarrow> usage_db" where
  "stream_world body = sample_world\<lparr>net := \<lambda>_ _. NetResp \<lparr>in_status = 200, in_body = body, in_end = EndErr\<rparr>\<rparr>"

definition streamed :: "string \<Rightarrow> wcall list \<times> usage_db" where
  "streamed body = streamChat (db_handler 0 sample_client sample_logger) (sample_request []) (sample_prepared True) (stream_world body)"

definition sample_stream :: string where
  "sample_stream = stream_body [chunk_object ''Hi''] []"

lemma sample_stream_facts:
  "takeWhile (\<lambda>d. d \<noteq> sseDonePayload) (payloads (lines_of sample_stream)) = [object_text (chunk_object ''Hi'')]"
  "sseDonePayload \<in> set (payloads (lines_of sample_stream))" "deltaContent (object_text (chunk_object ''Hi'')) = ''Hi''"
proof -
  have u: "utf8_valid ''Hi''" by (intro utf8_valid_ascii; simp add: byte_of_def)+
  have p: "payloads (lines_of sample_stream) = [object_text (chunk_object ''Hi''), sseDonePayload]"
    using stream_payloads [of "[chunk_object ''Hi'']" "[]"] chunk_textual [OF u] by (simp add: sample_stream_def)
  show "takeWhile (\<lambda>d. d \<noteq> sseDonePayload) (payloads (lines_of sample_stream)) = [object_text (chunk_object ''Hi'')]"
    "sseDonePayload \<in> set (payloads (lines_of sample_stream))" "deltaContent (object_text (chunk_object ''Hi'')) = ''Hi''"
    using deltaContent_chunk [OF u] object_text_not_done by (simp_all add: p)
qed

lemma sample_stores:
  "length (messages (snd (PersistExchange (db_core 0) (pt_conv (sample_prepared True)) (pt_incoming (sample_prepared True))
     \<lparr>Role = RoleAssistant, Content = ''Hi''\<rparr> (sample_world\<lparr>net := f, net_log := l\<rparr>)))) = 4"
  by code_simp

lemma sample_streamed: "length (messages (snd (streamed sample_stream))) = 4"
proof -
  let ?w = "stream_world sample_stream"
  obtain l where w1: "snd (vllm_Stream sample_client (upstream_request (sample_prepared True)) ?w) = ?w\<lparr>net_log := l\<rparr>"
    using client_stream_quiet [of ?w sample_client "upstream_request (sample_prepared True)"] by (auto simp: same_but_net_def)
  have st: "fst (vllm_Stream sample_client (upstream_request (sample_prepared True)) ?w) = Inr \<lparr>sr_Body = sample_stream, sr_End = EndErr\<rparr>"
    by (rule Stream_answer(3) [where r = "\<lparr>in_status = 200, in_body = sample_stream, in_end = EndErr\<rparr>", simplified])
      (simp_all add: upstream_answer_def status_2xx_def stream_world_def, simp_all add: sample_world_def)
  have "messages (snd (streamed sample_stream)) = messages (snd (PersistExchange (db_core 0) (pt_conv (sample_prepared True))
      (pt_incoming (sample_prepared True)) \<lparr>Role = RoleAssistant, Content = ''Hi''\<rparr> (?w\<lparr>net_log := l\<rparr>)))"
    using w1 st
    by (cases "vllm_Stream sample_client (upstream_request (sample_prepared True)) ?w")
      (simp add: streamed_def streamChat_def relayStream_spec relay_spec_def sample_stream_facts sample_request_def
        audit_messages Let_def split: prod.split sum.split)
  then show ?thesis by (simp add: stream_world_def sample_stores)
qed

theorem stream_storage_witness:
  "messages (snd (streamed [])) = messages (stream_world []) \<and>
   exchange_stored (stream_world sample_stream) (snd (streamed sample_stream)) ''s1''
     (turn_exchange (sample_prepared True) (stream_world sample_stream) \<lparr>Role = RoleAssistant, Content = ''Hi''\<rparr>)"
proof -
  note U = stream_storage [where n = 0 and c = sample_client and lg = sample_logger and r = "sample_request []"
      and p = "sample_prepared True", OF prod.collapse [symmetric]]
  have a: "upstream_answer sample_client q (stream_world b) = Some \<lparr>in_status = 200, in_body = b, in_end = EndErr\<rparr>" for q b
    by (simp add: upstream_answer_def stream_world_def, simp add: sample_world_def)
  have id: "cv_ID (pt_conv (sample_prepared True)) = ''s1''" "rq_flusher (sample_request [])"
    by (simp_all add: sample_prepared_def sample_request_def)
  have l: "length (messages (stream_world b)) = 2" for b by (simp add: stream_world_def, simp add: sample_world_def)
  have "messages (snd (streamed sample_stream)) \<noteq> messages (stream_world sample_stream)"
    by (rule ccontr) (use sample_streamed l [of sample_stream] in simp)
  then show ?thesis
    using U [where w = "stream_world []"] U [where w = "stream_world sample_stream"]
    by (simp add: a id sample_stream_facts Let_def flip: streamed_def)
qed

section \<open>Audit\<close>

lemma audited_record:
  assumes "audited n c lg r p u v"
  obtains rec where "tasks v = tasks u @ [TaskUsage lg rec]" "ur_APIKeyID rec = crd_ID (pt_cred p)"
    "ur_ConversationID rec = cv_ID (pt_conv p)" "ur_PromptMsgCount rec = int (length (pt_assembled p))"
proof -
  obtain out st pt ct k where v: "v = audit (db_handler n c lg) r p out st pt ct k u"
    using assms by (auto simp: audited_def)
  obtain t w' where n: "now u = (t, w')" by fastforce
  then have "tasks w' = tasks u" using now_facts(6) [of u] by simp
  then show ?thesis
    using that [of "fst (usageRecord p out st pt ct u)"]
    by (simp add: v audit_eq usageRecord_def n LogAttrs_def log_line_def spawn_def)
qed

lemma path_after_audit:
  assumes "path_after n c lg r p w v"
  obtains rec where "tasks v = tasks w @ [TaskUsage lg rec]" "ur_APIKeyID rec = crd_ID (pt_cred p)"
    "ur_ConversationID rec = cv_ID (pt_conv p)" "ur_PromptMsgCount rec = int (length (pt_assembled p))"
proof -
  obtain u where a: "audited n c lg r p u v" and
    u: "u = w \<or> (\<exists>a x. Role a = RoleAssistant \<and> PersistExchange (db_core n) (pt_conv p) (pt_incoming p) a w = (x, u))"
    using assms by (auto simp: path_after_def)
  have "tasks u = tasks w" using u touches_facts(3) [OF PersistExchange_touches(1)] by auto
  with a show ?thesis by (elim audited_record) (simp add: that)
qed

text \<open>C10: every accepted call, on either path and whatever its end, starts exactly one audit write, for
  the calling credential and the session of the turn; a rejected call starts none.\<close>

theorem one_audit_per_call:
  "case prepareTurn (db_handler n c lg) r (snd (now w)) of
     (Inl _, _) \<Rightarrow> tasks (world_of (Chat (db_handler n c lg) r w)) = tasks w
   | (Inr p, _) \<Rightarrow> \<exists>rec. tasks (world_of (Chat (db_handler n c lg) r w)) = tasks w @ [TaskUsage lg rec]
       \<and> ur_APIKeyID rec = crd_ID (pt_cred p) \<and> ur_ConversationID rec = cv_ID (pt_conv p)
       \<and> ur_PromptMsgCount rec = int (length (pt_assembled p))"
proof (cases rule: Chat_world [of n c lg r w])
  case (rejected out w1)
  have "tasks w1 = tasks w"
    using touches_facts(3) [OF prepareTurn_world(1) [OF rejected(2)]] by (simp add: now_facts)
  with rejected show ?thesis by simp
next
  case (accepted p w1)
  have "tasks (called c r p' w1) = tasks w" for p'
    using quiet_facts(6) [OF called_quiet [of w1 c r p']] touches_facts(3) [OF prepareTurn_world(1) [OF accepted(1)]]
    by (simp add: now_facts)
  with accepted show ?thesis by (elim path_after_audit) simp
qed

section \<open>Preparation\<close>

text \<open>C31: the only system message of an upstream context is the credential's persona, in front; a
  caller's turn, and a history that never held a system message, contribute none.\<close>

theorem only_the_persona_is_system:
  assumes "prepareTurn (db_handler n c lg) r w = (Inr p, w')"
    and "\<forall>m \<in> set (session_history w (cv_ID (pt_conv p))). turn_role (sm_Role m)"
  shows "filter (\<lambda>m. Role m = RoleSystem) (pt_assembled p) =
      persona_messages (case crd_Persona (pt_cred p) of None \<Rightarrow> [] | Some q \<Rightarrow> q) \<and>
    prefix (persona_messages (case crd_Persona (pt_cred p) of None \<Rightarrow> [] | Some q \<Rightarrow> q)) (pt_assembled p)"
proof -
  from assms(1) obtain req w1 where inc: "parseIncoming req = Inr (pt_incoming p)"
    and rs: "Resolve (db_core n) (crd_ID (pt_cred p)) (TrimSpace (rb_SessionID req)) (TrimSpace (rb_Model req)) w = (Inr (pt_conv p), w1)"
    and ac: "AssembleContext (db_core n) (case crd_Persona (pt_cred p) of None \<Rightarrow> [] | Some q \<Rightarrow> q) (pt_conv p) (pt_incoming p) w1 = (Inr (pt_assembled p), w')"
    by (rule prepareTurn_Inr) blast
  define h where "h = toMessages (session_history w (cv_ID (pt_conv p)))"
  define new where "new = dropOverlap h (pt_incoming p)"
  have "session_history w1 = session_history w"
    using Resolve_history [of n "crd_ID (pt_cred p)" "TrimSpace (rb_SessionID req)" "TrimSpace (rb_Model req)" w] rs by simp
  then obtain M where "pt_assembled p = assemble M (case crd_Persona (pt_cred p) of None \<Rightarrow> [] | Some q \<Rightarrow> q) h (pt_incoming p)"
    using repo_conv.AssembleContext_result [OF ac] by (simp add: h_def)
  then obtain k where out: "pt_assembled p = persona_messages (case crd_Persona (pt_cred p) of None \<Rightarrow> [] | Some q \<Rightarrow> q) @ last_n k (h @ new)"
    unfolding assemble_last_n new_def by blast
  have "\<forall>m \<in> set (pt_incoming p). turn_role (Role m)" using parseIncoming_turns [OF inc] by blast
  then have "\<forall>m \<in> set (h @ new). Role m \<noteq> RoleSystem"
    using assms(2) set_dropOverlap [of h "pt_incoming p"]
    by (fastforce simp: h_def new_def toMessages_def turn_role_def RoleSystem_def RoleUser_def RoleAssistant_def)
  then have "filter (\<lambda>m. Role m = RoleSystem) (last_n k (h @ new)) = []"
    using set_last_n [of k "h @ new"] by (auto simp: filter_empty_conv simp del: set_append)
  then show ?thesis by (auto simp: out persona_messages_def)
qed

lemma sample_prepare:
  "case fst (prepareTurn (db_handler 0 sample_client sample_logger) (sample_request sample_body) sample_world) of
     Inl _ \<Rightarrow> False | Inr p \<Rightarrow> cv_ID (pt_conv p) = ''s1''"
  by code_simp

lemma sample_history: "session_history sample_world ''s1'' = messages sample_world"
  by (simp add: session_history_def sample_world_def oldest_first_def messages_of_def sample_message_def)

theorem only_the_persona_is_system_witness:
  "\<exists>p w'. prepareTurn (db_handler 0 sample_client sample_logger) (sample_request sample_body) sample_world = (Inr p, w') \<and>
    filter (\<lambda>m. Role m = RoleSystem) (pt_assembled p) = persona_messages (case crd_Persona (pt_cred p) of None \<Rightarrow> [] | Some q \<Rightarrow> q)"
proof -
  obtain p w' where p: "prepareTurn (db_handler 0 sample_client sample_logger) (sample_request sample_body) sample_world = (Inr p, w')"
    and id: "cv_ID (pt_conv p) = ''s1''"
    using sample_prepare by (cases "prepareTurn (db_handler 0 sample_client sample_logger) (sample_request sample_body) sample_world")
      (auto split: sum.splits)
  have "\<forall>m \<in> set (session_history sample_world (cv_ID (pt_conv p))). turn_role (sm_Role m)"
    unfolding id sample_history by (simp add: sample_world_def sample_message_def turn_role_def)
  from only_the_persona_is_system [OF p this] p show ?thesis by blast
qed

text \<open>A call that is rejected before the model is answered 400, 401, 404 or 503; it stores no
  message, makes no upstream call and starts no audit.\<close>

theorem rejected_call:
  assumes "prepareTurn (db_handler n c lg) r w = (Inl out, w')"
  shows "status_of out \<in> {400, 401, 404, 503} \<and> session_history w' = session_history w \<and>
    net_log w' = net_log w \<and> tasks w' = tasks w"
proof -
  have "status_of out \<in> {400, 401, 404, 503}"
    using assms
    by (auto simp: prepareTurn_def prepare_session_def Let_def split: option.splits sum.splits body_error.splits prod.splits if_splits
        dest!: parseIncoming_error)
  then show ?thesis
    using prepareTurn_world [OF assms] touches_facts(3,5) [OF prepareTurn_world(1) [OF assms]] by simp
qed

theorem rejected_call_witness:
  "status_of (projl (fst (prepareTurn (db_handler 0 sample_client sample_logger) (sample_request []\<lparr>rq_ctx := Background\<rparr>) sample_world)))
    \<in> {400, 401, 404, 503}"
  using rejected_call [of 0 sample_client sample_logger "sample_request []\<lparr>rq_ctx := Background\<rparr>" sample_world
      "writeError errUnauthorized ''authentication required''" sample_world]
  by (simp add: prepareTurn_def CredentialFromContext_def Background_def)

text \<open>A session id that is a UUID of no session of the caller is answered 404; one that is no
  UUID at all is answered 503, because its error is not the repository's not-found. Nothing is
  stored either way.\<close>

theorem session_lookup_errors:
  assumes "healthy w" "CredentialFromContext (rq_ctx r) = Some cred" "uuid_in w (crd_ID cred) = Some a"
    and "decode_request (parse_float w) (rq_body r) = Inr req" "parseIncoming req = Inr inc"
    and "TrimSpace (rb_SessionID req) = s" "s \<noteq> []"
    and "\<not> (\<exists>row \<in> set (conversations w). cr_api_key_id row = a \<and> uuid_in w s = Some (cr_id row))"
  shows "prepareTurn (db_handler n c lg) r w =
    (Inl (if uuid_in w s = None then writeError errUnavailable ''could not load the conversation''
          else writeError errNotFound ''session not found''), w)"
proof -
  have "conv_GetConversation (crd_ID cred) s w =
      (Inl (if uuid_in w s = None then conversation_wrapped (uuid_error w s) else conversation_ErrNotFound), w)"
    using assms(1,3,8)
    by (auto simp: conv_GetConversation_def select_conversation_def split: option.split dest!: find_SomeD)
  then have "Resolve (db_core n) (crd_ID cred) s (TrimSpace (rb_Model req)) w =
      (Inl (if uuid_in w s = None then conversation_wrapped (uuid_error w s) else conversation_ErrNotFound), w)"
    using assms(7) by (simp add: Resolve_def)
  then show ?thesis
    using assms(2,4-7) by (simp add: prepareTurn_def prepare_session_def)
qed

lemma sample_decode: "case decode_request (\<lambda>_. None) sample_body of Inl _ \<Rightarrow> False | Inr req \<Rightarrow>
    rb_SessionID req = ''s1'' \<and> is_ok (parseIncoming req)"
  by code_simp

theorem session_lookup_errors_witness:
  "prepareTurn (db_handler 0 sample_client sample_logger) (sample_request sample_body)
     (sample_world\<lparr>uuid_in := \<lambda>s. if s = ''s1'' then None else Some s\<rparr>) =
   (Inl (writeError errUnavailable ''could not load the conversation''),
     sample_world\<lparr>uuid_in := \<lambda>s. if s = ''s1'' then None else Some s\<rparr>)"
proof -
  let ?w = "sample_world\<lparr>uuid_in := \<lambda>s. if s = ''s1'' then None else Some s\<rparr>"
  obtain req inc where "decode_request (parse_float ?w) (rq_body (sample_request sample_body)) = Inr req"
    "parseIncoming req = Inr inc" "TrimSpace (rb_SessionID req) = ''s1''"
  proof -
    have "TrimSpace ''s1'' = ''s1''" by code_simp
    then show ?thesis using sample_decode that
      by (auto simp: sample_world_def sample_request_def is_ok_iff split: sum.splits)
  qed
  from session_lookup_errors [OF _ _ _ this, of sample_credential "''k1''" 0 sample_client sample_logger]
  show ?thesis by (simp add: healthy_def sample_world_def sample_request_def sample_credential_def)
qed

end
