(* ===== verification/Token.thy ===== *)
theory Token
  imports Req_Context
begin

text \<open>
  \<open>backend/internal/token/token.go\<close>: the admin session token. The JWT library is a parameter:
  \<open>jw_Sign\<close> signs claims with an algorithm and a key; \<open>jw_Parse\<close> takes the key function (of the
  token's algorithm), the valid methods and the time, and gives the claims of a token whose
  signature and dates verify. \<open>jwt_law\<close> is its documented behaviour: a token is base64url text
  with dots, and what was signed with an accepted algorithm and the same key parses to its
  claims until they expire. Times are in nanoseconds, the dates in a token in whole seconds.
\<close>

definition DefaultTTL :: int where "DefaultTTL = 24 * 3600 * 1000000000"
definition signingMethod :: string where "signingMethod = ''HS256''"

datatype token_error = ErrInvalidToken | token_signing

record appClaims =
  ac_IsSuperuser :: bool
  ac_Subject :: string
  ac_IssuedAt :: "int option"
  ac_ExpiresAt :: "int option"

record jwt =
  jw_Sign :: "string \<Rightarrow> string \<Rightarrow> appClaims \<Rightarrow> string option"
  jw_Parse :: "(string \<Rightarrow> string option) \<Rightarrow> string list \<Rightarrow> int \<Rightarrow> string \<Rightarrow> appClaims option"

definition not_expired :: "appClaims \<Rightarrow> int \<Rightarrow> bool" where
  "not_expired c t0 \<longleftrightarrow> (case ac_ExpiresAt c of None \<Rightarrow> True | Some e \<Rightarrow> t0 < e * 1000000000)"

definition token_text :: "string \<Rightarrow> bool" where
  "token_text t \<longleftrightarrow> t \<noteq> [] \<and> set t \<subseteq> insert CHR ''.'' (set b64_alphabet)"

definition jwt_law :: "jwt \<Rightarrow> bool" where
  "jwt_law j \<longleftrightarrow>
     (\<forall>alg key c t. jw_Sign j alg key c = Some t \<longrightarrow> token_text t) \<and>
     (\<forall>alg key c t kf ms t0. jw_Sign j alg key c = Some t \<longrightarrow> kf alg = Some key \<longrightarrow> alg \<in> set ms \<longrightarrow>
        jw_Parse j kf ms t0 t = (if not_expired c t0 then Some c else None))"

lemma token_bytes: "token_text t \<Longrightarrow> c \<in> set t \<Longrightarrow> 45 \<le> byte_of c \<and> byte_of c < 123"
proof -
  have "\<forall>c \<in> set (CHR ''.'' # b64_alphabet). 45 \<le> byte_of c \<and> byte_of c < 123"
    by (simp add: b64_alphabet_def byte_of_def)
  then show "token_text t \<Longrightarrow> c \<in> set t \<Longrightarrow> 45 \<le> byte_of c \<and> byte_of c < 123"
    by (auto simp: token_text_def)
qed

record Issuer =
  is_secret :: string
  is_ttl :: int

definition NewIssuer :: "string \<Rightarrow> int \<Rightarrow> Issuer" where
  "NewIssuer secret ttl = \<lparr>is_secret = secret, is_ttl = (if ttl \<le> 0 then DefaultTTL else ttl)\<rparr>"

definition TTL :: "Issuer \<Rightarrow> int" where "TTL i = is_ttl i"

definition NewNumericDate :: "int \<Rightarrow> int" where "NewNumericDate t = t div 1000000000"

definition Issue :: "jwt \<Rightarrow> Issuer \<Rightarrow> string \<Rightarrow> bool \<Rightarrow> int \<Rightarrow> (token_error, string) result" where
  "Issue j i userID isSuperuser t0 =
     (let claims = \<lparr>ac_IsSuperuser = isSuperuser, ac_Subject = userID,
                    ac_IssuedAt = Some (NewNumericDate t0), ac_ExpiresAt = Some (NewNumericDate (t0 + is_ttl i))\<rparr>
      in case jw_Sign j signingMethod (is_secret i) claims of
           None \<Rightarrow> Inl token_signing
         | Some tok \<Rightarrow> Inr tok)"

definition keyfunc :: "Issuer \<Rightarrow> string \<Rightarrow> string option" where
  "keyfunc i alg = (if alg \<noteq> signingMethod then None else Some (is_secret i))"

definition Parse :: "jwt \<Rightarrow> Issuer \<Rightarrow> string \<Rightarrow> int \<Rightarrow> (token_error, Claims) result" where
  "Parse j i tokenString t0 =
     (case jw_Parse j (keyfunc i) [signingMethod] t0 tokenString of
        None \<Rightarrow> Inl ErrInvalidToken
      | Some claims \<Rightarrow>
          if ac_Subject claims = [] then Inl ErrInvalidToken
          else Inr \<lparr>clm_UserID = ac_Subject claims, clm_IsSuperuser = ac_IsSuperuser claims\<rparr>)"

text \<open>When a token issued at an instant stops being accepted: its expiry in whole seconds.\<close>

definition session_end :: "Issuer \<Rightarrow> int \<Rightarrow> int" where
  "session_end i issued = NewNumericDate (issued + is_ttl i) * 1000000000"

lemma Parse_Issue:
  assumes "jwt_law j" "Issue j i uid su t0 = Inr tok" "uid \<noteq> []"
  shows "Parse j i tok t =
    (if t < session_end i t0 then Inr \<lparr>clm_UserID = uid, clm_IsSuperuser = su\<rparr> else Inl ErrInvalidToken)"
proof -
  let ?c = "\<lparr>ac_IsSuperuser = su, ac_Subject = uid, ac_IssuedAt = Some (NewNumericDate t0),
     ac_ExpiresAt = Some (NewNumericDate (t0 + is_ttl i))\<rparr>"
  have "jw_Sign j signingMethod (is_secret i) ?c = Some tok"
    using assms(2) by (simp add: Issue_def Let_def split: option.splits)
  moreover have "keyfunc i signingMethod = Some (is_secret i)" by (simp add: keyfunc_def)
  ultimately have "jw_Parse j (keyfunc i) [signingMethod] t tok = (if not_expired ?c t then Some ?c else None)"
    using assms(1) unfolding jwt_law_def by (metis list.set_intros(1))
  then show ?thesis using assms(3) by (simp add: Parse_def not_expired_def session_end_def)
qed

text \<open>A session lasts its whole time to live, less the fraction of a second that is cut off.\<close>

lemma session_end_bounds: "issued + is_ttl i - 1000000000 < session_end i issued" "session_end i issued \<le> issued + is_ttl i"
  using div_mult_mod_eq [of "issued + is_ttl i" 1000000000] pos_mod_bound [of 1000000000 "issued + is_ttl i"]
    pos_mod_sign [of 1000000000 "issued + is_ttl i"]
  by (simp_all add: session_end_def NewNumericDate_def del: pos_mod_bound pos_mod_sign; linarith)+

end
