(* ===== verification/Password.thy ===== *)
theory Password
  imports Runtime
begin

text \<open>
  \<open>backend/internal/auth/password.go\<close>. bcrypt is a library: \<open>bc_Generate\<close> hashes a password at
  a cost with a salt (16 bytes of \<open>crypto/rand\<close>), \<open>bc_Compare\<close> compares a hash with a
  password. What the code relies on is \<open>bcrypt_law\<close>: a hash compares equal to the password it
  was made from.
\<close>

datatype bcrypt_result = bcrypt_match | ErrMismatchedHashAndPassword | bcrypt_malformed

record bcrypt =
  bc_Generate :: "string \<Rightarrow> int \<Rightarrow> string \<Rightarrow> string option"
  bc_Compare :: "string \<Rightarrow> string \<Rightarrow> bcrypt_result"

definition bcrypt_law :: "bcrypt \<Rightarrow> bool" where
  "bcrypt_law bc \<longleftrightarrow> (\<forall>pw cost salt h. bc_Generate bc pw cost salt = Some h \<longrightarrow> bc_Compare bc h pw = bcrypt_match)"

definition MinPasswordLength :: nat where "MinPasswordLength = 8"
definition maxPasswordBytes :: nat where "maxPasswordBytes = 72"
definition Cost :: int where "Cost = 10"

datatype password_error = ErrPasswordTooShort | ErrPasswordTooLong | password_hashing

definition HashPassword :: "bcrypt \<Rightarrow> string \<Rightarrow> 'a env_scheme \<Rightarrow> (password_error, string) result \<times> 'a env_scheme" where
  "HashPassword bc plaintext w =
     (if length plaintext < MinPasswordLength then (Inl ErrPasswordTooShort, w)
      else if length plaintext > maxPasswordBytes then (Inl ErrPasswordTooLong, w)
      else case rand_read 16 w of
        (None, w') \<Rightarrow> (Inl password_hashing, w')
      | (Some salt, w') \<Rightarrow>
          (case bc_Generate bc plaintext Cost salt of
             None \<Rightarrow> (Inl password_hashing, w')
           | Some h \<Rightarrow> (Inr h, w')))"

text \<open>\<open>dummyHash\<close> is hashed once when the program starts; its errors are dropped.\<close>

definition auth_dummyHash :: "bcrypt \<Rightarrow> 'a env_scheme \<Rightarrow> string \<times> 'a env_scheme" where
  "auth_dummyHash bc w =
     (case rand_read 16 w of
        (None, w') \<Rightarrow> ([], w')
      | (Some salt, w') \<Rightarrow> (case bc_Generate bc ''dab-timing-equalizer'' Cost salt of None \<Rightarrow> [] | Some h \<Rightarrow> h, w'))"

definition auth_DummyVerify :: "bcrypt \<Rightarrow> string \<Rightarrow> string \<Rightarrow> unit" where
  "auth_DummyVerify bc dummy password = (let _ = bc_Compare bc dummy password in ())"

text \<open>\<open>Inl\<close> is the wrapped error of a hash that cannot be parsed.\<close>

definition VerifyPassword :: "bcrypt \<Rightarrow> string \<Rightarrow> string \<Rightarrow> (unit, bool) result" where
  "VerifyPassword bc plaintext encodedHash =
     (case bc_Compare bc encodedHash plaintext of
        bcrypt_match \<Rightarrow> Inr True
      | ErrMismatchedHashAndPassword \<Rightarrow> Inr False
      | bcrypt_malformed \<Rightarrow> Inl ())"

lemma HashPassword_Inr:
  assumes "HashPassword bc pw w = (Inr h, w')"
  shows "8 \<le> length pw" "length pw \<le> 72" "\<exists>salt. bc_Generate bc pw Cost salt = Some h"
    "w' = w\<lparr>rng_next := Suc (rng_next w)\<rparr>"
  using assms
  by (auto simp: HashPassword_def MinPasswordLength_def maxPasswordBytes_def rand_read_def not_less
      split: if_splits option.splits)

lemma VerifyPassword_HashPassword:
  "bcrypt_law bc \<Longrightarrow> HashPassword bc pw w = (Inr h, w') \<Longrightarrow> VerifyPassword bc pw h = Inr True"
  using HashPassword_Inr(3) [of bc pw w h w'] by (auto simp: bcrypt_law_def VerifyPassword_def)

end
