(* ===== verification/Admin_Auth.thy ===== *)
theory Admin_Auth
  imports Token Password User_Repo
begin

text \<open>
  \<open>backend/internal/admin/\<close>: respond.go (the error envelope), login.go (the login endpoint)
  and middleware.go (the guard of the admin routes). \<open>auth_libs\<close> carries the two libraries and
  the hash made at program start for unknown emails.
\<close>

record auth_libs =
  al_bcrypt :: bcrypt
  al_dummyHash :: string
  al_jwt :: jwt

definition admin_writeError :: "int \<Rightarrow> string \<Rightarrow> string \<Rightarrow> wcall list" where
  "admin_writeError code errType message = writeJSON code (error_json errType message)"

lemma status_admin_writeError [simp]: "status_of (admin_writeError c t m) = c"
  by (simp add: admin_writeError_def)

section \<open>Cookies\<close>

text \<open>\<open>http.SetCookie\<close>: the attributes in the order of \<open>Cookie.String\<close>, the value sanitized.\<close>

record Cookie =
  ck_Name :: string
  ck_Value :: string
  ck_Path :: string
  ck_HttpOnly :: bool
  ck_Secure :: bool
  ck_Expires :: int
  ck_MaxAge :: int

definition valid_cookie_byte :: "char \<Rightarrow> bool" where
  "valid_cookie_byte c \<longleftrightarrow> 32 \<le> byte_of c \<and> byte_of c < 127 \<and> byte_of c \<noteq> 34 \<and> byte_of c \<noteq> 59 \<and> byte_of c \<noteq> 92"

definition sanitizeCookieValue :: "string \<Rightarrow> string" where
  "sanitizeCookieValue v =
     (let s = filter valid_cookie_byte v
      in if CHR '' '' \<in> set s \<or> CHR '','' \<in> set s then CHR 0x22 # s @ [CHR 0x22] else s)"

definition TimeFormat :: string where "TimeFormat = ''Mon, 02 Jan 2006 15:04:05 GMT''"

definition cookie_string :: "'a env_scheme \<Rightarrow> Cookie \<Rightarrow> string" where
  "cookie_string w c =
     ck_Name c @ ''='' @ sanitizeCookieValue (ck_Value c) @ ''; Path='' @ ck_Path c
     @ ''; Expires='' @ format_time w TimeFormat (ck_Expires c)
     @ (if ck_MaxAge c > 0 then ''; Max-Age='' @ Itoa (ck_MaxAge c)
        else if ck_MaxAge c < 0 then ''; Max-Age=0'' else [])
     @ (if ck_HttpOnly c then ''; HttpOnly'' else []) @ (if ck_Secure c then ''; Secure'' else [])
     @ ''; SameSite=Lax''"

section \<open>Login\<close>

definition SessionCookieName :: string where "SessionCookieName = ''dab_admin_session''"

record loginRequest =
  lr_Email :: string
  lr_Password :: string

definition login_schema :: "loginRequest field list" where
  "login_schema =
     [(''email'', dec_string (\<lambda>s q. q\<lparr>lr_Email := s\<rparr>)), (''password'', dec_string (\<lambda>s q. q\<lparr>lr_Password := s\<rparr>))]"

definition decode_login :: "string \<Rightarrow> loginRequest option" where
  "decode_login body =
     (case json_decode_limited 4096 body of
        Inl e \<Rightarrow> None
      | Inr v \<Rightarrow> decode_struct True login_schema v \<lparr>lr_Email = [], lr_Password = []\<rparr>)"

record 'w LoginHandler =
  lh_users :: "'w userGetter"
  lh_issuer :: Issuer
  lh_secure :: bool

definition NewLoginHandler :: "'w userGetter \<Rightarrow> Issuer \<Rightarrow> bool \<Rightarrow> 'w LoginHandler" where
  "NewLoginHandler getter issuer secureCookies = \<lparr>lh_users = getter, lh_issuer = issuer, lh_secure = secureCookies\<rparr>"

definition login_unauthorized :: "wcall list" where
  "login_unauthorized = admin_writeError 401 ''unauthorized'' ''invalid email or password''"

definition session_cookie :: "Issuer \<Rightarrow> bool \<Rightarrow> string \<Rightarrow> int \<Rightarrow> Cookie" where
  "session_cookie i secure tok t =
     \<lparr>ck_Name = SessionCookieName, ck_Value = tok, ck_Path = ''/'', ck_HttpOnly = True, ck_Secure = secure,
      ck_Expires = t + TTL i, ck_MaxAge = trunc_div (TTL i) 1000000000\<rparr>"

definition login_json :: "User \<Rightarrow> json" where
  "login_json u = JObj [(''email'', JStr (u_Email u)), (''is_superuser'', JBool (u_IsSuperuser u))]"

definition Login :: "auth_libs \<Rightarrow> 'a env_scheme LoginHandler \<Rightarrow> (ctx, 'a env_scheme) handler" where
  "Login al h = (\<lambda>r w.
     case decode_login (rq_body r) of
       None \<Rightarrow> (admin_writeError 400 ''invalid_request'' ''email and password are required'', Returned, w)
     | Some req \<Rightarrow>
         if lr_Email req = [] \<or> lr_Password req = []
         then (admin_writeError 400 ''invalid_request'' ''email and password are required'', Returned, w)
         else case lh_users h (lr_Email req) w of
           (Inl e, w1) \<Rightarrow>
             if e = user_ErrNotFound
             then (let _ = auth_DummyVerify (al_bcrypt al) (al_dummyHash al) (lr_Password req)
                   in (login_unauthorized, Returned, w1))
             else (admin_writeError 500 ''internal_error'' ''login failed'', Returned, w1)
         | (Inr u, w1) \<Rightarrow>
             if VerifyPassword (al_bcrypt al) (lr_Password req) (u_PasswordHash u) \<noteq> Inr True
             then (login_unauthorized, Returned, w1)
             else (case now w1 of (t, w2) \<Rightarrow>
               (case Issue (al_jwt al) (lh_issuer h) (u_ID u) (u_IsSuperuser u) t of
                  Inl _ \<Rightarrow> (admin_writeError 500 ''internal_error'' ''could not issue session'', Returned, w2)
                | Inr tok \<Rightarrow>
                    (AddHeader ''Set-Cookie'' (cookie_string w2 (session_cookie (lh_issuer h) (lh_secure h) tok t))
                       # writeJSON 200 (login_json u), Returned, w2))))"

section \<open>The guard\<close>

record admin_Authenticator =
  aa_issuer :: Issuer

definition admin_NewAuthenticator :: "Issuer \<Rightarrow> admin_Authenticator" where
  "admin_NewAuthenticator issuer = \<lparr>aa_issuer = issuer\<rparr>"

definition tokenFromRequest :: "'c request \<Rightarrow> string" where
  "tokenFromRequest r =
     (let bearer = (let h = header_get r ''Authorization''
                    in if h = [] then []
                       else case CutPrefix h ''Bearer '' of None \<Rightarrow> [] | Some after \<Rightarrow> TrimSpace after)
      in case rq_cookie r SessionCookieName of
           None \<Rightarrow> bearer
         | Some v \<Rightarrow> if v \<noteq> [] then v else bearer)"

definition admin_authenticate :: "jwt \<Rightarrow> admin_Authenticator \<Rightarrow> 'c request \<Rightarrow> 'a env_scheme \<Rightarrow> Claims option \<times> 'a env_scheme" where
  "admin_authenticate j a r w =
     (let raw = tokenFromRequest r
      in if raw = [] then (None, w)
         else case now w of (t, w') \<Rightarrow>
           (case Parse j (aa_issuer a) raw t of Inl _ \<Rightarrow> (None, w') | Inr claims \<Rightarrow> (Some claims, w')))"

definition admin_unauthorized :: "wcall list" where
  "admin_unauthorized = admin_writeError 401 ''unauthorized'' ''authentication required''"

definition RequireAdmin :: "jwt \<Rightarrow> admin_Authenticator \<Rightarrow> (ctx, 'a env_scheme) handler \<Rightarrow> (ctx, 'a env_scheme) handler" where
  "RequireAdmin j a next = (\<lambda>r w.
     case admin_authenticate j a r w of
       (None, w') \<Rightarrow> (admin_unauthorized, Returned, w')
     | (Some claims, w') \<Rightarrow> next (r\<lparr>rq_ctx := withClaims (rq_ctx r) claims\<rparr>) w')"

definition RequireSuperuser :: "jwt \<Rightarrow> admin_Authenticator \<Rightarrow> (ctx, 'a env_scheme) handler \<Rightarrow> (ctx, 'a env_scheme) handler" where
  "RequireSuperuser j a next = (\<lambda>r w.
     case admin_authenticate j a r w of
       (None, w') \<Rightarrow> (admin_unauthorized, Returned, w')
     | (Some claims, w') \<Rightarrow>
         if \<not> clm_IsSuperuser claims
         then (admin_writeError 403 ''forbidden'' ''superuser privileges required'', Returned, w')
         else next (r\<lparr>rq_ctx := withClaims (rq_ctx r) claims\<rparr>) w')"

end
