(* ===== verification/Admin_Keys.thy ===== *)
theory Admin_Keys
  imports Admin_Auth Apikey
begin

text \<open>
  \<open>backend/internal/admin/keys.go\<close>: the handlers of the API-key management, over any
  \<open>keyStore\<close>. Each is the whole handler: strict decoding, validation, the store's calls and the
  response. Struct fields are encoded in their order, maps with sorted keys.
\<close>

section \<open>Requests\<close>

definition admin_body_limit :: int where "admin_body_limit = 16384"

text \<open>\<open>decodeJSON\<close>: \<open>None\<close> stands for the 400 it writes.\<close>

definition decodeJSON :: "'b field list \<Rightarrow> 'b \<Rightarrow> string \<Rightarrow> 'b option" where
  "decodeJSON schema zero body =
     (case json_decode_limited admin_body_limit body of
        Inl e \<Rightarrow> None
      | Inr v \<Rightarrow> decode_struct True schema v zero)"

definition bad_json :: "wcall list" where
  "bad_json = admin_writeError 400 ''invalid_request'' ''request body is not valid JSON''"

record createKeyRequest =
  ckr_Name :: string
  ckr_Persona :: "string option"

definition create_schema :: "createKeyRequest field list" where
  "create_schema =
     [(''name'', dec_string (\<lambda>s q. q\<lparr>ckr_Name := s\<rparr>)),
      (''persona'', dec_ptr (dec_string (\<lambda>s _. s)) [] ckr_Persona (\<lambda>x q. q\<lparr>ckr_Persona := x\<rparr>))]"

record updateKeyRequest =
  ukr_Name :: "string option"
  ukr_Persona :: "string option"

definition update_schema :: "updateKeyRequest field list" where
  "update_schema =
     [(''name'', dec_ptr (dec_string (\<lambda>s _. s)) [] ukr_Name (\<lambda>x q. q\<lparr>ukr_Name := x\<rparr>)),
      (''persona'', dec_ptr (dec_string (\<lambda>s _. s)) [] ukr_Persona (\<lambda>x q. q\<lparr>ukr_Persona := x\<rparr>))]"

definition normalizePersona :: "string option \<Rightarrow> string option" where
  "normalizePersona p = (case p of None \<Rightarrow> None | Some q \<Rightarrow> if TrimSpace q = [] then None else Some q)"

definition creatorID :: "ctx \<Rightarrow> string option" where
  "creatorID c =
     (case ClaimsFromContext c of
        None \<Rightarrow> None
      | Some cl \<Rightarrow> if clm_UserID cl \<noteq> [] then Some (clm_UserID cl) else None)"

section \<open>Responses\<close>

text \<open>\<open>time.Time\<close> as JSON; the tables keep microseconds.\<close>

definition RFC3339Nano :: string where "RFC3339Nano = ''2006-01-02T15:04:05.999999999Z07:00''"

definition json_time :: "'a env_scheme \<Rightarrow> int \<Rightarrow> json" where
  "json_time w t = JStr (format_time w RFC3339Nano (t * 1000))"

definition key_response_json :: "'a env_scheme \<Rightarrow> APIKey \<Rightarrow> string \<Rightarrow> json" where
  "key_response_json w k secret = JObj
     [(''id'', JStr (ak_ID k)), (''key_id'', JStr (ak_KeyID k)), (''secret'', JStr secret),
      (''name'', JStr (ak_Name k)), (''persona'', json_opt JStr (ak_Persona k)), (''created_at'', json_time w (ak_CreatedAt k))]"

definition toMetadataResponse :: "'a env_scheme \<Rightarrow> Metadata \<Rightarrow> json" where
  "toMetadataResponse w m = JObj
     [(''id'', JStr (md_ID m)), (''key_id'', JStr (md_KeyID m)), (''name'', JStr (md_Name m)),
      (''persona'', json_opt JStr (md_Persona m)), (''created_at'', json_time w (md_CreatedAt m)),
      (''revoked_at'', json_opt (json_time w) (md_RevokedAt m)), (''last_used_at'', json_opt (json_time w) (md_LastUsedAt m))]"

definition writeStoreError :: "apikey_error \<Rightarrow> string \<Rightarrow> wcall list" where
  "writeStoreError e internalMsg =
     (if e = apikey_ErrNotFound then admin_writeError 404 ''not_found'' ''api key not found''
      else admin_writeError 500 ''internal_error'' internalMsg)"

section \<open>Handlers\<close>

record 'w KeysHandler =
  kh_keys :: "'w keyStore"

definition NewKeysHandler :: "'w keyStore \<Rightarrow> 'w KeysHandler" where
  "NewKeysHandler keys = \<lparr>kh_keys = keys\<rparr>"

definition keys_Create :: "'a env_scheme KeysHandler \<Rightarrow> (ctx, 'a env_scheme) handler" where
  "keys_Create h = (\<lambda>r w.
     case decodeJSON create_schema \<lparr>ckr_Name = [], ckr_Persona = None\<rparr> (rq_body r) of
       None \<Rightarrow> (bad_json, Returned, w)
     | Some req \<Rightarrow>
         (let name = TrimSpace (ckr_Name req)
          in if name = [] then (admin_writeError 400 ''invalid_request'' ''name is required'', Returned, w)
             else case Generate w of
               (Inl _, w1) \<Rightarrow> (admin_writeError 500 ''internal_error'' ''could not generate credential'', Returned, w1)
             | (Inr cred, w1) \<Rightarrow>
                 (case ks_Create (kh_keys h) \<lparr>cp_KeyID = gc_KeyID cred, cp_SecretHash = gc_SecretHash cred, cp_Name = name,
                         cp_Persona = normalizePersona (ckr_Persona req), cp_CreatedBy = creatorID (rq_ctx r)\<rparr> w1 of
                    (Inl _, w2) \<Rightarrow> (admin_writeError 500 ''internal_error'' ''could not create key'', Returned, w2)
                  | (Inr created, w2) \<Rightarrow> (writeJSON 201 (key_response_json w2 created (gc_Secret cred)), Returned, w2))))"

definition keys_List :: "'a env_scheme KeysHandler \<Rightarrow> (ctx, 'a env_scheme) handler" where
  "keys_List h = (\<lambda>r w.
     case ks_List (kh_keys h) w of
       (Inl _, w1) \<Rightarrow> (admin_writeError 500 ''internal_error'' ''could not list keys'', Returned, w1)
     | (Inr keys, w1) \<Rightarrow> (writeJSON 200 (JObj [(''keys'', JArr (map (toMetadataResponse w1) keys))]), Returned, w1))"

definition keys_Update :: "'a env_scheme KeysHandler \<Rightarrow> (ctx, 'a env_scheme) handler" where
  "keys_Update h = (\<lambda>r w.
     let i = rq_path_value r ''id''
     in case decodeJSON update_schema \<lparr>ukr_Name = None, ukr_Persona = None\<rparr> (rq_body r) of
       None \<Rightarrow> (bad_json, Returned, w)
     | Some req \<Rightarrow>
         if (case ukr_Name req of None \<Rightarrow> False | Some s \<Rightarrow> TrimSpace s = [])
         then (admin_writeError 400 ''invalid_request'' ''name cannot be empty'', Returned, w)
         else case ks_GetByID (kh_keys h) i w of
           (Inl e, w1) \<Rightarrow> (writeStoreError e ''could not load key'', Returned, w1)
         | (Inr current, w1) \<Rightarrow>
             (let name = (case ukr_Name req of None \<Rightarrow> md_Name current | Some s \<Rightarrow> TrimSpace s);
                  persona = (case ukr_Persona req of None \<Rightarrow> md_Persona current | Some p \<Rightarrow> normalizePersona (Some p))
              in case ks_Update (kh_keys h) i \<lparr>up_Name = name, up_Persona = persona\<rparr> w1 of
                   (Inl e, w2) \<Rightarrow> (writeStoreError e ''could not update key'', Returned, w2)
                 | (Inr updated, w2) \<Rightarrow> (writeJSON 200 (toMetadataResponse w2 updated), Returned, w2)))"

definition keys_Revoke :: "'a env_scheme KeysHandler \<Rightarrow> (ctx, 'a env_scheme) handler" where
  "keys_Revoke h = (\<lambda>r w.
     let i = rq_path_value r ''id''
     in case ks_Revoke (kh_keys h) i w of
          (Inl e, w1) \<Rightarrow> (writeStoreError e ''could not revoke key'', Returned, w1)
        | (Inr _, w1) \<Rightarrow> ([WriteHeader 204], Returned, w1))"

text \<open>\<open>RegisterKeyRoutes\<close>: the patterns and the guarded handlers.\<close>

type_synonym 'w route = "string \<times> (ctx, 'w) handler"

definition key_routes :: "jwt \<Rightarrow> admin_Authenticator \<Rightarrow> 'a env_scheme KeysHandler \<Rightarrow> 'a env_scheme route list" where
  "key_routes j authn h =
     [(''POST /api/admin/keys'', RequireAdmin j authn (keys_Create h)),
      (''GET /api/admin/keys'', RequireAdmin j authn (keys_List h)),
      (''PATCH /api/admin/keys/{id}'', RequireAdmin j authn (keys_Update h)),
      (''DELETE /api/admin/keys/{id}'', RequireAdmin j authn (keys_Revoke h))]"

end
