(* ===== verification/Sample_Admin.thy ===== *)
theory Sample_Admin
  imports Admin_Keys Sample "HOL-Library.Countable"
begin

text \<open>
  Concrete instances of the two authentication libraries, which obey their laws, and requests to
  the admin API, for the witnesses. Nothing here models code.
\<close>

definition toy_bcrypt :: bcrypt where
  "toy_bcrypt = \<lparr>bc_Generate = (\<lambda>pw cost salt. Some pw),
     bc_Compare = (\<lambda>h pw. if h = pw then bcrypt_match else ErrMismatchedHashAndPassword)\<rparr>"

lemma toy_bcrypt_law: "bcrypt_law toy_bcrypt"
  by (simp add: bcrypt_law_def toy_bcrypt_def)

section \<open>Tokens\<close>

text \<open>Text and claims as numbers, with their inverses.\<close>

definition text_code :: "string \<Rightarrow> nat" where
  "text_code s = list_encode (map byte_of s)"

definition text_of_code :: "nat \<Rightarrow> string" where
  "text_of_code n = map char_of_byte (list_decode n)"

lemma text_of_code [simp]: "text_of_code (text_code s) = s"
  by (simp add: text_of_code_def text_code_def comp_def)

definition date_code :: "int option \<Rightarrow> nat" where
  "date_code d = (case d of None \<Rightarrow> 0 | Some t \<Rightarrow> Suc (int_encode t))"

definition date_of_code :: "nat \<Rightarrow> int option" where
  "date_of_code n = (case n of 0 \<Rightarrow> None | Suc m \<Rightarrow> Some (int_decode m))"

lemma date_of_code [simp]: "date_of_code (date_code d) = d"
  by (simp add: date_of_code_def date_code_def split: option.split)

text \<open>A token says the algorithm, the key and the claims in unary.\<close>

definition token_code :: "string \<Rightarrow> string \<Rightarrow> appClaims \<Rightarrow> nat" where
  "token_code alg key c = list_encode
     [text_code alg, text_code key, if ac_IsSuperuser c then 1 else 0, text_code (ac_Subject c),
      date_code (ac_IssuedAt c), date_code (ac_ExpiresAt c)]"

definition toy_parse :: "(string \<Rightarrow> string option) \<Rightarrow> string list \<Rightarrow> int \<Rightarrow> string \<Rightarrow> appClaims option" where
  "toy_parse kf ms t0 tok =
     (case list_decode (length tok - 1) of
        [a, k, su, sub, i, e] \<Rightarrow>
          (let c = \<lparr>ac_IsSuperuser = (su = 1), ac_Subject = text_of_code sub, ac_IssuedAt = date_of_code i,
                    ac_ExpiresAt = date_of_code e\<rparr>
           in if text_of_code a \<in> set ms \<and> kf (text_of_code a) = Some (text_of_code k) \<and> not_expired c t0
              then Some c else None)
      | _ \<Rightarrow> None)"

definition toy_jwt :: jwt where
  "toy_jwt = \<lparr>jw_Sign = (\<lambda>alg key c. Some (replicate (Suc (token_code alg key c)) CHR ''a'')), jw_Parse = toy_parse\<rparr>"

lemma toy_jwt_law: "jwt_law toy_jwt"
  by (auto simp: jwt_law_def toy_jwt_def token_text_def toy_parse_def token_code_def Let_def b64_alphabet_def not_expired_def
      simp del: list_encode.simps)

definition toy_libs :: auth_libs where
  "toy_libs = \<lparr>al_bcrypt = toy_bcrypt, al_dummyHash = ''dab-timing-equalizer'', al_jwt = toy_jwt\<rparr>"

section \<open>An account and its requests\<close>

definition sample_issuer :: Issuer where
  "sample_issuer = NewIssuer ''jwt-secret'' 0"

definition sample_user :: User where
  "sample_user = \<lparr>u_ID = ''u1'', u_Email = ''a@b.c'', u_PasswordHash = ''password'', u_IsSuperuser = True,
     u_CreatedAt = 1, u_UpdatedAt = 1\<rparr>"

definition admin_world :: usage_db where
  "admin_world = sample_world\<lparr>users := [sample_user]\<rparr>"

definition login_body :: string where
  "login_body = json_encode (JObj [(''email'', JStr ''a@b.c''), (''password'', JStr ''password'')])"

definition admin_request :: "string \<Rightarrow> string \<Rightarrow> ctx request" where
  "admin_request i body = (sample_request body)\<lparr>rq_path_value := (\<lambda>_. i), rq_ctx := Background\<rparr>"

lemma admin_request_body: "rq_body (admin_request i b) = b"
  by (simp add: admin_request_def sample_request_def)

lemma decode_login_body: "decode_login login_body = Some \<lparr>lr_Email = ''a@b.c'', lr_Password = ''password''\<rparr>"
  by code_simp

definition create_body :: string where
  "create_body = json_encode (JObj [(''name'', JStr ''ci''), (''persona'', JNull)])"

lemma decode_create_body:
  "decodeJSON create_schema \<lparr>ckr_Name = [], ckr_Persona = None\<rparr> create_body = Some \<lparr>ckr_Name = ''ci'', ckr_Persona = None\<rparr>"
  by code_simp

end
