(* ===== verification/Admin_Properties.thy ===== *)
theory Admin_Properties
  imports Sample_Admin Access_Properties
begin

text \<open>
  The properties of the admin API: what a login answers and how long the session it opens is
  accepted, the guard in front of the key routes, and the life of a credential from its
  creation to its revocation, up to the public endpoint that accepts it. Each handler's effect
  on the key table is proved once over any \<open>keyStore\<close> in the locale \<open>admin_keys\<close>.
\<close>

section \<open>Login\<close>

text \<open>The account a login names and whose password it knows: bcrypt matches it with the account's hash.\<close>

definition logs_in :: "auth_libs \<Rightarrow> 'a users_db_scheme \<Rightarrow> loginRequest \<Rightarrow> User \<Rightarrow> bool" where
  "logs_in al w q u \<longleftrightarrow> u \<in> set (users w) \<and> citext_key w (u_Email u) = citext_key w (lr_Email q) \<and>
     bc_Compare (al_bcrypt al) (u_PasswordHash u) (lr_Password q) = bcrypt_match"

lemma VerifyPassword_iff: "VerifyPassword bc pw h = Inr True \<longleftrightarrow> bc_Compare bc h pw = bcrypt_match"
  by (simp add: VerifyPassword_def split: bcrypt_result.split)

text \<open>The session an accepted login opens, as its response.\<close>

definition session_response :: "auth_libs \<Rightarrow> Issuer \<Rightarrow> bool \<Rightarrow> User \<Rightarrow> int \<Rightarrow> 'a env_scheme \<Rightarrow> wcall list" where
  "session_response al i secure u t w =
     (case Issue (al_jwt al) i (u_ID u) (u_IsSuperuser u) t of
        Inl _ \<Rightarrow> admin_writeError 500 ''internal_error'' ''could not issue session''
      | Inr tok \<Rightarrow> AddHeader ''Set-Cookie'' (cookie_string w (session_cookie i secure tok t)) # writeJSON 200 (login_json u))"

lemma Login_200:
  assumes "Login al h r w = (cs, e, w')" "status_of cs = 200"
  obtains u w1 q tok where "decode_login (rq_body r) = Some q" "lh_users h (lr_Email q) w = (Inr u, w1)"
    "VerifyPassword (al_bcrypt al) (lr_Password q) (u_PasswordHash u) = Inr True" "w' = snd (now w1)"
    "Issue (al_jwt al) (lh_issuer h) (u_ID u) (u_IsSuperuser u) (fst (now w1)) = Inr tok"
    "cs = AddHeader ''Set-Cookie'' (cookie_string w' (session_cookie (lh_issuer h) (lh_secure h) tok (fst (now w1))))
      # writeJSON 200 (login_json u)"
  using assms
  by (auto simp: Login_def login_unauthorized_def Let_def split: option.splits if_splits prod.splits sum.splits)

text \<open>The handler over any store of users: what it answers, and whose session it opens.\<close>

locale admin_login = user_getter getter accounts same_email ready
  for getter :: "'a env_scheme userGetter" and accounts same_email ready
begin

lemma Login_known:
  assumes "decode_login (rq_body r) = Some q" "lr_Email q \<noteq> []" "lr_Password q \<noteq> []" "ready (lr_Email q) w"
    and "u \<in> set (accounts w)" "same_email w (u_Email u) (lr_Email q)"
  shows "Login al (NewLoginHandler getter i secure) r w =
    (if VerifyPassword (al_bcrypt al) (lr_Password q) (u_PasswordHash u) = Inr True
     then (session_response al i secure u (fst (now w)) (snd (now w)), Returned, snd (now w))
     else (login_unauthorized, Returned, w))"
  using assms(1-3) get_some [OF assms(4-6)]
  by (simp add: Login_def NewLoginHandler_def session_response_def split: prod.split sum.split)

lemma Login_unknown:
  assumes "decode_login (rq_body r) = Some q" "lr_Email q \<noteq> []" "lr_Password q \<noteq> []" "ready (lr_Email q) w"
    and "\<forall>u \<in> set (accounts w). \<not> same_email w (u_Email u) (lr_Email q)"
  shows "Login al (NewLoginHandler getter i secure) r w = (login_unauthorized, Returned, w)"
  using assms(1-3) get_none [OF assms(4,5)] by (simp add: Login_def NewLoginHandler_def)

lemma Login_opens:
  assumes "Login al (NewLoginHandler getter i secure) r w = (cs, e, w')" "status_of cs = 200"
  obtains u tok where "u \<in> set (accounts w)" "Issue (al_jwt al) i (u_ID u) (u_IsSuperuser u) (clock w') = Inr tok"
    "cs = AddHeader ''Set-Cookie'' (cookie_string w' (session_cookie i secure tok (clock w'))) # writeJSON 200 (login_json u)"
proof -
  let ?h = "NewLoginHandler getter i secure"
  obtain u w1 q tok where "decode_login (rq_body r) = Some q" "lh_users ?h (lr_Email q) w = (Inr u, w1)"
    and "VerifyPassword (al_bcrypt al) (lr_Password q) (u_PasswordHash u) = Inr True" and t: "w' = snd (now w1)"
    and "Issue (al_jwt al) (lh_issuer ?h) (u_ID u) (u_IsSuperuser u) (fst (now w1)) = Inr tok"
    and "cs = AddHeader ''Set-Cookie'' (cookie_string w' (session_cookie (lh_issuer ?h) (lh_secure ?h) tok (fst (now w1))))
      # writeJSON 200 (login_json u)"
    by (rule Login_200 [OF assms])
  then have g: "getter (lr_Email q) w = (Inr u, w1)" and i: "Issue (al_jwt al) i (u_ID u) (u_IsSuperuser u) (fst (now w1)) = Inr tok"
    and cs: "cs = AddHeader ''Set-Cookie'' (cookie_string w' (session_cookie i secure tok (fst (now w1)))) # writeJSON 200 (login_json u)"
    by (simp_all add: NewLoginHandler_def)
  have t': "fst (now w1) = clock w'" using t by (auto simp: now_def Let_def)
  show thesis by (rule that [OF get_found [OF g, THEN conjunct1] i [unfolded t'] cs [unfolded t']])
qed

end

interpretation repo_login: admin_login user_GetByEmail users same_citext users_ready ..

lemma Login_bad_email:
  assumes "healthy w" "decode_login (rq_body r) = Some q" "lr_Email q \<noteq> []" "lr_Password q \<noteq> []" "\<not> text_ok w (lr_Email q)"
  shows "Login al (NewLoginHandler user_GetByEmail i secure) r w =
    (admin_writeError 500 ''internal_error'' ''login failed'', Returned, w)"
  using assms by (simp add: Login_def NewLoginHandler_def user_GetByEmail_def user_getOne_def)

text \<open>C19: while the database answers, a login with the password of the account its email names is
  answered 200 with a session cookie for that account, or 500 when its token cannot be signed. Every other
  login with both fields gets the same 401, byte for byte, whether the email is unknown or the password
  wrong, and changes nothing; only an email that is no text for the database (a NUL) gets a 500. A body
  without the two fields is answered 400.\<close>

theorem login_outcome:
  assumes "healthy w" "users_inv w"
  shows "case decode_login (rq_body r) of
      None \<Rightarrow> Login al (NewLoginHandler user_GetByEmail i secure) r w =
        (admin_writeError 400 ''invalid_request'' ''email and password are required'', Returned, w)
    | Some q \<Rightarrow>
        if lr_Email q = [] \<or> lr_Password q = [] then Login al (NewLoginHandler user_GetByEmail i secure) r w =
          (admin_writeError 400 ''invalid_request'' ''email and password are required'', Returned, w)
        else if \<not> text_ok w (lr_Email q) then Login al (NewLoginHandler user_GetByEmail i secure) r w =
          (admin_writeError 500 ''internal_error'' ''login failed'', Returned, w)
        else (\<forall>u. logs_in al w q u \<longrightarrow> Login al (NewLoginHandler user_GetByEmail i secure) r w =
            (case Issue (al_jwt al) i (u_ID u) (u_IsSuperuser u) (fst (now w)) of
               Inr tok \<Rightarrow> AddHeader ''Set-Cookie'' (cookie_string (snd (now w)) (session_cookie i secure tok (fst (now w))))
                 # writeJSON 200 (login_json u)
             | Inl _ \<Rightarrow> admin_writeError 500 ''internal_error'' ''could not issue session'', Returned, snd (now w))) \<and>
          ((\<nexists>u. logs_in al w q u) \<longrightarrow> Login al (NewLoginHandler user_GetByEmail i secure) r w =
            (admin_writeError 401 ''unauthorized'' ''invalid email or password'', Returned, w))"
proof (cases "decode_login (rq_body r)")
  case None
  then show ?thesis by (simp add: Login_def)
next
  case q: (Some q)
  show ?thesis
  proof (cases "lr_Email q = [] \<or> lr_Password q = [] \<or> \<not> text_ok w (lr_Email q)")
    case True
    then show ?thesis using q Login_bad_email [OF assms(1) q] by (auto simp: Login_def)
  next
    case False
    then have ok: "lr_Email q \<noteq> []" "lr_Password q \<noteq> []" "text_ok w (lr_Email q)" by auto
    have ready: "users_ready (lr_Email q) w" using assms ok(3) by (simp add: users_ready_def)
    note known = repo_login.Login_known [OF q ok(1,2) ready] and unknown = repo_login.Login_unknown [OF q ok(1,2) ready]
    note facts = logs_in_def same_citext_def VerifyPassword_iff login_unauthorized_def
    show ?thesis
    proof (cases "\<exists>u \<in> set (users w). same_citext w (u_Email u) (lr_Email q)")
      case True
      then obtain v where v: "v \<in> set (users w)" "same_citext w (u_Email v) (lr_Email q)" by blast
      have "u = v" if "logs_in al w q u" for u
        using that v find_email [OF assms(2), of u] find_email [OF assms(2) v(1)] by (simp add: facts)
      then show ?thesis
        using known [OF v] v ok q by (auto simp: facts session_response_def split: sum.split)
    next
      case False
      then show ?thesis using unknown ok q by (auto simp: facts)
    qed
  qed
qed

lemma admin_world_facts:
  "healthy admin_world" "users_inv admin_world" "text_ok admin_world = (\<lambda>_. True)" "users admin_world = [sample_user]"
  by (simp_all add: admin_world_def sample_world_def healthy_def users_inv_def)

text \<open>The sample account signs in; without it the same login is refused.\<close>

theorem login_outcome_witness:
  "(\<exists>tok. Login toy_libs (NewLoginHandler user_GetByEmail sample_issuer True) (admin_request [] login_body) admin_world =
      (AddHeader ''Set-Cookie'' (cookie_string (snd (now admin_world)) (session_cookie sample_issuer True tok (fst (now admin_world))))
        # writeJSON 200 (login_json sample_user), Returned, snd (now admin_world))) \<and>
   Login toy_libs (NewLoginHandler user_GetByEmail sample_issuer True) (admin_request [] login_body)
      (admin_world\<lparr>users := []\<rparr>) = (login_unauthorized, Returned, admin_world\<lparr>users := []\<rparr>)"
proof -
  let ?q = "\<lparr>lr_Email = ''a@b.c'', lr_Password = ''password''\<rparr>"
  note U = login_outcome [where r = "admin_request [] login_body" and al = toy_libs and i = sample_issuer and secure = True]
  have l: "logs_in toy_libs admin_world ?q sample_user" "\<not> logs_in toy_libs (admin_world\<lparr>users := []\<rparr>) ?q u" for u
    by (simp_all add: logs_in_def admin_world_facts, simp add: sample_user_def toy_libs_def toy_bcrypt_def)
  have w: "healthy (admin_world\<lparr>users := []\<rparr>)" "users_inv (admin_world\<lparr>users := []\<rparr>)"
    using admin_world_facts(1) by (simp_all add: healthy_def users_inv_def)
  obtain tok where "Issue (al_jwt toy_libs) sample_issuer (u_ID sample_user) (u_IsSuperuser sample_user) (fst (now admin_world)) = Inr tok"
    by (simp add: Issue_def toy_libs_def toy_jwt_def Let_def sample_user_def)
  then show ?thesis
    using U [OF admin_world_facts(1,2)] U [OF w] l admin_world_facts(3)
    by (auto simp: admin_request_body decode_login_body login_unauthorized_def)
qed

section \<open>Sessions\<close>

lemma sanitize_token: "token_text t \<Longrightarrow> sanitizeCookieValue t = t"
proof -
  assume t: "token_text t"
  have "valid_cookie_byte c" if "c \<in> set t" for c
    using token_bytes [OF t that] t that by (auto simp: token_text_def b64_alphabet_def valid_cookie_byte_def byte_of_def)
  moreover have "CHR '' '' \<notin> set t" "CHR '','' \<notin> set t"
    using token_bytes [OF t, of "CHR '' ''"] token_bytes [OF t, of "CHR '',''"] by (auto simp: byte_of_def)
  ultimately show ?thesis by (simp add: sanitizeCookieValue_def Let_def filter_id_conv)
qed

lemma TrimSpace_token: "token_text t \<Longrightarrow> TrimSpace t = t"
  by (rule TrimSpace_visible) (auto dest: token_bytes)

text \<open>A request that brings a token: in the session cookie, or as a bearer token without one.\<close>

definition presents :: "'c request \<Rightarrow> string \<Rightarrow> bool" where
  "presents r tok \<longleftrightarrow> rq_cookie r SessionCookieName = Some tok \<or>
     (rq_cookie r SessionCookieName = None \<and> header_get r ''Authorization'' = ''Bearer '' @ tok)"

lemma presents_token: "presents r tok \<Longrightarrow> token_text tok \<Longrightarrow> tokenFromRequest r = tok"
  by (auto simp: presents_def tokenFromRequest_def CutPrefix_def HasPrefix_def TrimSpace_token token_text_def Let_def)

text \<open>What a guarded handler sees of the request of a signed-in user.\<close>

definition as_user :: "ctx request \<Rightarrow> User \<Rightarrow> ctx request" where
  "as_user r u = r\<lparr>rq_ctx := withClaims (rq_ctx r) \<lparr>clm_UserID = u_ID u, clm_IsSuperuser = u_IsSuperuser u\<rparr>\<rparr>"

lemma RequireAdmin_session:
  assumes "jwt_law j" "Issue j i (u_ID u) (u_IsSuperuser u) t = Inr tok" "u_ID u \<noteq> []" "presents r tok"
  shows "RequireAdmin j (admin_NewAuthenticator i) h r v =
    (if fst (now v) < session_end i t then h (as_user r u) (snd (now v)) else (admin_unauthorized, Returned, snd (now v)))"
proof -
  obtain c where "jw_Sign j signingMethod (is_secret i) c = Some tok"
    using assms(2) by (auto simp: Issue_def Let_def split: option.splits)
  then have tok: "token_text tok" using assms(1) by (auto simp: jwt_law_def)
  show ?thesis
    using presents_token [OF assms(4) tok] tok Parse_Issue [OF assms(1-3)]
    by (simp add: RequireAdmin_def admin_authenticate_def admin_NewAuthenticator_def token_text_def as_user_def Let_def
        split: prod.split)
qed

text \<open>C18: a login answered 200 sets a session cookie with a token of an existing account; whoever
  brings the token back, as the cookie or as a bearer token, passes the guard as that account
  until the session's end, and from then on gets the guard's 401. The end comes at most the
  issuer's time to live after the login and less than a second before that.\<close>

theorem session_roundtrip:
  fixes w :: "'a users_db_scheme"
  assumes "jwt_law (al_jwt al)" "Login al (NewLoginHandler user_GetByEmail i secure) r w = (cs, e, w')"
    and "status_of cs = 200" "\<forall>u \<in> set (users w). u_ID u \<noteq> []"
  shows "\<exists>u tok attrs rest. u \<in> set (users w) \<and>
    cs = AddHeader ''Set-Cookie'' (SessionCookieName @ ''='' @ tok @ ''; Path=/'' @ attrs) # rest \<and>
    session_end i (clock w') \<le> clock w' + is_ttl i \<and> clock w' + is_ttl i < session_end i (clock w') + 1000000000 \<and>
    (\<forall>r' h v. presents r' tok \<longrightarrow> RequireAdmin (al_jwt al) (admin_NewAuthenticator i) h r' v =
       (if fst (now v) < session_end i (clock w') then h (as_user r' u) (snd (now v))
        else (admin_unauthorized, Returned, snd (now v))))"
proof -
  obtain u tok where u: "u \<in> set (users w)" and i: "Issue (al_jwt al) i (u_ID u) (u_IsSuperuser u) (clock w') = Inr tok"
    and cs: "cs = AddHeader ''Set-Cookie'' (cookie_string w' (session_cookie i secure tok (clock w'))) # writeJSON 200 (login_json u)"
    by (rule repo_login.Login_opens [OF assms(2,3)])
  from i obtain c where "jw_Sign (al_jwt al) signingMethod (is_secret i) c = Some tok"
    by (auto simp: Issue_def Let_def split: option.splits)
  then have "token_text tok" using assms(1) by (auto simp: jwt_law_def)
  then have "\<exists>attrs. cookie_string w' (session_cookie i secure tok (clock w')) =
      SessionCookieName @ ''='' @ tok @ ''; Path=/'' @ attrs"
    by (simp add: cookie_string_def session_cookie_def sanitize_token)
  with cs obtain attrs where
    "cs = AddHeader ''Set-Cookie'' (SessionCookieName @ ''='' @ tok @ ''; Path=/'' @ attrs) # writeJSON 200 (login_json u)"
    by auto
  with u session_end_bounds [where issued = "clock w'" and i = i] show ?thesis
    using assms(4)
    by (intro exI [of _ u] exI [of _ tok] exI [of _ attrs] exI [of _ "writeJSON 200 (login_json u)"] conjI allI impI
        RequireAdmin_session [OF assms(1) i]) simp_all
qed

lemma sample_login:
  obtains cs w' where "Login toy_libs (NewLoginHandler user_GetByEmail sample_issuer True) (admin_request [] login_body) admin_world
    = (cs, Returned, w')" "status_of cs = 200"
proof -
  let ?c = "AddHeader ''Set-Cookie'' (cookie_string (snd (now admin_world)) (session_cookie sample_issuer True
      (replicate (Suc (token_code signingMethod (is_secret sample_issuer) \<lparr>ac_IsSuperuser = True, ac_Subject = ''u1'',
        ac_IssuedAt = Some (NewNumericDate (fst (now admin_world))),
        ac_ExpiresAt = Some (NewNumericDate (fst (now admin_world) + is_ttl sample_issuer))\<rparr>)) CHR ''a'') (fst (now admin_world))))"
  have g: "user_GetByEmail ''a@b.c'' admin_world = (Inr sample_user, admin_world)"
    by (simp add: GetByEmail_healthy admin_world_facts sample_user_def)
  have v: "VerifyPassword toy_bcrypt ''password'' (u_PasswordHash sample_user) = Inr True"
    by (simp add: VerifyPassword_def toy_bcrypt_def sample_user_def)
  have u: "u_ID sample_user = ''u1''" "u_IsSuperuser sample_user" by (simp_all add: sample_user_def)
  have "Login toy_libs (NewLoginHandler user_GetByEmail sample_issuer True) (admin_request [] login_body) admin_world
      = (?c # writeJSON 200 (login_json sample_user), Returned, snd (now admin_world))"
    by (simp add: Login_def NewLoginHandler_def admin_request_body decode_login_body toy_libs_def g v Issue_def toy_jwt_def u
        Let_def split: prod.split)
  moreover have "status_of (?c # writeJSON 200 (login_json sample_user)) = 200"
    using status_of_first [of "[?c, SetHeader ''Content-Type'' ''application/json; charset=utf-8'']" 200]
    by (simp add: writeJSON_def del: replicate.simps)
  ultimately show thesis by (rule that)
qed

theorem session_roundtrip_witness:
  "\<exists>tok attrs rest. calls_of (Login toy_libs (NewLoginHandler user_GetByEmail sample_issuer True) (admin_request [] login_body)
      admin_world) = AddHeader ''Set-Cookie'' (SessionCookieName @ ''='' @ tok @ ''; Path=/'' @ attrs) # rest"
proof -
  obtain cs w' where l: "Login toy_libs (NewLoginHandler user_GetByEmail sample_issuer True) (admin_request [] login_body)
    admin_world = (cs, Returned, w')" "status_of cs = 200" by (rule sample_login)
  have "jwt_law (al_jwt toy_libs)" by (simp add: toy_libs_def toy_jwt_law)
  moreover have "\<forall>u \<in> set (users admin_world). u_ID u \<noteq> []" by (simp add: admin_world_facts sample_user_def)
  ultimately show ?thesis using session_roundtrip [OF _ l] l(1) by (metis handler_result_simps(1))
qed

section \<open>The guard\<close>

text \<open>The session a request carries, at an instant.\<close>

definition session_of :: "jwt \<Rightarrow> Issuer \<Rightarrow> 'c request \<Rightarrow> int \<Rightarrow> Claims option" where
  "session_of j i r t =
     (if tokenFromRequest r = [] then None
      else case Parse j i (tokenFromRequest r) t of Inl _ \<Rightarrow> None | Inr c \<Rightarrow> Some c)"

lemma authenticate_session:
  "fst (admin_authenticate j (admin_NewAuthenticator i) r w) = session_of j i r (fst (now w))"
  "snd (admin_authenticate j (admin_NewAuthenticator i) r w) \<in> {w, snd (now w)}"
  by (auto simp: admin_authenticate_def session_of_def admin_NewAuthenticator_def Let_def split: prod.split sum.split)

text \<open>C33: no route of the key management runs its handler for a request without a valid session:
  the answer is the same 401 on all of them, and nothing but the clock is touched.\<close>

theorem admin_guard:
  assumes "(p, h) \<in> set (key_routes j (admin_NewAuthenticator i) kh)" "session_of j i r (fst (now w)) = None"
  shows "calls_of (h r w) = admin_unauthorized \<and> exit_of (h r w) = Returned \<and> world_of (h r w) \<in> {w, snd (now w)}"
proof -
  obtain w' where "admin_authenticate j (admin_NewAuthenticator i) r w = (None, w')" "w' \<in> {w, snd (now w)}"
    using authenticate_session [of j i r w] assms(2)
    by (cases "admin_authenticate j (admin_NewAuthenticator i) r w") auto
  then show ?thesis using assms(1) by (auto simp: key_routes_def RequireAdmin_def)
qed

theorem admin_guard_witness:
  "calls_of (snd (hd (key_routes toy_jwt (admin_NewAuthenticator sample_issuer) (NewKeysHandler repo_keyStore)))
      (admin_request [] []) admin_world) = admin_unauthorized"
  using admin_guard [of "''POST /api/admin/keys''" "snd (hd (key_routes toy_jwt (admin_NewAuthenticator sample_issuer)
        (NewKeysHandler repo_keyStore)))" toy_jwt sample_issuer "NewKeysHandler repo_keyStore" "admin_request [] []" admin_world]
  by (simp add: key_routes_def session_of_def tokenFromRequest_def admin_request_def sample_request_def header_get_def Let_def)

section \<open>The handlers over any key store\<close>

lemma keys_Update_world:
  "\<exists>q. world_of (keys_Update (NewKeysHandler ks) r w) \<in> {w, snd (ks_GetByID ks (rq_path_value r ''id'') w),
     snd (ks_Update ks (rq_path_value r ''id'') q (snd (ks_GetByID ks (rq_path_value r ''id'') w)))}"
proof (cases "decodeJSON update_schema \<lparr>ukr_Name = None, ukr_Persona = None\<rparr> (rq_body r)")
  case None
  then show ?thesis by (simp add: keys_Update_def Let_def)
next
  case (Some q)
  show ?thesis
  proof (cases "ks_GetByID ks (rq_path_value r ''id'') w")
    case (Pair x w1)
    then show ?thesis
      by (cases x; cases "ukr_Name q")
        (auto simp: keys_Update_def NewKeysHandler_def Some Let_def split: prod.split sum.split, (metis snd_conv)+)
  qed
qed

text \<open>
  A key store whose table the random source does not touch; the lemmas say what the handlers
  do to the table.
\<close>

locale admin_keys = key_store ks rows
  for ks :: "'a env_scheme keyStore" and rows :: "'a env_scheme \<Rightarrow> APIKey list" +
  assumes rows_rng: "rows (w\<lparr>rng_next := n\<rparr>) = rows w"
begin

lemma Create_201:
  assumes "keys_Create (NewKeysHandler ks) r w = (cs, e, w')" "status_of cs = 201"
  shows "\<exists>k secret. cs = writeJSON 201 (key_response_json w' k secret) \<and> rows w' = rows w @ [k] \<and>
    ak_KeyID k \<noteq> [] \<and> secret \<noteq> [] \<and> ak_SecretHash k = HashSecret secret \<and> ak_RevokedAt k = None \<and>
    ak_Name k = TrimSpace (ak_Name k) \<and> ak_Name k \<noteq> [] \<and> ak_Persona k = normalizePersona (ak_Persona k)"
proof -
  obtain q c w1 k where q: "decodeJSON create_schema \<lparr>ckr_Name = [], ckr_Persona = None\<rparr> (rq_body r) = Some q"
    and n: "TrimSpace (ckr_Name q) \<noteq> []" and g: "Generate w = (Inr c, w1)"
    and s: "ks_Create ks \<lparr>cp_KeyID = gc_KeyID c, cp_SecretHash = gc_SecretHash c, cp_Name = TrimSpace (ckr_Name q),
      cp_Persona = normalizePersona (ckr_Persona q), cp_CreatedBy = creatorID (rq_ctx r)\<rparr> w1 = (Inr k, w')"
    and cs: "cs = writeJSON 201 (key_response_json w' k (gc_Secret c))"
    using assms
    by (auto simp: keys_Create_def NewKeysHandler_def bad_json_def Let_def split: option.splits if_splits prod.splits sum.splits)
  have "rows w1 = rows w" "gc_KeyID c \<noteq> []" "gc_Secret c \<noteq> []" "gc_SecretHash c = HashSecret (gc_Secret c)"
    using g by (auto elim!: Generate_Inr simp: rows_rng)
  moreover have "normalizePersona (normalizePersona p) = normalizePersona p" for p
    by (simp add: normalizePersona_def split: option.split)
  ultimately show ?thesis
    using create_row [OF s] n by (intro exI [of _ k] exI [of _ "gc_Secret c"]) (simp add: cs)
qed

lemma Update_secrets:
  "map (\<lambda>k. (ak_ID k, ak_KeyID k, ak_SecretHash k, ak_RevokedAt k)) (rows (world_of (keys_Update (NewKeysHandler ks) r w))) =
   map (\<lambda>k. (ak_ID k, ak_KeyID k, ak_SecretHash k, ak_RevokedAt k)) (rows w)"
proof -
  let ?f = "map (\<lambda>k. (ak_ID k, ak_KeyID k, ak_SecretHash k, ak_RevokedAt k))"
  have get: "rows (snd (ks_GetByID ks i v)) = rows v" for i v
    using get_row [of i v] by (cases "ks_GetByID ks i v") auto
  show ?thesis
    using keys_Update_world [of ks r w] update_keeps get by auto
qed

end

interpretation repo_ak: admin_keys repo_keyStore api_keys
  by unfold_locales simp

section \<open>The life of a credential\<close>

text \<open>C28: a creation answered 201 adds exactly one row to the table, active, with a trimmed name
  and no blank persona; the response carries a secret of which the row has only the hash, and
  any request that presents the key id and that secret is authentic.\<close>

theorem created_key_authenticates:
  assumes "keys_Create (NewKeysHandler repo_keyStore) r w = (cs, e, w')" "status_of cs = 201"
  shows "\<exists>k secret. cs = writeJSON 201 (key_response_json w' k secret) \<and> api_keys w' = api_keys w @ [k] \<and>
    ak_SecretHash k = HashSecret secret \<and> ak_Name k = TrimSpace (ak_Name k) \<and> ak_Name k \<noteq> [] \<and>
    ak_Persona k = normalizePersona (ak_Persona k) \<and>
    (\<forall>r'. presented_key r' = ak_KeyID k \<longrightarrow> presented_secret r' = secret \<longrightarrow> authentic (api_keys w') r' k)"
proof -
  obtain k secret where "cs = writeJSON 201 (key_response_json w' k secret)" "api_keys w' = api_keys w @ [k]"
    "ak_KeyID k \<noteq> []" "secret \<noteq> []" "ak_SecretHash k = HashSecret secret" "ak_RevokedAt k = None"
    "ak_Name k = TrimSpace (ak_Name k)" "ak_Name k \<noteq> []" "ak_Persona k = normalizePersona (ak_Persona k)"
    using repo_ak.Create_201 [OF assms] by blast
  then show ?thesis by (intro exI [of _ k] exI [of _ secret]) (simp add: authentic_def active_with_def HashSecret_def)
qed

lemma sample_Create:
  obtains cs w' where "keys_Create (NewKeysHandler repo_keyStore) (admin_request [] create_body) (sample_world\<lparr>api_keys := []\<rparr>)
    = (cs, Returned, w')" "status_of cs = 201"
  by (simp add: keys_Create_def NewKeysHandler_def repo_keyStore_def admin_request_body decode_create_body apikey_Create_def
      pg_exec_def next_outcome_def insert_api_key_def Generate_def randToken_def rand_read_def sample_world_def opt_ok_def
      TrimSpace_visible byte_of_def normalizePersona_def creatorID_def admin_request_def Background_def ClaimsFromContext_def
      gen_uuid_def pg_now_def now_def sample_request_def Let_def)

theorem created_key_authenticates_witness:
  "\<exists>k. api_keys (world_of (keys_Create (NewKeysHandler repo_keyStore) (admin_request [] create_body)
      (sample_world\<lparr>api_keys := []\<rparr>))) = [k] \<and> ak_Name k \<noteq> []"
proof -
  obtain cs w' where c: "keys_Create (NewKeysHandler repo_keyStore) (admin_request [] create_body) (sample_world\<lparr>api_keys := []\<rparr>)
    = (cs, Returned, w')" "status_of cs = 201" by (rule sample_Create)
  from created_key_authenticates [OF c] c(1) show ?thesis by auto
qed

lemma Revoke_Inr:
  assumes "apikey_Revoke i w = (Inr u, w')"
  obtains k t where "uuid_in w i = Some (ak_ID k)" "k \<in> set (api_keys w)" "ak_RevokedAt k = None"
    "api_keys w' = map (revoke_row (ak_ID k) t) (api_keys w)"
proof -
  obtain n where "pg_exec (revoke_api_key i) w = (Inr n, w')" and n: "n \<noteq> 0"
    using assms by (auto simp: apikey_Revoke_def split: prod.splits sum.splits if_splits)
  then obtain w1 where w1: "revoke_api_key i w1 = (Inr n, w')" "w1 = w \<or> (\<exists>os. w1 = w\<lparr>outcomes := os\<rparr>)"
    by (metis pg_exec_Inr)
  then obtain j where j: "uuid_in w i = Some j"
    "api_keys w' = map (revoke_row j (fst (pg_now w1))) (api_keys w)"
    "n = length (filter (\<lambda>k. ak_ID k = j \<and> ak_RevokedAt k = None) (api_keys w))"
    by (auto simp: revoke_api_key_def pg_now_def now_def Let_def split: option.splits)
  with n have "filter (\<lambda>k. ak_ID k = j \<and> ak_RevokedAt k = None) (api_keys w) \<noteq> []" by auto
  then obtain k where "k \<in> set (api_keys w)" "ak_ID k = j" "ak_RevokedAt k = None"
    by (auto simp: filter_empty_conv)
  with that [of k "fst (pg_now w1)"] j show thesis by simp
qed

text \<open>C29: a revocation answered 204 hit an active row, the one its path names, and from then on,
  whatever is done to the table, no request with that row's key id is authentic.\<close>

theorem revoked_key_refused:
  assumes "keys_inv w" "keys_Revoke (NewKeysHandler repo_keyStore) r w = (cs, e, w')" "status_of cs = 204"
  shows "\<exists>k \<in> set (api_keys w). ak_RevokedAt k = None \<and> uuid_in w (rq_path_value r ''id'') = Some (ak_ID k) \<and>
    (\<forall>w'' r' k'. key_step\<^sup>*\<^sup>* w' w'' \<longrightarrow> presented_key r' = ak_KeyID k \<longrightarrow> \<not> authentic (api_keys w'') r' k')"
proof -
  obtain u where u: "apikey_Revoke (rq_path_value r ''id'') w = (Inr u, w')"
    using assms(2,3)
    by (auto simp: keys_Revoke_def NewKeysHandler_def repo_keyStore_def writeStoreError_def Let_def
        split: prod.splits sum.splits if_splits)
  then obtain k t where k: "uuid_in w (rq_path_value r ''id'') = Some (ak_ID k)" "k \<in> set (api_keys w)"
    "ak_RevokedAt k = None" "api_keys w' = map (revoke_row (ak_ID k) t) (api_keys w)"
    by (rule Revoke_Inr)
  let ?k = "revoke_row (ak_ID k) t k"
  have "key_step w w'" using key_revoke [of w "rq_path_value r ''id''"] u by simp
  then have inv: "keys_inv w'" by (rule key_step_facts(2) [OF _ assms(1)])
  have gone: "\<not> active_with (ak_KeyID k) k'" if "key_step\<^sup>*\<^sup>* w' w''" "k' \<in> set (api_keys w'')" for w'' k'
    using revoked_no_active [OF _ key_steps_facts(1) [OF that(1)], of ?k] key_steps_facts(2) [OF that(1) inv] k that(2)
    by (auto simp: keys_inv_ids revoke_row_def)
  then show ?thesis using k by (intro bexI [of _ k]) (auto simp: authentic_def)
qed

section \<open>No secret in the responses\<close>

text \<open>Two worlds that differ at most in the stored secret hashes.\<close>

definition hash_blind :: "'a keys_db_scheme \<Rightarrow> 'a keys_db_scheme \<Rightarrow> bool" where
  "hash_blind w v \<longleftrightarrow> (\<exists>ks. v = w\<lparr>api_keys := ks\<rparr> \<and> map metadata_of ks = map metadata_of (api_keys w))"

definition blind :: "('a keys_db_scheme \<Rightarrow> 'r \<times> 'a keys_db_scheme) \<Rightarrow> bool" where
  "blind s \<longleftrightarrow> (\<forall>w v. hash_blind w v \<longrightarrow> fst (s v) = fst (s w) \<and> hash_blind (snd (s w)) (snd (s v)))"

lemma hash_blind_outcomes: "hash_blind w v \<Longrightarrow> hash_blind (w\<lparr>outcomes := os\<rparr>) (v\<lparr>outcomes := os\<rparr>)"
proof -
  assume "hash_blind w v"
  then obtain ks where ks: "v = w\<lparr>api_keys := ks\<rparr>" "map metadata_of ks = map metadata_of (api_keys w)"
    by (auto simp: hash_blind_def)
  have "v\<lparr>outcomes := os\<rparr> = (w\<lparr>outcomes := os\<rparr>)\<lparr>api_keys := ks\<rparr>" by (simp add: ks(1))
  then show ?thesis using ks(2) by (auto simp: hash_blind_def)
qed

lemma blind_pg_exec:
  fixes s :: "'a keys_db_scheme \<Rightarrow> (pgerr, 'r) result \<times> 'a keys_db_scheme"
  shows "blind s \<Longrightarrow> blind (pg_exec s)"
  unfolding blind_def
proof (intro allI impI)
  fix w v :: "'a keys_db_scheme"
  assume s: "\<forall>w v. hash_blind w v \<longrightarrow> fst (s v) = fst (s w) \<and> hash_blind (snd (s w)) (snd (s v))"
    and r: "hash_blind w v"
  then have "outcomes v = outcomes w" by (auto simp: hash_blind_def)
  then show "fst (pg_exec s v) = fst (pg_exec s w) \<and> hash_blind (snd (pg_exec s w)) (snd (pg_exec s v))"
    using s [rule_format, OF r] s [rule_format, OF hash_blind_outcomes [OF r, of "tl (outcomes w)"]]
      hash_blind_outcomes [OF r, of "tl (outcomes w)"]
    by (auto simp: pg_exec_def next_outcome_def split: list.splits outcome.splits)
qed

lemma find_metadata:
  "map metadata_of ks = map metadata_of ls \<Longrightarrow> (\<And>k k'. metadata_of k = metadata_of k' \<Longrightarrow> P k = P k') \<Longrightarrow>
   map_option metadata_of (find P ks) = map_option metadata_of (find P ls)"
proof (induction ks arbitrary: ls)
  case (Cons k ks)
  from Cons.prems(1) obtain l ls' where l: "ls = l # ls'" "metadata_of k = metadata_of l" "map metadata_of ks = map metadata_of ls'"
    by (cases ls) auto
  have "P k = P l" by (rule Cons.prems(2)) (rule l(2))
  moreover have "map_option metadata_of (find P ks) = map_option metadata_of (find P ls')"
    by (rule Cons.IH [OF l(3)]) (rule Cons.prems(2))
  ultimately show ?case using l(2) by (simp add: l(1))
qed simp

lemma ak_ID_metadata: "metadata_of k = metadata_of k' \<Longrightarrow> ak_ID k = ak_ID k'"
  "metadata_of k = metadata_of k' \<Longrightarrow> ak_RevokedAt k = ak_RevokedAt k'"
  by (simp_all add: metadata_of_def)

lemma map_metadata:
  assumes "map metadata_of ks = map metadata_of ls" "\<And>k k'. metadata_of k = metadata_of k' \<Longrightarrow> metadata_of (f k) = metadata_of (f k')"
  shows "map metadata_of (map f ks) = map metadata_of (map f ls)"
  using assms(1)
proof (induction ks arbitrary: ls)
  case (Cons k ks)
  then obtain l ls' where l: "ls = l # ls'" "metadata_of k = metadata_of l" "map metadata_of ks = map metadata_of ls'"
    by (cases ls) auto
  show ?case using assms(2) [OF l(2)] Cons.IH [OF l(3)] by (simp add: l(1))
qed simp

lemma insort_metadata:
  "metadata_of k = metadata_of l \<Longrightarrow> map metadata_of ks = map metadata_of ls \<Longrightarrow>
   map metadata_of (insort_key (\<lambda>k. (- ak_CreatedAt k, ak_ID k)) k ks) =
   map metadata_of (insort_key (\<lambda>k. (- ak_CreatedAt k, ak_ID k)) l ls)"
proof (induction ks arbitrary: ls)
  case (Cons x xs)
  then obtain y ys where y: "ls = y # ys" "metadata_of x = metadata_of y" by (cases ls) auto
  then have "ak_CreatedAt x = ak_CreatedAt y" "ak_ID x = ak_ID y" "ak_CreatedAt k = ak_CreatedAt l" "ak_ID k = ak_ID l"
    using Cons.prems by (simp_all add: metadata_of_def)
  with Cons y show ?case by simp
qed simp

lemma newest_first_metadata:
  "map metadata_of ks = map metadata_of ls \<Longrightarrow> map metadata_of (newest_first ks) = map metadata_of (newest_first ls)"
  unfolding newest_first_def
proof (induction ks arbitrary: ls)
  case (Cons k ks)
  then show ?case by (cases ls) (auto intro: insort_metadata)
qed simp

lemma blindI:
  assumes "\<And>w ks. map metadata_of ks = map metadata_of (api_keys w) \<Longrightarrow>
      fst (s (w\<lparr>api_keys := ks\<rparr>)) = fst (s w) \<and> hash_blind (snd (s w)) (snd (s (w\<lparr>api_keys := ks\<rparr>)))"
  shows "blind s"
  using assms by (auto simp: blind_def hash_blind_def)

lemma hash_blind_refl: "map metadata_of ks = map metadata_of (api_keys w) \<Longrightarrow> hash_blind w (w\<lparr>api_keys := ks\<rparr>)"
  by (auto simp: hash_blind_def)

lemma find_id_metadata:
  "map metadata_of ks = map metadata_of ls \<Longrightarrow>
   map_option metadata_of (find (\<lambda>k. ak_ID k = j) ks) = map_option metadata_of (find (\<lambda>k. ak_ID k = j) ls)"
  by (rule find_metadata) (simp, drule ak_ID_metadata(1), simp)

lemma blind_select: "blind (select_by_id i)"
proof (rule blindI)
  fix w :: "'a keys_db_scheme" and ks assume m: "map metadata_of ks = map metadata_of (api_keys w)"
  show "fst (select_by_id i (w\<lparr>api_keys := ks\<rparr>)) = fst (select_by_id i w) \<and>
      hash_blind (snd (select_by_id i w)) (snd (select_by_id i (w\<lparr>api_keys := ks\<rparr>)))"
  proof (cases "uuid_in w i")
    case (Some j)
    with find_id_metadata [OF m, of j] hash_blind_refl [OF m] show ?thesis
      by (cases "find (\<lambda>k. ak_ID k = j) ks"; cases "find (\<lambda>k. ak_ID k = j) (api_keys w)")
        (simp_all add: select_by_id_def)
  qed (simp add: select_by_id_def hash_blind_refl [OF m])
qed

lemma blind_select_all: "blind select_all"
proof (rule blindI)
  fix w :: "'a keys_db_scheme" and ks assume m: "map metadata_of ks = map metadata_of (api_keys w)"
  from newest_first_metadata [OF m] hash_blind_refl [OF m]
  show "fst (select_all (w\<lparr>api_keys := ks\<rparr>)) = fst (select_all w) \<and>
      hash_blind (snd (select_all w)) (snd (select_all (w\<lparr>api_keys := ks\<rparr>)))"
    by (simp add: select_all_def)
qed

lemma hash_blind_map:
  assumes "map metadata_of ks = map metadata_of (api_keys w)"
    and "\<And>k k'. metadata_of k = metadata_of k' \<Longrightarrow> metadata_of (f k) = metadata_of (f k')"
  shows "hash_blind (w\<lparr>api_keys := map f (api_keys w)\<rparr>) (w\<lparr>api_keys := map f ks\<rparr>)"
  using map_metadata [OF assms] by (auto simp: hash_blind_def intro: exI [of _ "map f ks"])

lemma relabel_metadata: "metadata_of k = metadata_of k' \<Longrightarrow> metadata_of (relabel_row j q k) = metadata_of (relabel_row j q k')"
  by (simp add: metadata_of_def relabel_row_def)

lemma revoke_metadata: "metadata_of k = metadata_of k' \<Longrightarrow> metadata_of (revoke_row j t k) = metadata_of (revoke_row j t k')"
  by (simp add: metadata_of_def revoke_row_def)

lemma blind_update: "blind (update_api_key i q)"
proof (rule blindI)
  fix w :: "'a keys_db_scheme" and ks assume m: "map metadata_of ks = map metadata_of (api_keys w)"
  let ?v = "w\<lparr>api_keys := ks\<rparr>"
  show "fst (update_api_key i q ?v) = fst (update_api_key i q w) \<and>
      hash_blind (snd (update_api_key i q w)) (snd (update_api_key i q ?v))"
  proof (cases "uuid_in w i")
    case (Some j)
    show ?thesis
    proof (cases "find (\<lambda>k. ak_ID k = j) (api_keys w)")
      case None
      then have "find (\<lambda>k. ak_ID k = j) ks = None" using find_id_metadata [OF m, of j] by simp
      then show ?thesis using None hash_blind_refl [OF m] by (simp add: update_api_key_def Some)
    next
      case k: (Some k)
      then obtain k' where k': "find (\<lambda>k. ak_ID k = j) ks = Some k'" "metadata_of k' = metadata_of k"
        using find_id_metadata [OF m, of j] by auto
      show ?thesis
        using k k'(1) relabel_metadata [OF k'(2), of j q] hash_blind_refl [OF m] hash_blind_map [where f = "relabel_row j q", OF m relabel_metadata]
        by (simp add: update_api_key_def Some)
    qed
  qed (simp add: update_api_key_def hash_blind_refl [OF m])
qed

lemma blind_revoke: "blind (revoke_api_key i)"
proof (rule blindI)
  fix w :: "'a keys_db_scheme" and ks assume m: "map metadata_of ks = map metadata_of (api_keys w)"
  let ?v = "w\<lparr>api_keys := ks\<rparr>"
  have l: "length (filter (\<lambda>k. ak_ID k = j \<and> ak_RevokedAt k = None) ks) =
      length (filter (\<lambda>k. ak_ID k = j \<and> ak_RevokedAt k = None) (api_keys w))" for j
    using arg_cong [OF m, of "\<lambda>ms. length (filter (\<lambda>m. md_ID m = j \<and> md_RevokedAt m = None) ms)"]
    by (simp add: filter_map comp_def metadata_of_def)
  show "fst (revoke_api_key i ?v) = fst (revoke_api_key i w) \<and>
      hash_blind (snd (revoke_api_key i w)) (snd (revoke_api_key i ?v))"
  proof (cases "uuid_in w i")
    case (Some j)
    let ?w = "snd (pg_now w)" and ?t = "fst (pg_now w)"
    have v: "pg_now ?v = (?t, ?w\<lparr>api_keys := ks\<rparr>)" by (simp add: pg_now_def now_def Let_def)
    have "map metadata_of ks = map metadata_of (api_keys ?w)" using m by simp
    from hash_blind_map [where f = "revoke_row j ?t", OF this revoke_metadata] l [of j] show ?thesis
      by (simp add: revoke_api_key_def Some v split: prod.split) (simp add: pg_now_def now_def Let_def)
  qed (simp add: revoke_api_key_def hash_blind_refl [OF m])
qed

text \<open>The repository's methods and the handlers over them.\<close>

lemma blind_D:
  assumes "blind s" "hash_blind w v" "s w = (x, w')"
  obtains v' where "s v = (x, v')" "hash_blind w' v'"
  using assms by (cases "s v") (fastforce simp: blind_def)

lemma blind_post:
  assumes "blind s" "\<And>w. s' w = (f (fst (s w)), snd (s w))" shows "blind s'"
  using assms(1) by (auto simp: blind_def assms(2))

lemma blind_GetByID: "blind (apikey_GetByID i)"
  by (rule blind_post [OF blind_pg_exec [OF blind_select [of i]], where f = "\<lambda>x. case x of
      Inl e \<Rightarrow> if isNotFound e then Inl apikey_ErrNotFound else Inl (apikey_wrapped e) | Inr m \<Rightarrow> Inr m"])
    (simp add: apikey_GetByID_def split: prod.split sum.split)

lemma blind_List: "blind apikey_List"
  by (rule blind_post [OF blind_pg_exec [OF blind_select_all], where f = "\<lambda>x. case x of
      Inl e \<Rightarrow> Inl (apikey_wrapped e) | Inr m \<Rightarrow> Inr m"])
    (simp add: apikey_List_def split: prod.split sum.split)

lemma blind_Update: "blind (apikey_Update i q)"
  by (rule blind_post [OF blind_pg_exec [OF blind_update [of i q]], where f = "\<lambda>x. case x of
      Inl e \<Rightarrow> if isNotFound e then Inl apikey_ErrNotFound else Inl (apikey_wrapped e) | Inr m \<Rightarrow> Inr m"])
    (simp add: apikey_Update_def split: prod.split sum.split)

lemma blind_Revoke: "blind (apikey_Revoke i)"
  by (rule blind_post [OF blind_pg_exec [OF blind_revoke [of i]], where f = "\<lambda>x. case x of
      Inl e \<Rightarrow> if isNotFound e then Inl apikey_ErrNotFound else Inl (apikey_wrapped e)
    | Inr n \<Rightarrow> if n = 0 then Inl apikey_ErrNotFound else Inr ()"])
    (simp add: apikey_Revoke_def split: prod.split sum.split)

lemma hash_blind_response: "hash_blind w v \<Longrightarrow> toMetadataResponse v = toMetadataResponse w"
  by (intro ext) (auto simp: hash_blind_def toMetadataResponse_def json_time_def json_opt_def split: option.split)

lemma List_blind: "hash_blind w v \<Longrightarrow> calls_of (keys_List (NewKeysHandler repo_keyStore) r v) = calls_of (keys_List (NewKeysHandler repo_keyStore) r w)"
proof -
  assume b: "hash_blind w v"
  obtain x w' where w': "apikey_List w = (x, w')" by fastforce
  obtain v' where "apikey_List v = (x, v')" "hash_blind w' v'" by (rule blind_D [OF blind_List b w'])
  with w' hash_blind_response [of w' v'] show ?thesis
    by (simp add: keys_List_def NewKeysHandler_def repo_keyStore_def split: sum.split)
qed

lemma Revoke_blind: "hash_blind w v \<Longrightarrow> calls_of (keys_Revoke (NewKeysHandler repo_keyStore) r v) = calls_of (keys_Revoke (NewKeysHandler repo_keyStore) r w)"
proof -
  assume b: "hash_blind w v"
  obtain x w' where w': "apikey_Revoke (rq_path_value r ''id'') w = (x, w')" by fastforce
  obtain v' where "apikey_Revoke (rq_path_value r ''id'') v = (x, v')" by (rule blind_D [OF blind_Revoke b w'])
  with w' show ?thesis
    by (simp add: keys_Revoke_def NewKeysHandler_def repo_keyStore_def Let_def split: sum.split)
qed

lemma Update_blind: "hash_blind w v \<Longrightarrow> calls_of (keys_Update (NewKeysHandler repo_keyStore) r v) = calls_of (keys_Update (NewKeysHandler repo_keyStore) r w)"
proof -
  assume b: "hash_blind w v"
  obtain x w' where w': "apikey_GetByID (rq_path_value r ''id'') w = (x, w')" by fastforce
  obtain v' where v': "apikey_GetByID (rq_path_value r ''id'') v = (x, v')" "hash_blind w' v'"
    by (rule blind_D [OF blind_GetByID b w'])
  have u: "fst (apikey_Update i q v') = fst (apikey_Update i q w')"
    "toMetadataResponse (snd (apikey_Update i q v')) = toMetadataResponse (snd (apikey_Update i q w'))" for i q
    using blind_Update [of i q] v'(2) by (auto simp: blind_def intro: hash_blind_response)
  show ?thesis
    using w' v'(1) u
    by (simp add: keys_Update_def NewKeysHandler_def repo_keyStore_def Let_def case_prod_beta split: sum.split option.split)
qed

text \<open>C40: what the listing, the update and the revocation of credentials answer does not depend on
  the stored secret hashes, and an update rotates no secret: whatever fails, every row keeps
  its id, key id, hash and revocation.\<close>

theorem management_keeps_secrets:
  assumes "hash_blind w v" "h \<in> {keys_List, keys_Update, keys_Revoke}"
  shows "calls_of (h (NewKeysHandler repo_keyStore) r v) = calls_of (h (NewKeysHandler repo_keyStore) r w) \<and>
    map (\<lambda>k. (ak_ID k, ak_KeyID k, ak_SecretHash k, ak_RevokedAt k)) (api_keys (world_of (keys_Update (NewKeysHandler repo_keyStore) r w)))
      = map (\<lambda>k. (ak_ID k, ak_KeyID k, ak_SecretHash k, ak_RevokedAt k)) (api_keys w)"
  using assms List_blind Update_blind Revoke_blind repo_ak.Update_secrets [of r w] by blast

theorem management_keeps_secrets_witness:
  "calls_of (keys_List (NewKeysHandler repo_keyStore) (admin_request [] []) (sample_world\<lparr>api_keys := [sample_key\<lparr>ak_SecretHash := ''ff''\<rparr>]\<rparr>))
    = calls_of (keys_List (NewKeysHandler repo_keyStore) (admin_request [] []) sample_world)"
  using management_keeps_secrets [of sample_world "sample_world\<lparr>api_keys := [sample_key\<lparr>ak_SecretHash := ''ff''\<rparr>]\<rparr>" keys_List]
    hash_blind_refl [of "[sample_key\<lparr>ak_SecretHash := ''ff''\<rparr>]" sample_world]
  by (simp add: sample_world_def metadata_of_def)

theorem revoked_key_refused_witness:
  "\<exists>k \<in> set (api_keys sample_world). ak_RevokedAt k = None \<and>
    uuid_in sample_world (rq_path_value (admin_request ''k1'' []) ''id'') = Some (ak_ID k)"
proof -
  obtain cs w' where "keys_Revoke (NewKeysHandler repo_keyStore) (admin_request ''k1'' []) sample_world = (cs, Returned, w')"
    "status_of cs = 204"
    by (simp add: keys_Revoke_def NewKeysHandler_def repo_keyStore_def admin_request_def apikey_Revoke_def pg_exec_def
        next_outcome_def revoke_api_key_def pg_now_def now_def sample_world_def sample_key_def Let_def status_of_def
        wire_run_def wire0_def wire_header_def)
  moreover have "keys_inv sample_world" by (simp add: keys_inv_def sample_world_def)
  ultimately show ?thesis using revoked_key_refused by blast
qed

end
