(* ===== verification/Go_Url.thy ===== *)
theory Go_Url
  imports Go_Strings
begin

text \<open>
  The parts of \<open>net/url\<close> the configuration uses: \<open>Parse\<close>, \<open>URL.String\<close>, \<open>URL.Query\<close>,
  \<open>Values.Encode\<close> and \<open>UserPassword\<close>, function by function. A parse error is \<open>None\<close>:
  no caller looks at its kind.
\<close>

section \<open>Cutting and cases\<close>

text \<open>\<open>strings.Cut\<close> at the first byte \<open>c\<close>, and \<open>strings.LastIndex\<close> as a split at the last one.\<close>

definition CutChar :: "char \<Rightarrow> string \<Rightarrow> string \<times> string option" where
  "CutChar c s =
     (takeWhile (\<lambda>x. x \<noteq> c) s, case dropWhile (\<lambda>x. x \<noteq> c) s of [] \<Rightarrow> None | _ # t \<Rightarrow> Some t)"

definition CutLast :: "char \<Rightarrow> string \<Rightarrow> (string \<times> string) option" where
  "CutLast c s = (case CutChar c (rev s) of (a, None) \<Rightarrow> None | (a, Some b) \<Rightarrow> Some (rev b, rev a))"

definition opt_text :: "string option \<Rightarrow> string" where
  "opt_text x = (case x of None \<Rightarrow> [] | Some s \<Rightarrow> s)"

definition is_lower :: "char \<Rightarrow> bool" where "is_lower c \<longleftrightarrow> 97 \<le> byte_of c \<and> byte_of c \<le> 122"
definition is_upper :: "char \<Rightarrow> bool" where "is_upper c \<longleftrightarrow> 65 \<le> byte_of c \<and> byte_of c \<le> 90"
definition is_decimal :: "char \<Rightarrow> bool" where "is_decimal c \<longleftrightarrow> 48 \<le> byte_of c \<and> byte_of c \<le> 57"

definition is_alnum :: "char \<Rightarrow> bool" where
  "is_alnum c \<longleftrightarrow> is_lower c \<or> is_upper c \<or> is_decimal c"

definition lower_byte :: "char \<Rightarrow> char" where
  "lower_byte c = (if is_upper c then char_of_byte (byte_of c + 32) else c)"

definition ascii_lower :: "string \<Rightarrow> string" where
  "ascii_lower s = map lower_byte s"

text \<open>
  \<open>strings.ToLower\<close>. Two runes outside ASCII have an ASCII lower case, the Kelvin sign and the
  dotted capital I; every other one becomes a rune outside ASCII and is left as it is here: the
  callers only look for ASCII text in the result.
\<close>

fun ToLower :: "string \<Rightarrow> string" where
  "ToLower (a # b # s) =
     (if byte_of a = 196 \<and> byte_of b = 176 then CHR ''i'' # ToLower s
      else if byte_of a = 226 \<and> byte_of b = 132 \<and> s \<noteq> [] \<and> byte_of (hd s) = 170 then CHR ''k'' # ToLower (tl s)
      else lower_byte a # ToLower (b # s))"
| "ToLower [a] = [lower_byte a]"
| "ToLower [] = []"

lemma CutChar_append [simp]: "c \<notin> set a \<Longrightarrow> CutChar c (a @ c # b) = (a, Some b)"
proof -
  assume c: "c \<notin> set a"
  have "takeWhile (\<lambda>x. x \<noteq> c) (a @ c # b) = a" using c by (subst takeWhile_append2) auto
  moreover have "dropWhile (\<lambda>x. x \<noteq> c) (a @ c # b) = c # b" using c by (subst dropWhile_append2) auto
  ultimately show ?thesis by (simp add: CutChar_def)
qed

lemma CutChar_none [simp]: "c \<notin> set a \<Longrightarrow> CutChar c a = (a, None)"
proof -
  assume c: "c \<notin> set a"
  have "takeWhile (\<lambda>x. x \<noteq> c) a = a" using c by (subst takeWhile_eq_all_conv) auto
  moreover have "dropWhile (\<lambda>x. x \<noteq> c) a = []" using c by auto
  ultimately show ?thesis by (simp only: CutChar_def list.case)
qed

lemma CutChar_skip: "c \<notin> set a \<Longrightarrow> CutChar c (a @ b) = (a @ fst (CutChar c b), snd (CutChar c b))"
  by (simp add: CutChar_def takeWhile_append dropWhile_append)

lemma CutLast_last: "c \<notin> set b \<Longrightarrow> CutLast c (a @ c # b) = Some (a, b)"
  by (simp add: CutLast_def)

section \<open>Escaping\<close>

datatype encoding = encodePath | encodeHost | encodeZone | encodeUserPassword | encodeQueryComponent | encodeFragment

definition shouldEscape :: "char \<Rightarrow> encoding \<Rightarrow> bool" where
  "shouldEscape c mode =
     (if is_alnum c then False
      else if (mode = encodeHost \<or> mode = encodeZone) \<and> c \<in> set (CHR 0x22 # CHR 0x27 # ''!$&()*+,;=:[]<>'') then False
      else if c \<in> set ''-_.~'' then False
      else if c \<in> set ''$&+,/:;=?@'' then
        (case mode of
           encodePath \<Rightarrow> c = CHR ''?''
         | encodeUserPassword \<Rightarrow> c \<in> set ''@/?:''
         | encodeQueryComponent \<Rightarrow> True
         | encodeFragment \<Rightarrow> False
         | _ \<Rightarrow> True)
      else if mode = encodeFragment \<and> c \<in> set ''!()*'' then False
      else True)"

definition upper_hex :: "nat \<Rightarrow> char" where
  "upper_hex n = (if n < 10 then char_of_byte (48 + n) else char_of_byte (55 + n))"

definition escape_byte :: "encoding \<Rightarrow> char \<Rightarrow> string" where
  "escape_byte mode c =
     (if \<not> shouldEscape c mode then [c]
      else if c = CHR '' '' \<and> mode = encodeQueryComponent then ''+''
      else [CHR 0x25, upper_hex (byte_of c div 16), upper_hex (byte_of c mod 16)])"

definition url_escape :: "string \<Rightarrow> encoding \<Rightarrow> string" where
  "url_escape s mode = concat (map (escape_byte mode) s)"

text \<open>\<open>unescape\<close>, which in a host rejects escapes of ASCII characters other than \<open>%25\<close>.\<close>

fun url_unescape :: "encoding \<Rightarrow> string \<Rightarrow> string option" where
  "url_unescape mode [] = Some []"
| "url_unescape mode (c # s) =
     (if c = CHR 0x25 then
        (case s of
           a # b # t \<Rightarrow>
             (case (hex_val a, hex_val b) of
                (Some x, Some y) \<Rightarrow>
                  if mode = encodeHost \<and> x < 8 \<and> \<not> (a = CHR ''2'' \<and> b = CHR ''5'') then None
                  else if mode = encodeZone \<and> \<not> (a = CHR ''2'' \<and> b = CHR ''5'') \<and> 16 * x + y \<noteq> 32
                    \<and> shouldEscape (char_of_byte (16 * x + y)) encodeHost then None
                  else map_option (Cons (char_of_byte (16 * x + y))) (url_unescape mode t)
              | _ \<Rightarrow> None)
         | _ \<Rightarrow> None)
      else if c = CHR ''+'' then map_option (Cons (if mode = encodeQueryComponent then CHR '' '' else c)) (url_unescape mode s)
      else if (mode = encodeHost \<or> mode = encodeZone) \<and> byte_of c < 128 \<and> shouldEscape c mode then None
      else map_option (Cons c) (url_unescape mode s))"

definition validEncoded :: "string \<Rightarrow> encoding \<Rightarrow> bool" where
  "validEncoded s mode \<longleftrightarrow>
     list_all (\<lambda>c. c \<in> set (CHR 0x27 # CHR 0x25 # ''!$&()*+,;=:@[]'') \<or> \<not> shouldEscape c mode) s"

section \<open>URLs\<close>

record Userinfo =
  ui_username :: string
  ui_password :: "string option"

record URL =
  url_Scheme :: string
  url_Opaque :: string
  url_User :: "Userinfo option"
  url_Host :: string
  url_Path :: string
  url_RawPath :: string
  url_OmitHost :: bool
  url_ForceQuery :: bool
  url_RawQuery :: string
  url_Fragment :: string
  url_RawFragment :: string

definition URL0 :: URL where
  "URL0 = \<lparr>url_Scheme = [], url_Opaque = [], url_User = None, url_Host = [], url_Path = [], url_RawPath = [],
     url_OmitHost = False, url_ForceQuery = False, url_RawQuery = [], url_Fragment = [], url_RawFragment = []\<rparr>"

text \<open>\<open>getScheme\<close>: \<open>None\<close> for a colon in front.\<close>

fun scheme_scan :: "nat \<Rightarrow> string \<Rightarrow> string \<Rightarrow> (string \<times> string) option option" where
  "scheme_scan i pre [] = Some None"
| "scheme_scan i pre (c # s) =
     (if is_lower c \<or> is_upper c then scheme_scan (Suc i) (pre @ [c]) s
      else if is_decimal c \<or> c \<in> set ''+-.'' then (if i = 0 then Some None else scheme_scan (Suc i) (pre @ [c]) s)
      else if c = CHR '':'' then (if i = 0 then None else Some (Some (pre, s)))
      else Some None)"

definition getScheme :: "string \<Rightarrow> (string \<times> string) option" where
  "getScheme s = (case scheme_scan 0 [] s of None \<Rightarrow> None | Some None \<Rightarrow> Some ([], s) | Some (Some x) \<Rightarrow> Some x)"

definition validOptionalPort :: "string \<Rightarrow> bool" where
  "validOptionalPort p \<longleftrightarrow> (case p of [] \<Rightarrow> True | c # ds \<Rightarrow> c = CHR '':'' \<and> list_all is_decimal ds)"

definition validUserinfo :: "string \<Rightarrow> bool" where
  "validUserinfo s \<longleftrightarrow> list_all (\<lambda>c. is_alnum c \<or> c \<in> set (CHR 0x27 # CHR 0x25 # ''-_.:~!$&()*+,;=@'')) s"

text \<open>The zone of a bracketed host starts at the first \<open>%25\<close>.\<close>

fun CutZone :: "string \<Rightarrow> string \<times> string option" where
  "CutZone [] = ([], None)"
| "CutZone (c # s) =
     (if take 3 (c # s) = [CHR 0x25, CHR ''2'', CHR ''5''] then ([], Some (c # s))
      else case CutZone s of (a, z) \<Rightarrow> (c # a, z))"

definition parseHost :: "string \<Rightarrow> string option" where
  "parseHost host =
     (if HasPrefix host ''['' then
        (case CutLast CHR '']'' host of
           None \<Rightarrow> None
         | Some (h, colonPort) \<Rightarrow>
             if \<not> validOptionalPort colonPort then None
             else (case CutZone h of
                 (a, None) \<Rightarrow> url_unescape encodeHost host
               | (a, Some z) \<Rightarrow>
                   (case (url_unescape encodeHost a, url_unescape encodeZone z, url_unescape encodeHost ('']'' @ colonPort)) of
                      (Some x, Some y, Some p) \<Rightarrow> Some (x @ y @ p)
                    | _ \<Rightarrow> None)))
      else (case CutLast CHR '':'' host of
          Some (h, p) \<Rightarrow> if \<not> validOptionalPort (CHR '':'' # p) then None else url_unescape encodeHost host
        | None \<Rightarrow> url_unescape encodeHost host))"

definition parseUserinfo :: "string \<Rightarrow> Userinfo option" where
  "parseUserinfo s =
     (if \<not> validUserinfo s then None
      else case CutChar CHR '':'' s of
        (u, None) \<Rightarrow> map_option (\<lambda>n. \<lparr>ui_username = n, ui_password = None\<rparr>) (url_unescape encodeUserPassword u)
      | (u, Some p) \<Rightarrow>
          (case (url_unescape encodeUserPassword u, url_unescape encodeUserPassword p) of
             (Some n, Some q) \<Rightarrow> Some \<lparr>ui_username = n, ui_password = Some q\<rparr>
           | _ \<Rightarrow> None))"

definition parseAuthority :: "string \<Rightarrow> (Userinfo option \<times> string) option" where
  "parseAuthority a =
     (case CutLast CHR ''@'' a of
        None \<Rightarrow> map_option (\<lambda>h. (None, h)) (parseHost a)
      | Some (ui, h) \<Rightarrow>
          (case parseHost h of
             None \<Rightarrow> None
           | Some host \<Rightarrow> map_option (\<lambda>u. (Some u, host)) (parseUserinfo ui)))"

definition setPath :: "string \<Rightarrow> URL \<Rightarrow> URL option" where
  "setPath p u =
     (case url_unescape encodePath p of
        None \<Rightarrow> None
      | Some path \<Rightarrow>
          Some (u\<lparr>url_Path := path, url_RawPath := if p = url_escape path encodePath then [] else p\<rparr>))"

definition setFragment :: "string \<Rightarrow> URL \<Rightarrow> URL option" where
  "setFragment f u =
     (case url_unescape encodeFragment f of
        None \<Rightarrow> None
      | Some frag \<Rightarrow>
          Some (u\<lparr>url_Fragment := frag, url_RawFragment := if f = url_escape frag encodeFragment then [] else f\<rparr>))"

text \<open>\<open>parse\<close> once the scheme and the query are off: opaque, with an authority, or a path.\<close>

definition parse_hier :: "string \<Rightarrow> URL \<Rightarrow> URL option" where
  "parse_hier rest u =
     (if \<not> HasPrefix rest ''/'' \<and> url_Scheme u \<noteq> [] then Some (u\<lparr>url_Opaque := rest\<rparr>)
      else if \<not> HasPrefix rest ''/'' \<and> CHR '':'' \<in> set (fst (CutChar CHR ''/'' rest)) then None
      else if (url_Scheme u \<noteq> [] \<or> \<not> HasPrefix rest ''///'') \<and> HasPrefix rest ''//'' then
        (let au = takeWhile (\<lambda>c. c \<noteq> CHR ''/'') (drop 2 rest);
             path = dropWhile (\<lambda>c. c \<noteq> CHR ''/'') (drop 2 rest)
         in case parseAuthority au of
              None \<Rightarrow> None
            | Some (user, host) \<Rightarrow> setPath path (u\<lparr>url_User := user, url_Host := host\<rparr>))
      else if url_Scheme u \<noteq> [] \<and> HasPrefix rest ''/'' then setPath rest (u\<lparr>url_OmitHost := True\<rparr>)
      else setPath rest u)"

definition parse_nofrag :: "string \<Rightarrow> URL option" where
  "parse_nofrag raw =
     (if list_ex (\<lambda>c. byte_of c < 32 \<or> byte_of c = 127) raw then None
      else if raw = ''*'' then Some (URL0\<lparr>url_Path := ''*''\<rparr>)
      else case getScheme raw of
        None \<Rightarrow> None
      | Some (scheme, rest) \<Rightarrow>
          (let u = URL0\<lparr>url_Scheme := ascii_lower scheme\<rparr>
           in if HasSuffix rest ''?'' \<and> length (filter (\<lambda>c. c = CHR ''?'') rest) = 1
              then parse_hier (butlast rest) (u\<lparr>url_ForceQuery := True\<rparr>)
              else case CutChar CHR ''?'' rest of (r, q) \<Rightarrow> parse_hier r (u\<lparr>url_RawQuery := opt_text q\<rparr>)))"

definition url_Parse :: "string \<Rightarrow> URL option" where
  "url_Parse rawURL =
     (case CutChar CHR ''#'' rawURL of (r, frag) \<Rightarrow>
       (case parse_nofrag r of
          None \<Rightarrow> None
        | Some u \<Rightarrow> if opt_text frag = [] then Some u else setFragment (opt_text frag) u))"

section \<open>Printing\<close>

definition UserPassword :: "string \<Rightarrow> string \<Rightarrow> Userinfo" where
  "UserPassword n p = \<lparr>ui_username = n, ui_password = Some p\<rparr>"

definition Userinfo_String :: "Userinfo \<Rightarrow> string" where
  "Userinfo_String u =
     (if ui_username u \<noteq> [] \<or> opt_text (ui_password u) \<noteq> [] then
        url_escape (ui_username u) encodeUserPassword
        @ (case ui_password u of None \<Rightarrow> [] | Some p \<Rightarrow> '':'' @ url_escape p encodeUserPassword)
      else [])"

definition EscapedPath :: "URL \<Rightarrow> string" where
  "EscapedPath u =
     (if url_RawPath u \<noteq> [] \<and> validEncoded (url_RawPath u) encodePath
         \<and> url_unescape encodePath (url_RawPath u) = Some (url_Path u) then url_RawPath u
      else if url_Path u = ''*'' then ''*''
      else url_escape (url_Path u) encodePath)"

definition EscapedFragment :: "URL \<Rightarrow> string" where
  "EscapedFragment u =
     (if url_RawFragment u \<noteq> [] \<and> validEncoded (url_RawFragment u) encodeFragment
         \<and> url_unescape encodeFragment (url_RawFragment u) = Some (url_Fragment u) then url_RawFragment u
      else url_escape (url_Fragment u) encodeFragment)"

definition authority_string :: "URL \<Rightarrow> string" where
  "authority_string u =
     (if url_Scheme u \<noteq> [] \<or> url_Host u \<noteq> [] \<or> url_User u \<noteq> None then
        (if url_OmitHost u \<and> url_Host u = [] \<and> url_User u = None then []
         else (if url_Host u \<noteq> [] \<or> url_Path u \<noteq> [] \<or> url_User u \<noteq> None then ''//'' else [])
           @ (case url_User u of None \<Rightarrow> [] | Some i \<Rightarrow> Userinfo_String i @ ''@'')
           @ (if url_Host u \<noteq> [] then url_escape (url_Host u) encodeHost else []))
      else [])"

definition URL_String :: "URL \<Rightarrow> string" where
  "URL_String u =
     (let front = (if url_Scheme u \<noteq> [] then url_Scheme u @ '':'' else []);
          path = EscapedPath u;
          body = (if url_Opaque u \<noteq> [] then front @ url_Opaque u
                  else let b = front @ authority_string u;
                           b' = b @ (if path \<noteq> [] \<and> \<not> HasPrefix path ''/'' \<and> url_Host u \<noteq> [] then ''/'' else [])
                       in b' @ (if b' = [] \<and> CHR '':'' \<in> set (fst (CutChar CHR ''/'' path)) then ''./'' else []) @ path)
      in body @ (if url_ForceQuery u \<or> url_RawQuery u \<noteq> [] then CHR ''?'' # url_RawQuery u else [])
           @ (if url_Fragment u \<noteq> [] then CHR ''#'' # EscapedFragment u else []))"

section \<open>Queries\<close>

text \<open>\<open>url.Values\<close> as an association list in the order of first appearance.\<close>

type_synonym Values = "(string \<times> string list) list"

fun add_value :: "string \<Rightarrow> string \<Rightarrow> Values \<Rightarrow> Values" where
  "add_value k v [] = [(k, [v])]"
| "add_value k v ((k', vs) # m) = (if k = k' then (k', vs @ [v]) # m else (k', vs) # add_value k v m)"

definition parse_pair :: "string \<Rightarrow> (string \<times> string) option" where
  "parse_pair s =
     (if CHR '';'' \<in> set s \<or> s = [] then None
      else case CutChar CHR ''='' s of (k, v) \<Rightarrow>
        (case (url_unescape encodeQueryComponent k, url_unescape encodeQueryComponent (opt_text v)) of
           (Some a, Some b) \<Rightarrow> Some (a, b)
         | _ \<Rightarrow> None))"

definition url_Query :: "string \<Rightarrow> Values" where
  "url_Query raw =
     fold (\<lambda>s m. case parse_pair s of None \<Rightarrow> m | Some (k, v) \<Rightarrow> add_value k v m) (SplitChar CHR ''&'' raw) []"

definition encode_pair :: "string \<Rightarrow> string \<Rightarrow> string" where
  "encode_pair k v = url_escape k encodeQueryComponent @ ''='' @ url_escape v encodeQueryComponent"

fun join_amp :: "string list \<Rightarrow> string" where
  "join_amp [] = []"
| "join_amp [s] = s"
| "join_amp (s # ss) = s @ ''&'' @ join_amp ss"

definition Values_Encode :: "Values \<Rightarrow> string" where
  "Values_Encode m = join_amp (concat (map (\<lambda>(k, vs). map (encode_pair k) vs) (sort_key fst m)))"

end
