(* ===== verification/Go_Time.thy ===== *)
theory Go_Time
  imports Go_Strings
begin

text \<open>
  The parts of \<open>time\<close> and \<open>strconv\<close> that read and print settings: \<open>ParseBool\<close>,
  \<open>ParseDuration\<close> and \<open>Duration.String\<close>, on nanoseconds. The fraction of a unit is computed in
  \<open>float64\<close>: \<open>frac f scale unit\<close> stands for \<open>uint64(float64(f) * (float64(unit) / scale))\<close>.
\<close>

definition ParseBool :: "string \<Rightarrow> bool option" where
  "ParseBool s =
     (if s \<in> set [''1'', ''t'', ''T'', ''true'', ''TRUE'', ''True''] then Some True
      else if s \<in> set [''0'', ''f'', ''F'', ''false'', ''FALSE'', ''False''] then Some False
      else None)"

section \<open>ParseDuration\<close>

definition is_digit_char :: "char \<Rightarrow> bool" where
  "is_digit_char c \<longleftrightarrow> digit_val c \<noteq> None"

text \<open>\<open>leadingInt\<close>: \<open>None\<close> when the number exceeds \<open>1<<63\<close>.\<close>

fun leadingInt :: "nat \<Rightarrow> string \<Rightarrow> (nat \<times> string) option" where
  "leadingInt x [] = Some (x, [])"
| "leadingInt x (c # s) =
     (case digit_val c of
        None \<Rightarrow> Some (x, c # s)
      | Some d \<Rightarrow>
          if x > 2 ^ 63 div 10 then None
          else if 10 * x + d > 2 ^ 63 then None
          else leadingInt (10 * x + d) s)"

text \<open>\<open>leadingFraction\<close>: digits beyond 63 bits are skipped. The result is value, scale and rest.\<close>

fun leadingFraction :: "bool \<Rightarrow> nat \<Rightarrow> nat \<Rightarrow> string \<Rightarrow> nat \<times> nat \<times> string" where
  "leadingFraction overflow x scale [] = (x, scale, [])"
| "leadingFraction overflow x scale (c # s) =
     (case digit_val c of
        None \<Rightarrow> (x, scale, c # s)
      | Some d \<Rightarrow>
          if overflow then leadingFraction True x scale s
          else if x > (2 ^ 63 - 1) div 10 then leadingFraction True x scale s
          else if 10 * x + d > 2 ^ 63 then leadingFraction True x scale s
          else leadingFraction False (10 * x + d) (10 * scale) s)"

text \<open>The units; micro is written with U+00B5 or U+03BC too.\<close>

definition unitMap :: "string \<Rightarrow> nat option" where
  "unitMap = map_of
     [(''ns'', 1), (''us'', 1000), (map char_of_byte [194, 181, 115], 1000), (map char_of_byte [206, 188, 115], 1000),
      (''ms'', 1000000), (''s'', 1000000000), (''m'', 60 * 1000000000), (''h'', 3600 * 1000000000)]"

definition number_char :: "char \<Rightarrow> bool" where
  "number_char c \<longleftrightarrow> c = CHR ''.'' \<or> is_digit_char c"

text \<open>One round of the loop: the nanoseconds of the next number with its unit, and the rest.\<close>

definition duration_term :: "(nat \<Rightarrow> nat \<Rightarrow> nat \<Rightarrow> nat) \<Rightarrow> string \<Rightarrow> (nat \<times> string) option" where
  "duration_term frac s =
     (if \<not> (case s of [] \<Rightarrow> False | c # _ \<Rightarrow> number_char c) then None
      else case leadingInt 0 s of
        None \<Rightarrow> None
      | Some (v, s1) \<Rightarrow>
          (let pre = (s1 \<noteq> s);
               dot = (case s1 of [] \<Rightarrow> False | c # _ \<Rightarrow> c = CHR ''.'');
               fr = (if dot then leadingFraction False 0 1 (tl s1) else (0, 1, s1));
               post = (dot \<and> snd (snd fr) \<noteq> tl s1);
               s2 = snd (snd fr);
               u = takeWhile (\<lambda>c. \<not> number_char c) s2
           in if \<not> pre \<and> \<not> post then None
              else if u = [] then None
              else case unitMap u of
                None \<Rightarrow> None
              | Some unit \<Rightarrow>
                  if v > 2 ^ 63 div unit then None
                  else let v1 = v * unit + (if fst fr > 0 then frac (fst fr) (fst (snd fr)) unit else 0)
                       in if v1 > 2 ^ 63 then None else Some (v1, dropWhile (\<lambda>c. \<not> number_char c) s2)))"

lemma leadingInt_length: "leadingInt x s = Some (v, t) \<Longrightarrow> length t \<le> length s"
  by (induction x s rule: leadingInt.induct) (auto split: option.splits if_splits)

lemma leadingFraction_length: "length (snd (snd (leadingFraction b x sc s))) \<le> length s"
  by (induction b x sc s rule: leadingFraction.induct) (force split: option.split)+

lemma duration_term_shorter:
  assumes "duration_term frac s = Some (v, t)" shows "length t < length s"
proof -
  from assms obtain w s1 where 1: "leadingInt 0 s = Some (w, s1)"
    by (auto simp: duration_term_def Let_def split: if_splits option.splits prod.splits)
  define dot where "dot = (case s1 of [] \<Rightarrow> False | c # _ \<Rightarrow> c = CHR ''.'')"
  define fr where "fr = (if dot then leadingFraction False 0 1 (tl s1) else (0, 1, s1))"
  define s2 where "s2 = snd (snd fr)"
  have "length s1 \<le> length s" using 1 by (rule leadingInt_length)
  moreover have "length s2 \<le> length s1"
    using leadingFraction_length [of False 0 1 "tl s1"] by (auto simp: s2_def fr_def)
  moreover have "takeWhile (\<lambda>c. \<not> number_char c) s2 \<noteq> []" "t = dropWhile (\<lambda>c. \<not> number_char c) s2"
    using assms 1
    by (auto simp: duration_term_def Let_def s2_def fr_def dot_def split: if_splits option.splits)
  moreover from this(1) have "length (dropWhile (\<lambda>c. \<not> number_char c) s2) < length s2"
    by (metis length_append length_greater_0_conv less_add_same_cancel2 takeWhile_dropWhile_id)
  ultimately show ?thesis by simp
qed

function duration_sum :: "(nat \<Rightarrow> nat \<Rightarrow> nat \<Rightarrow> nat) \<Rightarrow> nat \<Rightarrow> string \<Rightarrow> nat option" where
  "duration_sum frac d s =
     (if s = [] then Some d
      else case duration_term frac s of
        None \<Rightarrow> None
      | Some (v, t) \<Rightarrow> if d + v > 2 ^ 63 then None else duration_sum frac (d + v) t)"
  by pat_completeness auto
termination
  by (relation "measure (\<lambda>(_, _, s). length s)") (auto dest: duration_term_shorter)

declare duration_sum.simps [simp del]

definition ParseDuration :: "(nat \<Rightarrow> nat \<Rightarrow> nat \<Rightarrow> nat) \<Rightarrow> string \<Rightarrow> int option" where
  "ParseDuration frac str =
     (let neg = (case str of [] \<Rightarrow> False | c # _ \<Rightarrow> c = CHR ''-'');
          s = (case str of [] \<Rightarrow> [] | c # t \<Rightarrow> if c = CHR ''-'' \<or> c = CHR ''+'' then t else str)
      in if s = ''0'' then Some 0
         else if s = [] then None
         else case duration_sum frac 0 s of
           None \<Rightarrow> None
         | Some d \<Rightarrow> if neg then Some (- int d) else if d > 2 ^ 63 - 1 then None else Some (int d))"

section \<open>Duration.String\<close>

text \<open>\<open>fmtFrac\<close>: \<open>prec\<close> decimals without trailing zeros.\<close>

fun fmtFrac :: "nat \<Rightarrow> nat \<Rightarrow> bool \<Rightarrow> string \<Rightarrow> string \<times> nat" where
  "fmtFrac 0 v printed acc = (if printed then CHR ''.'' # acc else acc, v)"
| "fmtFrac (Suc n) v printed acc =
     (let digit = v mod 10; p = (printed \<or> digit \<noteq> 0)
      in fmtFrac n (v div 10) p (if p then char_of_byte (48 + digit) # acc else acc))"

definition small_duration :: "nat \<Rightarrow> string" where
  "small_duration u =
     (if u = 0 then ''0s''
      else if u < 1000 then itoa_nat u @ ''ns''
      else if u < 1000000 then (case fmtFrac 3 u False (map char_of_byte [194, 181, 115]) of (t, v) \<Rightarrow> itoa_nat v @ t)
      else (case fmtFrac 6 u False ''ms'' of (t, v) \<Rightarrow> itoa_nat v @ t))"

definition Duration_String :: "int \<Rightarrow> string" where
  "Duration_String d =
     (let u = nat \<bar>d\<bar>;
          body =
            (if u < 1000000000 then small_duration u
             else case fmtFrac 9 u False ''s'' of (t, secs) \<Rightarrow>
               (let m = secs div 60; h = m div 60
                in (if h > 0 then itoa_nat h @ ''h'' else []) @ (if m > 0 then itoa_nat (m mod 60) @ ''m'' else [])
                   @ itoa_nat (secs mod 60) @ t))
      in (if d < 0 then CHR ''-'' # body else body))"

end
