(* ===== verification/Config.thy ===== *)
theory Config
  imports Go_Url Go_Time
begin

text \<open>
  \<open>backend/internal/config\<close>: config.go, which reads and validates the environment, and
  redact.go, its log-safe rendering. \<open>getenv\<close> is the process environment (\<open>os.Getenv\<close>, empty
  for an unset variable), \<open>frac\<close> the floating-point step of \<open>time.ParseDuration\<close>. The list of
  errors a helper appends to is passed and returned.
\<close>

section \<open>config.go\<close>

definition EnvAppEnv :: string where "EnvAppEnv = ''ENV''"
definition EnvListenAddr :: string where "EnvListenAddr = ''LISTEN_ADDR''"
definition EnvPort :: string where "EnvPort = ''PORT''"
definition EnvLogLevel :: string where "EnvLogLevel = ''LOG_LEVEL''"
definition EnvDatabaseURL :: string where "EnvDatabaseURL = ''DATABASE_URL''"
definition EnvAutoMigrate :: string where "EnvAutoMigrate = ''AUTO_MIGRATE''"
definition EnvVLLMURL :: string where "EnvVLLMURL = ''VLLM_URL''"
definition EnvVLLMAPIKey :: string where "EnvVLLMAPIKey = ''VLLM_API_KEY''"
definition EnvJWTSecret :: string where "EnvJWTSecret = ''JWT_SECRET''"
definition EnvCORSAllowedOrigins :: string where "EnvCORSAllowedOrigins = ''CORS_ALLOWED_ORIGINS''"
definition EnvShutdownGrace :: string where "EnvShutdownGrace = ''SHUTDOWN_GRACE''"
definition EnvLoginRateRPM :: string where "EnvLoginRateRPM = ''LOGIN_RATE_LIMIT_RPM''"
definition EnvLoginRateBurst :: string where "EnvLoginRateBurst = ''LOGIN_RATE_LIMIT_BURST''"
definition EnvGatewayRateRPM :: string where "EnvGatewayRateRPM = ''GATEWAY_RATE_LIMIT_RPM''"
definition EnvGatewayRateBurst :: string where "EnvGatewayRateBurst = ''GATEWAY_RATE_LIMIT_BURST''"

definition EnvKeys :: "string list" where
  "EnvKeys = [EnvAppEnv, EnvListenAddr, EnvPort, EnvLogLevel, EnvDatabaseURL, EnvAutoMigrate, EnvVLLMURL, EnvVLLMAPIKey,
     EnvJWTSecret, EnvCORSAllowedOrigins, EnvShutdownGrace, EnvLoginRateRPM, EnvLoginRateBurst, EnvGatewayRateRPM,
     EnvGatewayRateBurst]"

lemmas env_names = EnvAppEnv_def EnvListenAddr_def EnvPort_def EnvLogLevel_def EnvDatabaseURL_def EnvAutoMigrate_def
  EnvVLLMURL_def EnvVLLMAPIKey_def EnvJWTSecret_def EnvCORSAllowedOrigins_def EnvShutdownGrace_def EnvLoginRateRPM_def
  EnvLoginRateBurst_def EnvGatewayRateRPM_def EnvGatewayRateBurst_def

definition defaultListenAddr :: string where "defaultListenAddr = '':8080''"
definition defaultLogLevel :: string where "defaultLogLevel = ''info''"
definition defaultEnv :: string where "defaultEnv = ''development''"
definition defaultShutdownGrace :: int where "defaultShutdownGrace = 10 * 1000000000"
definition defaultLoginRPM :: int where "defaultLoginRPM = 10"
definition defaultLoginBurst :: int where "defaultLoginBurst = 5"
definition defaultGatewayRPM :: int where "defaultGatewayRPM = 120"
definition defaultGatewayBurst :: int where "defaultGatewayBurst = 40"

record RateLimit =
  RequestsPerMinute :: int
  Burst :: int

record Config =
  cfg_Env :: string
  cfg_ListenAddr :: string
  cfg_LogLevel :: string
  cfg_DatabaseURL :: string
  cfg_AutoMigrate :: bool
  cfg_VLLMURL :: string
  cfg_VLLMAPIKey :: string
  cfg_JWTSecret :: string
  cfg_CORSAllowedOrigins :: "string list"
  cfg_ShutdownGrace :: int
  cfg_LoginRateLimit :: RateLimit
  cfg_GatewayRateLimit :: RateLimit

text \<open>One constructor per message, with the values it is formatted with; each names its variable.\<close>

datatype config_error =
    cfg_bad_port string
  | cfg_missing string
  | cfg_db_unparseable
  | cfg_db_scheme string
  | cfg_db_host
  | cfg_url_unparseable string
  | cfg_url_scheme string string
  | cfg_url_host string string
  | cfg_bad_bool string string
  | cfg_bad_int string string
  | cfg_bad_duration string string

fun error_variable :: "config_error \<Rightarrow> string" where
  "error_variable (cfg_bad_port _) = EnvPort"
| "error_variable (cfg_missing k) = k"
| "error_variable cfg_db_unparseable = EnvDatabaseURL"
| "error_variable (cfg_db_scheme _) = EnvDatabaseURL"
| "error_variable cfg_db_host = EnvDatabaseURL"
| "error_variable (cfg_url_unparseable k) = k"
| "error_variable (cfg_url_scheme k _) = k"
| "error_variable (cfg_url_host k _) = k"
| "error_variable (cfg_bad_bool k _) = k"
| "error_variable (cfg_bad_int k _) = k"
| "error_variable (cfg_bad_duration k _) = k"

type_synonym environ = "string \<Rightarrow> string"

definition getenvDefault :: "environ \<Rightarrow> string \<Rightarrow> string \<Rightarrow> string" where
  "getenvDefault getenv key dflt = (let v = TrimSpace (getenv key) in if v \<noteq> [] then v else dflt)"

definition requireNonEmpty :: "environ \<Rightarrow> string \<Rightarrow> config_error list \<Rightarrow> string \<times> config_error list" where
  "requireNonEmpty getenv key errs =
     (let v = TrimSpace (getenv key) in (v, if v = [] then errs @ [cfg_missing key] else errs))"

definition resolveListenAddr :: "environ \<Rightarrow> config_error list \<Rightarrow> string \<times> config_error list" where
  "resolveListenAddr getenv errs =
     (let addr = TrimSpace (getenv EnvListenAddr)
      in if addr \<noteq> [] then (addr, errs)
         else let portStr = TrimSpace (getenv EnvPort)
              in if portStr = [] then (defaultListenAddr, errs)
                 else case Atoi portStr of
                   None \<Rightarrow> (defaultListenAddr, errs @ [cfg_bad_port portStr])
                 | Some port \<Rightarrow>
                     if port < 1 \<or> port > 65535 then (defaultListenAddr, errs @ [cfg_bad_port portStr])
                     else (CHR '':'' # Itoa port, errs))"

definition validateDatabaseURL :: "string \<Rightarrow> config_error list \<Rightarrow> config_error list" where
  "validateDatabaseURL raw errs =
     (if \<not> Contains raw ''://'' then errs
      else case url_Parse raw of
        None \<Rightarrow> errs @ [cfg_db_unparseable]
      | Some u \<Rightarrow>
          if url_Scheme u \<noteq> ''postgres'' \<and> url_Scheme u \<noteq> ''postgresql'' then errs @ [cfg_db_scheme (url_Scheme u)]
          else if url_Host u = [] then errs @ [cfg_db_host]
          else errs)"

definition validateHTTPURL :: "string \<Rightarrow> string \<Rightarrow> config_error list \<Rightarrow> config_error list" where
  "validateHTTPURL key raw errs =
     (case url_Parse raw of
        None \<Rightarrow> errs @ [cfg_url_unparseable key]
      | Some u \<Rightarrow>
          if url_Scheme u \<noteq> ''http'' \<and> url_Scheme u \<noteq> ''https'' then errs @ [cfg_url_scheme key (url_Scheme u)]
          else if url_Host u = [] then errs @ [cfg_url_host key raw]
          else errs)"

definition parseBoolDefault :: "environ \<Rightarrow> string \<Rightarrow> bool \<Rightarrow> config_error list \<Rightarrow> bool \<times> config_error list" where
  "parseBoolDefault getenv key dflt errs =
     (let v = TrimSpace (getenv key)
      in if v = [] then (dflt, errs)
         else case ParseBool v of None \<Rightarrow> (dflt, errs @ [cfg_bad_bool key v]) | Some b \<Rightarrow> (b, errs))"

definition parseIntDefault :: "environ \<Rightarrow> string \<Rightarrow> int \<Rightarrow> config_error list \<Rightarrow> int \<times> config_error list" where
  "parseIntDefault getenv key dflt errs =
     (let v = TrimSpace (getenv key)
      in if v = [] then (dflt, errs)
         else case Atoi v of
           None \<Rightarrow> (dflt, errs @ [cfg_bad_int key v])
         | Some n \<Rightarrow> if n < 0 then (dflt, errs @ [cfg_bad_int key v]) else (n, errs))"

definition parseDurationDefault :: "(nat \<Rightarrow> nat \<Rightarrow> nat \<Rightarrow> nat) \<Rightarrow> environ \<Rightarrow> string \<Rightarrow> int \<Rightarrow> config_error list
    \<Rightarrow> int \<times> config_error list" where
  "parseDurationDefault frac getenv key dflt errs =
     (let v = TrimSpace (getenv key)
      in if v = [] then (dflt, errs)
         else case ParseDuration frac v of
           None \<Rightarrow> (dflt, errs @ [cfg_bad_duration key v])
         | Some d \<Rightarrow> if d < 0 then (dflt, errs @ [cfg_bad_duration key v]) else (d, errs))"

definition splitCSV :: "string \<Rightarrow> string list" where
  "splitCSV s = filter (\<lambda>t. t \<noteq> []) (map TrimSpace (SplitChar CHR '','' s))"

definition Load :: "(nat \<Rightarrow> nat \<Rightarrow> nat \<Rightarrow> nat) \<Rightarrow> environ \<Rightarrow> (config_error list, Config) result" where
  "Load frac getenv =
     (let env = getenvDefault getenv EnvAppEnv defaultEnv;
          level = getenvDefault getenv EnvLogLevel defaultLogLevel;
          (addr, e1) = resolveListenAddr getenv [];
          (db, e2) = requireNonEmpty getenv EnvDatabaseURL e1;
          (key, e3) = requireNonEmpty getenv EnvVLLMAPIKey e2;
          (secret, e4) = requireNonEmpty getenv EnvJWTSecret e3;
          (url, e5) = requireNonEmpty getenv EnvVLLMURL e4;
          e6 = (if url \<noteq> [] then validateHTTPURL EnvVLLMURL url e5 else e5);
          e7 = (if db \<noteq> [] then validateDatabaseURL db e6 else e6);
          (migrate, e8) = parseBoolDefault getenv EnvAutoMigrate False e7;
          cors = splitCSV (getenv EnvCORSAllowedOrigins);
          (grace, e9) = parseDurationDefault frac getenv EnvShutdownGrace defaultShutdownGrace e8;
          (lr, e10) = parseIntDefault getenv EnvLoginRateRPM defaultLoginRPM e9;
          (lb, e11) = parseIntDefault getenv EnvLoginRateBurst defaultLoginBurst e10;
          (gr, e12) = parseIntDefault getenv EnvGatewayRateRPM defaultGatewayRPM e11;
          (gb, errs) = parseIntDefault getenv EnvGatewayRateBurst defaultGatewayBurst e12
      in if errs \<noteq> [] then Inl errs
         else Inr \<lparr>cfg_Env = env, cfg_ListenAddr = addr, cfg_LogLevel = level, cfg_DatabaseURL = db,
                   cfg_AutoMigrate = migrate, cfg_VLLMURL = url, cfg_VLLMAPIKey = key, cfg_JWTSecret = secret,
                   cfg_CORSAllowedOrigins = cors, cfg_ShutdownGrace = grace,
                   cfg_LoginRateLimit = \<lparr>RequestsPerMinute = lr, Burst = lb\<rparr>,
                   cfg_GatewayRateLimit = \<lparr>RequestsPerMinute = gr, Burst = gb\<rparr>\<rparr>)"

section \<open>redact.go\<close>

definition redactedMask :: string where "redactedMask = ''[REDACTED]''"

definition maskSecret :: "string \<Rightarrow> string" where
  "maskSecret s = (if s = [] then ''[empty]'' else redactedMask)"

definition re_space :: "char \<Rightarrow> bool" where
  "re_space c \<longleftrightarrow> byte_of c \<in> {9, 10, 12, 13, 32}"

text \<open>\<open>reUserinfoPw\<close> at the front of a text: the group and what follows the match.\<close>

definition name_char :: "char \<Rightarrow> bool" where
  "name_char c \<longleftrightarrow> c \<noteq> CHR ''/'' \<and> \<not> re_space c \<and> c \<noteq> CHR '':'' \<and> c \<noteq> CHR ''@''"

definition pw_char :: "char \<Rightarrow> bool" where
  "pw_char c \<longleftrightarrow> c \<noteq> CHR ''/'' \<and> \<not> re_space c \<and> c \<noteq> CHR ''@''"

definition match_userinfo :: "string \<Rightarrow> (string \<times> string) option" where
  "match_userinfo s =
     (case (takeWhile name_char s, dropWhile name_char s) of
        (u, c # t) \<Rightarrow>
          if u \<noteq> [] \<and> c = CHR '':'' then
            (case (takeWhile pw_char t, dropWhile pw_char t) of
               (p, d # rest) \<Rightarrow> if p \<noteq> [] \<and> d = CHR ''@'' then Some (u, rest) else None
             | _ \<Rightarrow> None)
          else None
      | _ \<Rightarrow> None)"

lemma match_userinfo_length: "match_userinfo s = Some (u, rest) \<Longrightarrow> length rest < length s"
proof -
  assume m: "match_userinfo s = Some (u, rest)"
  then obtain c t d where "dropWhile name_char s = c # t" "dropWhile pw_char t = d # rest"
    by (auto simp: match_userinfo_def split: list.splits if_splits)
  then have "length (c # t) \<le> length s" "length (d # rest) \<le> length t"
    using length_dropWhile_le [of name_char s] length_dropWhile_le [of pw_char t] by auto
  then show ?thesis by simp
qed

text \<open>\<open>ReplaceAllString(s, "${1}:xxxxx@")\<close>: leftmost matches, none overlapping.\<close>

function mask_userinfo :: "string \<Rightarrow> string" where
  "mask_userinfo [] = []"
| "mask_userinfo (c # s) =
     (case match_userinfo (c # s) of
        Some (u, rest) \<Rightarrow> u @ '':xxxxx@'' @ mask_userinfo rest
      | None \<Rightarrow> c # mask_userinfo s)"
  by pat_completeness auto
termination
  by (relation "measure length") (auto dest: match_userinfo_length)

text \<open>\<open>reKeywordPw\<close>: the keyword in any case (\<open>(?i)\<close> also folds U+017F to s), then the value.\<close>

fun match_fold :: "string \<Rightarrow> string \<Rightarrow> (string \<times> string) option" where
  "match_fold [] s = Some ([], s)"
| "match_fold (k # ks) s =
     (if k = CHR ''s'' \<and> take 2 s = map char_of_byte [197, 191]
      then map_option (\<lambda>(m, t). (take 2 s @ m, t)) (match_fold ks (drop 2 s))
      else case s of
        [] \<Rightarrow> None
      | c # t \<Rightarrow> if lower_byte c = k then map_option (\<lambda>(m, t). (c # m, t)) (match_fold ks t) else None)"

fun match_quoted :: "string \<Rightarrow> string option" where
  "match_quoted [] = None"
| "match_quoted (c # s) =
     (if c = CHR 0x27 then Some s
      else if c = CHR 0x5C then (case s of [] \<Rightarrow> None | d # t \<Rightarrow> if byte_of d = 10 then None else match_quoted t)
      else match_quoted s)"

definition match_value :: "string \<Rightarrow> string option" where
  "match_value s =
     (case (case s of c # t \<Rightarrow> if c = CHR 0x27 then match_quoted t else None | [] \<Rightarrow> None) of
        Some r \<Rightarrow> Some r
      | None \<Rightarrow> if takeWhile (\<lambda>c. \<not> re_space c) s = [] then None else Some (dropWhile (\<lambda>c. \<not> re_space c) s))"

definition match_keyword :: "string \<Rightarrow> (string \<times> string) option" where
  "match_keyword s =
     (case match_fold ''password'' s of
        None \<Rightarrow> None
      | Some (m, t) \<Rightarrow>
          (case (takeWhile re_space t, dropWhile re_space t) of
             (w1, c # t1) \<Rightarrow>
               if c = CHR ''='' then
                 (case match_value (dropWhile re_space t1) of
                    None \<Rightarrow> None
                  | Some r \<Rightarrow> Some (m @ w1 @ ''='' @ takeWhile re_space t1, r))
               else None
           | _ \<Rightarrow> None))"

lemma match_fold_length: "match_fold ks s = Some (m, t) \<Longrightarrow> length t \<le> length s"
  by (induction ks s arbitrary: m t rule: match_fold.induct) (fastforce split: list.splits if_splits)+

lemma match_quoted_length: "match_quoted s = Some t \<Longrightarrow> length t \<le> length s"
  by (induction s rule: match_quoted.induct) (auto split: list.splits if_splits)

lemma match_value_length: "match_value s = Some t \<Longrightarrow> length t \<le> length s"
  by (auto simp: match_value_def intro: length_dropWhile_le le_SucI dest!: match_quoted_length
      split: option.splits list.splits if_splits)

lemma match_keyword_length: "match_keyword s = Some (g, t) \<Longrightarrow> length t < length s"
proof -
  assume "match_keyword s = Some (g, t)"
  then obtain m t0 c t1 where "match_fold ''password'' s = Some (m, t0)" "dropWhile re_space t0 = c # t1"
    "match_value (dropWhile re_space t1) = Some t"
    by (auto simp: match_keyword_def simp del: match_fold.simps split: option.splits list.splits if_splits)
  then have "length t0 \<le> length s" "length (c # t1) \<le> length t0" "length t \<le> length t1"
    using length_dropWhile_le [of re_space t0] length_dropWhile_le [of re_space t1]
    by (auto dest: match_fold_length match_value_length simp del: match_fold.simps)
  then show ?thesis by simp
qed

function mask_keyword :: "string \<Rightarrow> string" where
  "mask_keyword [] = []"
| "mask_keyword (c # s) =
     (case match_keyword (c # s) of
        Some (g, rest) \<Rightarrow> g @ ''xxxxx'' @ mask_keyword rest
      | None \<Rightarrow> c # mask_keyword s)"
  by pat_completeness auto
termination
  by (relation "measure length") (auto dest: match_keyword_length)

text \<open>The structured part: a password in the userinfo and in the query of a URL with a scheme.\<close>

definition password_key :: "string \<Rightarrow> bool" where
  "password_key k \<longleftrightarrow> ascii_lower k = ''password'' \<or> ascii_lower k = ''sslpassword''"

definition redact_URL :: "URL \<Rightarrow> URL" where
  "redact_URL u =
     (let u1 = (case url_User u of
                  None \<Rightarrow> u
                | Some i \<Rightarrow>
                    (case ui_password i of
                       None \<Rightarrow> u
                     | Some _ \<Rightarrow> u\<lparr>url_User := Some (UserPassword (ui_username i) ''xxxxx'')\<rparr>));
          q = url_Query (url_RawQuery u1)
      in if list_ex (\<lambda>(k, _). password_key k) q
         then u1\<lparr>url_RawQuery := Values_Encode (map (\<lambda>(k, vs). (k, if password_key k then [''xxxxx''] else vs)) q)\<rparr>
         else u1)"

definition redactDSN :: "string \<Rightarrow> string" where
  "redactDSN dsn =
     (if TrimSpace dsn = [] then ''[empty]''
      else let (out, handled) =
             (case url_Parse dsn of
                Some u \<Rightarrow> if url_Scheme u \<noteq> [] then (URL_String (redact_URL u), True) else (dsn, False)
              | None \<Rightarrow> (dsn, False));
             out2 = mask_userinfo out
           in if handled then out2 else mask_keyword out2)"

text \<open>\<open>%t\<close>, \<open>%v\<close> of a string slice and \<open>%+v\<close> of a \<open>RateLimit\<close>.\<close>

definition format_bool :: "bool \<Rightarrow> string" where
  "format_bool b = (if b then ''true'' else ''false'')"

fun join_space :: "string list \<Rightarrow> string" where
  "join_space [] = []"
| "join_space [s] = s"
| "join_space (s # ss) = s @ '' '' @ join_space ss"

definition format_rate :: "RateLimit \<Rightarrow> string" where
  "format_rate r = ''{RequestsPerMinute:'' @ Itoa (RequestsPerMinute r) @ '' Burst:'' @ Itoa (Burst r) @ ''}''"

definition Config_String :: "Config \<Rightarrow> string" where
  "Config_String c =
     ''Config{Env:'' @ cfg_Env c @ '' ListenAddr:'' @ cfg_ListenAddr c @ '' LogLevel:'' @ cfg_LogLevel c
     @ '' DatabaseURL:'' @ redactDSN (cfg_DatabaseURL c) @ '' AutoMigrate:'' @ format_bool (cfg_AutoMigrate c)
     @ '' VLLMURL:'' @ cfg_VLLMURL c @ '' VLLMAPIKey:'' @ maskSecret (cfg_VLLMAPIKey c)
     @ '' JWTSecret:'' @ maskSecret (cfg_JWTSecret c) @ '' CORSAllowedOrigins:['' @ join_space (cfg_CORSAllowedOrigins c)
     @ ''] ShutdownGrace:'' @ Duration_String (cfg_ShutdownGrace c) @ '' LoginRateLimit:'' @ format_rate (cfg_LoginRateLimit c)
     @ '' GatewayRateLimit:'' @ format_rate (cfg_GatewayRateLimit c) @ ''}''"

end
