(* ===== verification/Config_Properties.thy ===== *)
theory Config_Properties
  imports Config
begin

text \<open>
  The properties of the configuration: what a loaded configuration guarantees, that every missing
  variable is reported, and what its log rendering cannot reveal.
\<close>

section \<open>The helpers as additions to the error list\<close>

definition missing :: "environ \<Rightarrow> string \<Rightarrow> config_error list" where
  "missing getenv key = (if TrimSpace (getenv key) = [] then [cfg_missing key] else [])"

definition addr_value :: "environ \<Rightarrow> string" where "addr_value getenv = fst (resolveListenAddr getenv [])"
definition addr_error :: "environ \<Rightarrow> config_error list" where "addr_error getenv = snd (resolveListenAddr getenv [])"

definition int_value :: "environ \<Rightarrow> string \<Rightarrow> int \<Rightarrow> int" where
  "int_value getenv key dflt = fst (parseIntDefault getenv key dflt [])"

definition int_error :: "environ \<Rightarrow> string \<Rightarrow> config_error list" where
  "int_error getenv key = snd (parseIntDefault getenv key 0 [])"

definition bool_value :: "environ \<Rightarrow> string \<Rightarrow> bool \<Rightarrow> bool" where
  "bool_value getenv key dflt = fst (parseBoolDefault getenv key dflt [])"

definition bool_error :: "environ \<Rightarrow> string \<Rightarrow> config_error list" where
  "bool_error getenv key = snd (parseBoolDefault getenv key False [])"

definition duration_value :: "(nat \<Rightarrow> nat \<Rightarrow> nat \<Rightarrow> nat) \<Rightarrow> environ \<Rightarrow> string \<Rightarrow> int \<Rightarrow> int" where
  "duration_value frac getenv key dflt = fst (parseDurationDefault frac getenv key dflt [])"

definition duration_error :: "(nat \<Rightarrow> nat \<Rightarrow> nat \<Rightarrow> nat) \<Rightarrow> environ \<Rightarrow> string \<Rightarrow> config_error list" where
  "duration_error frac getenv key = snd (parseDurationDefault frac getenv key 0 [])"

definition http_error :: "string \<Rightarrow> string \<Rightarrow> config_error list" where
  "http_error key raw = (if raw \<noteq> [] then validateHTTPURL key raw [] else [])"

definition database_error :: "string \<Rightarrow> config_error list" where
  "database_error raw = (if raw \<noteq> [] then validateDatabaseURL raw [] else [])"

lemma load_helpers:
  "requireNonEmpty getenv key errs = (TrimSpace (getenv key), errs @ missing getenv key)"
  "resolveListenAddr getenv [] = (addr_value getenv, addr_error getenv)"
  "parseIntDefault getenv key i errs = (int_value getenv key i, errs @ int_error getenv key)"
  "parseBoolDefault getenv key b errs = (bool_value getenv key b, errs @ bool_error getenv key)"
  "parseDurationDefault frac getenv key i errs = (duration_value frac getenv key i, errs @ duration_error frac getenv key)"
  "(if raw \<noteq> [] then validateHTTPURL key raw errs else errs) = errs @ http_error key raw"
  "(if raw \<noteq> [] then validateDatabaseURL raw errs else errs) = errs @ database_error raw"
  by (auto simp: requireNonEmpty_def missing_def addr_value_def addr_error_def parseIntDefault_def int_value_def int_error_def
      parseBoolDefault_def bool_value_def bool_error_def parseDurationDefault_def duration_value_def duration_error_def
      validateHTTPURL_def http_error_def validateDatabaseURL_def database_error_def Let_def split: option.split)

lemma addr_value_nonempty: "addr_value getenv \<noteq> []"
  by (auto simp: addr_value_def resolveListenAddr_def defaultListenAddr_def Let_def split: option.split)

lemma value_ranges: "0 \<le> dflt \<Longrightarrow> 0 \<le> int_value getenv key dflt" "0 \<le> dflt \<Longrightarrow> 0 \<le> duration_value frac getenv key dflt"
  by (auto simp: int_value_def duration_value_def parseIntDefault_def parseDurationDefault_def Let_def split: option.split)

lemma error_kinds:
  "set (addr_error getenv) \<subseteq> range cfg_bad_port"
  "set (missing getenv key) \<subseteq> {cfg_missing key}"
  "set (int_error getenv key) \<subseteq> range (cfg_bad_int key)"
  "set (bool_error getenv key) \<subseteq> range (cfg_bad_bool key)"
  "set (duration_error frac getenv key) \<subseteq> range (cfg_bad_duration key)"
  "set (http_error key raw) \<subseteq> {cfg_url_unparseable key} \<union> range (cfg_url_scheme key) \<union> range (cfg_url_host key)"
  "set (database_error raw) \<subseteq> {cfg_db_unparseable, cfg_db_host} \<union> range cfg_db_scheme"
        apply (simp add: addr_error_def resolveListenAddr_def Let_def split: option.split)
       apply (auto simp: missing_def)[1]
      apply (simp add: int_error_def parseIntDefault_def Let_def split: option.split)
     apply (simp add: bool_error_def parseBoolDefault_def Let_def split: option.split)
    apply (simp add: duration_error_def parseDurationDefault_def Let_def split: option.split)
   apply (cases "url_Parse raw"; auto simp: http_error_def validateHTTPURL_def)[1]
  apply (cases "url_Parse raw"; auto simp: database_error_def validateDatabaseURL_def)[1]
  done

text \<open>All errors of a load, in the order in which they are found.\<close>

definition load_errors :: "(nat \<Rightarrow> nat \<Rightarrow> nat \<Rightarrow> nat) \<Rightarrow> environ \<Rightarrow> config_error list" where
  "load_errors frac getenv =
     addr_error getenv @ missing getenv EnvDatabaseURL @ missing getenv EnvVLLMAPIKey @ missing getenv EnvJWTSecret
     @ missing getenv EnvVLLMURL @ http_error EnvVLLMURL (TrimSpace (getenv EnvVLLMURL))
     @ database_error (TrimSpace (getenv EnvDatabaseURL)) @ bool_error getenv EnvAutoMigrate
     @ duration_error frac getenv EnvShutdownGrace
     @ int_error getenv EnvLoginRateRPM @ int_error getenv EnvLoginRateBurst
     @ int_error getenv EnvGatewayRateRPM @ int_error getenv EnvGatewayRateBurst"

lemma Load_cases:
  "Load frac getenv =
     (if load_errors frac getenv \<noteq> [] then Inl (load_errors frac getenv)
      else Inr \<lparr>cfg_Env = getenvDefault getenv EnvAppEnv defaultEnv, cfg_ListenAddr = addr_value getenv,
        cfg_LogLevel = getenvDefault getenv EnvLogLevel defaultLogLevel, cfg_DatabaseURL = TrimSpace (getenv EnvDatabaseURL),
        cfg_AutoMigrate = bool_value getenv EnvAutoMigrate False,
        cfg_VLLMURL = TrimSpace (getenv EnvVLLMURL), cfg_VLLMAPIKey = TrimSpace (getenv EnvVLLMAPIKey),
        cfg_JWTSecret = TrimSpace (getenv EnvJWTSecret),
        cfg_CORSAllowedOrigins = splitCSV (getenv EnvCORSAllowedOrigins),
        cfg_ShutdownGrace = duration_value frac getenv EnvShutdownGrace defaultShutdownGrace,
        cfg_LoginRateLimit = \<lparr>RequestsPerMinute = int_value getenv EnvLoginRateRPM defaultLoginRPM,
          Burst = int_value getenv EnvLoginRateBurst defaultLoginBurst\<rparr>,
        cfg_GatewayRateLimit = \<lparr>RequestsPerMinute = int_value getenv EnvGatewayRateRPM defaultGatewayRPM,
          Burst = int_value getenv EnvGatewayRateBurst defaultGatewayBurst\<rparr>\<rparr>)"
  by (simp only: Load_def load_errors_def Let_def load_helpers case_prod_conv append_assoc append_Nil split: prod.split)

section \<open>Properties\<close>

text \<open>C39: a configuration that loads is complete and well formed: the secrets, the DSN and the model's
  URL are present and trimmed, the URL is http(s) with a host, a DSN in URL form is Postgres'
  with a host, the listen address is not empty, and no rate, burst or grace period is negative.\<close>

theorem loaded_config:
  assumes "Load frac getenv = Inr c"
  shows "cfg_DatabaseURL c \<noteq> [] \<and> cfg_VLLMAPIKey c \<noteq> [] \<and> cfg_JWTSecret c \<noteq> [] \<and> cfg_ListenAddr c \<noteq> [] \<and>
    (\<exists>u. url_Parse (cfg_VLLMURL c) = Some u \<and> url_Scheme u \<in> {''http'', ''https''} \<and> url_Host u \<noteq> []) \<and>
    (Contains (cfg_DatabaseURL c) ''://'' \<longrightarrow>
      (\<exists>u. url_Parse (cfg_DatabaseURL c) = Some u \<and> url_Scheme u \<in> {''postgres'', ''postgresql''} \<and> url_Host u \<noteq> [])) \<and>
    0 \<le> RequestsPerMinute (cfg_LoginRateLimit c) \<and> 0 \<le> Burst (cfg_LoginRateLimit c) \<and>
    0 \<le> RequestsPerMinute (cfg_GatewayRateLimit c) \<and> 0 \<le> Burst (cfg_GatewayRateLimit c) \<and> 0 \<le> cfg_ShutdownGrace c"
proof -
  have ok: "load_errors frac getenv = []" using assms by (simp add: Load_cases split: if_splits)
  then have c: "cfg_DatabaseURL c = TrimSpace (getenv EnvDatabaseURL)" "cfg_VLLMURL c = TrimSpace (getenv EnvVLLMURL)"
    "cfg_VLLMAPIKey c = TrimSpace (getenv EnvVLLMAPIKey)" "cfg_JWTSecret c = TrimSpace (getenv EnvJWTSecret)"
    "cfg_ListenAddr c \<noteq> []"
    "0 \<le> RequestsPerMinute (cfg_LoginRateLimit c)" "0 \<le> Burst (cfg_LoginRateLimit c)"
    "0 \<le> RequestsPerMinute (cfg_GatewayRateLimit c)" "0 \<le> Burst (cfg_GatewayRateLimit c)" "0 \<le> cfg_ShutdownGrace c"
    using assms
    by (auto simp: Load_cases addr_value_nonempty defaultLoginRPM_def defaultLoginBurst_def defaultGatewayRPM_def
        defaultGatewayBurst_def defaultShutdownGrace_def intro!: value_ranges)
  have n: "TrimSpace (getenv k) \<noteq> []" if "k \<in> {EnvDatabaseURL, EnvVLLMAPIKey, EnvJWTSecret, EnvVLLMURL}" for k
    using ok that by (auto simp: load_errors_def missing_def split: if_splits)
  have "validateHTTPURL EnvVLLMURL (cfg_VLLMURL c) [] = []" using ok n by (auto simp: load_errors_def c http_error_def)
  then have u: "\<exists>u. url_Parse (cfg_VLLMURL c) = Some u \<and> url_Scheme u \<in> {''http'', ''https''} \<and> url_Host u \<noteq> []"
    by (simp add: validateHTTPURL_def split: option.splits if_splits)
  have "validateDatabaseURL (cfg_DatabaseURL c) [] = []" using ok n by (auto simp: load_errors_def c database_error_def)
  then have d: "Contains (cfg_DatabaseURL c) ''://'' \<longrightarrow>
      (\<exists>u. url_Parse (cfg_DatabaseURL c) = Some u \<and> url_Scheme u \<in> {''postgres'', ''postgresql''} \<and> url_Host u \<noteq> [])"
    by (simp add: validateDatabaseURL_def split: option.splits if_splits)
  have "cfg_DatabaseURL c \<noteq> []" "cfg_VLLMAPIKey c \<noteq> []" "cfg_JWTSecret c \<noteq> []" using n by (simp_all add: c)
  with u d c(5-10) show ?thesis by blast
qed

text \<open>A load reports every required variable that is missing, all at once, and never one that is
  there; and each of its errors names a variable the program reads.\<close>

theorem load_reports_missing:
  assumes "k \<in> {EnvDatabaseURL, EnvVLLMAPIKey, EnvJWTSecret, EnvVLLMURL}"
  shows "((\<exists>errs. Load frac getenv = Inl errs \<and> cfg_missing k \<in> set errs) \<longleftrightarrow> TrimSpace (getenv k) = []) \<and>
    (\<forall>errs. Load frac getenv = Inl errs \<longrightarrow> errs \<noteq> [] \<and> error_variable ` set errs \<subseteq> set EnvKeys)"
proof -
  have "cfg_missing k \<in> set (load_errors frac getenv) \<longleftrightarrow>
      k \<in> {EnvDatabaseURL, EnvVLLMAPIKey, EnvJWTSecret, EnvVLLMURL} \<and> TrimSpace (getenv k) = []"
    using error_kinds by (fastforce simp: load_errors_def missing_def)
  moreover have "error_variable e \<in> set EnvKeys" if "e \<in> set (load_errors frac getenv)" for e
    using that error_kinds by (fastforce simp: load_errors_def EnvKeys_def)
  ultimately show ?thesis using assms by (auto simp: Load_cases)
qed

section \<open>What the log rendering hides\<close>

text \<open>A user name or password that needs no further escaping in a URL.\<close>

definition userinfo_text :: "string \<Rightarrow> bool" where
  "userinfo_text p \<longleftrightarrow> p \<noteq> [] \<and> validUserinfo p \<and> CHR ''@'' \<notin> set p \<and> url_unescape encodeUserPassword p \<noteq> None"

definition dsn_of :: "string \<Rightarrow> string \<Rightarrow> string \<Rightarrow> string \<Rightarrow> string" where
  "dsn_of sc user p rest = sc @ ''://'' @ user @ '':'' @ p @ ''@'' @ rest"

definition pg_schemes :: "string list" where
  "pg_schemes = [''postgres'', ''postgresql'']"

text \<open>The host and port after the userinfo: up to the path, the query or the fragment.\<close>

definition host_part :: "string \<Rightarrow> string" where
  "host_part rest = takeWhile (\<lambda>c. c \<noteq> CHR ''/'' \<and> c \<noteq> CHR ''?'' \<and> c \<noteq> CHR ''#'') rest"

lemma takeWhile_twice: "takeWhile P (takeWhile Q xs) = takeWhile (\<lambda>x. P x \<and> Q x) xs"
  by (induction xs) auto

lemma userinfo_chars:
  assumes "validUserinfo p" "c \<in> set p"
  shows "c \<noteq> CHR ''#''" "c \<noteq> CHR ''/''" "c \<noteq> CHR ''?''" "32 < byte_of c" "byte_of c < 127"
  using assms unfolding validUserinfo_def list_all_iff
  by (auto dest!: bspec [of _ _ c] simp: is_alnum_def is_lower_def is_upper_def is_decimal_def byte_of_def)

lemma validUserinfo_append: "validUserinfo (a @ b) \<longleftrightarrow> validUserinfo a \<and> validUserinfo b"
  by (simp add: validUserinfo_def)

text \<open>What \<open>url_Parse\<close> makes of the rest of a DSN.\<close>

definition hier_base :: "string \<Rightarrow> URL \<Rightarrow> URL option" where
  "hier_base h u =
     (case parseHost (takeWhile (\<lambda>c. c \<noteq> CHR ''/'') h) of
        None \<Rightarrow> None
      | Some host \<Rightarrow> setPath (dropWhile (\<lambda>c. c \<noteq> CHR ''/'') h) (u\<lparr>url_Host := host\<rparr>))"

definition nofrag_base :: "string \<Rightarrow> string \<Rightarrow> URL option" where
  "nofrag_base sc r =
     (if list_ex (\<lambda>c. byte_of c < 32 \<or> byte_of c = 127) r then None
      else if HasSuffix r ''?'' \<and> length (filter (\<lambda>c. c = CHR ''?'') r) = 1
      then hier_base (butlast r) (URL0\<lparr>url_Scheme := sc, url_ForceQuery := True\<rparr>)
      else hier_base (fst (CutChar CHR ''?'' r)) (URL0\<lparr>url_Scheme := sc, url_RawQuery := opt_text (snd (CutChar CHR ''?'' r))\<rparr>))"

definition dsn_base :: "string \<Rightarrow> string \<Rightarrow> URL option" where
  "dsn_base sc rest =
     (case nofrag_base sc (fst (CutChar CHR ''#'' rest)) of
        None \<Rightarrow> None
      | Some u \<Rightarrow> if opt_text (snd (CutChar CHR ''#'' rest)) = [] then Some u else setFragment (opt_text (snd (CutChar CHR ''#'' rest))) u)"

text \<open>A user name and a password with what they unescape to.\<close>

definition creds :: "string \<Rightarrow> string \<Rightarrow> string \<Rightarrow> string \<Rightarrow> bool" where
  "creds user p n q \<longleftrightarrow> userinfo_text user \<and> CHR '':'' \<notin> set user \<and> url_unescape encodeUserPassword user = Some n \<and>
     userinfo_text p \<and> url_unescape encodeUserPassword p = Some q"

lemma creds_D:
  assumes "creds user p n q"
  shows "user \<noteq> []" "validUserinfo user" "CHR ''@'' \<notin> set user" "CHR '':'' \<notin> set user"
    "url_unescape encodeUserPassword user = Some n"
    "p \<noteq> []" "validUserinfo p" "CHR ''@'' \<notin> set p" "url_unescape encodeUserPassword p = Some q"
  using assms by (simp_all add: creds_def userinfo_text_def)

lemma parse_hier_dsn:
  assumes c: "creds user p n q" and at: "CHR ''@'' \<notin> set (takeWhile (\<lambda>c. c \<noteq> CHR ''/'') h)" and "url_Scheme u \<noteq> []"
  shows "parse_hier (''//'' @ user @ '':'' @ p @ ''@'' @ h) u =
    map_option (\<lambda>u. u\<lparr>url_User := Some (UserPassword n q)\<rparr>) (hier_base h u)"
proof -
  note d = creds_D [OF c]
  let ?P = "\<lambda>c. c \<noteq> CHR ''/''"
  let ?a = "user @ '':'' @ p @ ''@''"
  have a: "?P c" if "c \<in> set ?a" for c using that userinfo_chars(2) d(2,7) by auto
  have tw: "takeWhile ?P (?a @ h) = ?a @ takeWhile ?P h" "dropWhile ?P (?a @ h) = dropWhile ?P h"
    by (rule takeWhile_append2, erule a, rule dropWhile_append2, erule a)
  from CutLast_last [OF at, of "user @ '':'' @ p"]
  have "CutLast CHR ''@'' (?a @ takeWhile ?P h) = Some (user @ '':'' @ p, takeWhile ?P h)" by simp
  moreover have "parseUserinfo (user @ '':'' @ p) = Some (UserPassword n q)"
  proof -
    have "validUserinfo (user @ '':'' @ p)" using d by (simp add: validUserinfo_append) (simp add: validUserinfo_def)
    then show ?thesis using d by (simp add: parseUserinfo_def UserPassword_def)
  qed
  ultimately show ?thesis
    using tw assms(3)
    by (simp add: parse_hier_def HasPrefix_def parseAuthority_def hier_base_def setPath_def Let_def split: option.split)
qed

lemma scheme_facts:
  assumes "sc \<in> set pg_schemes"
  shows "getScheme (sc @ CHR '':'' # t) = Some (sc, t)" "ascii_lower sc = sc" "sc \<noteq> []"
    "list_all (\<lambda>c. 32 < byte_of c \<and> byte_of c < 127 \<and> c \<noteq> CHR ''?'' \<and> c \<noteq> CHR ''#'') sc"
    "space_rune (sc @ t) = 0" "hd sc = CHR ''p''"
  using assms
  by (auto simp: pg_schemes_def getScheme_def is_lower_def is_upper_def is_decimal_def byte_of_def ascii_lower_def lower_byte_def
      space1_def space2_def space3_def)

lemma parse_nofrag_dsn:
  assumes sc: "sc \<in> set pg_schemes" and c: "creds user p n q"
    and r: "CHR ''@'' \<notin> set (takeWhile (\<lambda>c. c \<noteq> CHR ''/'' \<and> c \<noteq> CHR ''?'') r)"
  shows "parse_nofrag (dsn_of sc user p r) = map_option (\<lambda>u. u\<lparr>url_User := Some (UserPassword n q)\<rparr>) (nofrag_base sc r)"
proof -
  note d = creds_D [OF c]
  let ?a = "''//'' @ user @ '':'' @ p @ ''@''"
  define body where "body x = ?a @ x" for x
  note k = scheme_facts [OF sc]
  have ctl: "list_ex (\<lambda>c. byte_of c < 32 \<or> byte_of c = 127) (dsn_of sc user p r) = list_ex (\<lambda>c. byte_of c < 32 \<or> byte_of c = 127) r"
  proof -
    have "32 < byte_of x \<and> byte_of x < 127" if "x \<in> set sc \<or> x \<in> set user \<or> x \<in> set p \<or> x \<in> set '':/@''" for x
      using that
    proof (elim disjE)
      assume "x \<in> set sc" then show ?thesis using k(4) by (simp add: list_all_iff)
    next
      assume "x \<in> set user" then show ?thesis using userinfo_chars(4,5) [OF d(2)] by blast
    next
      assume "x \<in> set p" then show ?thesis using userinfo_chars(4,5) [OF d(7)] by blast
    qed (auto simp: byte_of_def)
    then have "\<not> (byte_of x < 32 \<or> byte_of x = 127)" if "x \<in> set (sc @ ''://'' @ user @ '':'' @ p @ ''@'')" for x
      using that by (force simp del: not_less)
    then have "\<not> list_ex (\<lambda>c. byte_of c < 32 \<or> byte_of c = 127) (sc @ ''://'' @ user @ '':'' @ p @ ''@'')"
      unfolding list_ex_iff by blast
    then show ?thesis by (simp add: dsn_of_def)
  qed
  have s: "getScheme (dsn_of sc user p r) = Some (sc, body r)"
    using k(1) [of "body r"] by (simp add: dsn_of_def body_def)
  have q: "CHR ''?'' \<notin> set ?a" using userinfo_chars(3) d(2,7) by auto
  then have "filter (\<lambda>c. c = CHR ''?'') ?a = []" by (auto simp: filter_empty_conv)
  then have f: "filter (\<lambda>c. c = CHR ''?'') (body r) = filter (\<lambda>c. c = CHR ''?'') r"
    by (simp only: body_def filter_append append_Nil)
  have h: "HasSuffix (body r) ''?'' = HasSuffix r ''?''" by (simp add: body_def HasSuffix_last)
  have b: "butlast (body r) = body (butlast r)" if "HasSuffix r ''?''"
    using that by (simp add: body_def butlast_append HasSuffix_last)
  have cut: "CutChar CHR ''?'' (body r) = (body (fst (CutChar CHR ''?'' r)), snd (CutChar CHR ''?'' r))"
    unfolding body_def by (rule CutChar_skip [OF q])
  have sub: "CHR ''@'' \<notin> set (takeWhile (\<lambda>c. c \<noteq> CHR ''/'') (fst (CutChar CHR ''?'' r)))"
    using r by (simp add: CutChar_def takeWhile_twice)
  have bl: "butlast r = fst (CutChar CHR ''?'' r)" if "HasSuffix r ''?''" "length (filter (\<lambda>c. c = CHR ''?'') r) = 1"
  proof -
    from that(1) have e: "r = butlast r @ ''?''" using append_butlast_last_id [of r] by (simp add: HasSuffix_last)
    have "length (filter (\<lambda>c. c = CHR ''?'') (butlast r @ ''?'')) = 1" using that(2) unfolding e [symmetric] .
    then have "filter (\<lambda>c. c = CHR ''?'') (butlast r) = []" by simp
    then have "\<forall>c \<in> set (butlast r). c \<noteq> CHR ''?''" by (simp add: filter_empty_conv)
    then have "butlast r = fst (CutChar CHR ''?'' (butlast r @ ''?''))" by (simp add: CutChar_def takeWhile_append)
    then show ?thesis unfolding e [symmetric] .
  qed
  have ph: "parse_hier (body x) u = map_option (\<lambda>u. u\<lparr>url_User := Some (UserPassword n q)\<rparr>) (hier_base x u)"
    if "CHR ''@'' \<notin> set (takeWhile (\<lambda>c. c \<noteq> CHR ''/'') x)" "url_Scheme u \<noteq> []" for x u
    using parse_hier_dsn [OF c that] by (simp add: body_def)
  have ne: "dsn_of sc user p r \<noteq> ''*''" using d(1) by (simp add: dsn_of_def Cons_eq_append_conv append_eq_Cons_conv)
  show ?thesis
    using ne sub b bl k(2,3) by (simp add: parse_nofrag_def nofrag_base_def ctl s f h cut Let_def ph)
qed

lemma set_User_later:
  "setFragment f (u\<lparr>url_User := x\<rparr>) = map_option (\<lambda>u. u\<lparr>url_User := x\<rparr>) (setFragment f u)"
  by (simp add: setFragment_def split: option.split)

lemma url_Parse_dsn:
  assumes sc: "sc \<in> set pg_schemes" and c: "creds user p n q" and r: "CHR ''@'' \<notin> set (host_part rest)"
  shows "url_Parse (dsn_of sc user p rest) = map_option (\<lambda>u. u\<lparr>url_User := Some (UserPassword n q)\<rparr>) (dsn_base sc rest)"
proof -
  note d = creds_D [OF c]
  have "CHR ''#'' \<notin> set (sc @ ''://'' @ user @ '':'' @ p @ ''@'')"
    using userinfo_chars(1) d(2,7) scheme_facts(4) [OF sc] by (auto simp: list_all_iff)
  from CutChar_skip [OF this, of rest]
  have cut: "CutChar CHR ''#'' (dsn_of sc user p rest) = (dsn_of sc user p (fst (CutChar CHR ''#'' rest)), snd (CutChar CHR ''#'' rest))"
    by (simp add: dsn_of_def)
  have "CHR ''@'' \<notin> set (takeWhile (\<lambda>c. c \<noteq> CHR ''/'' \<and> c \<noteq> CHR ''?'') (fst (CutChar CHR ''#'' rest)))"
    using r by (simp add: CutChar_def takeWhile_twice host_part_def conj_assoc)
  then show ?thesis
    by (simp add: url_Parse_def cut parse_nofrag_dsn [OF sc c] dsn_base_def set_User_later split: option.split)
qed

text \<open>The fallback masks the password of a DSN that does not parse.\<close>

lemma takeWhile_stop: "(\<And>x. x \<in> set a \<Longrightarrow> P x) \<Longrightarrow> \<not> P c \<Longrightarrow>
    takeWhile P (a @ c # b) = a \<and> dropWhile P (a @ c # b) = c # b"
  by (simp add: takeWhile_append dropWhile_append)

lemma mask_scheme: "sc \<in> set pg_schemes \<Longrightarrow> mask_userinfo (sc @ ''://'' @ s) = sc @ ''://'' @ mask_userinfo s"
  by (auto simp: pg_schemes_def match_userinfo_def name_char_def pw_char_def re_space_def byte_of_def)

lemma mask_userinfo_dsn:
  assumes sc: "sc \<in> set pg_schemes" and c: "creds user p n q"
  shows "mask_userinfo (dsn_of sc user p rest) = sc @ ''://'' @ user @ '':xxxxx@'' @ mask_userinfo rest"
proof -
  note d = creds_D [OF c]
  have nc: "name_char x" if "x \<in> set user" for x
    using that userinfo_chars(2,4) [OF d(2) that] d(3,4) by (auto simp: name_char_def re_space_def)
  have pc: "pw_char x" if "x \<in> set p" for x
    using that userinfo_chars(2,4) [OF d(7) that] d(8) by (auto simp: pw_char_def re_space_def)
  have stop: "\<not> name_char CHR '':''" "\<not> pw_char CHR ''@''" by (simp_all add: name_char_def pw_char_def)
  have "match_userinfo (user @ CHR '':'' # p @ CHR ''@'' # rest) = Some (user, rest)"
    using takeWhile_stop [of user name_char, OF nc stop(1)] takeWhile_stop [of p pw_char, OF pc stop(2)] d(1,6)
    by (simp add: match_userinfo_def)
  moreover obtain x xs where x: "user = x # xs" using d(1) by (cases user) auto
  ultimately have m: "mask_userinfo (user @ CHR '':'' # p @ CHR ''@'' # rest) = user @ '':xxxxx@'' @ mask_userinfo rest"
    by simp
  show ?thesis
    using mask_scheme [OF sc] m by (simp add: dsn_of_def)
qed

lemma redactDSN_dsn:
  assumes sc: "sc \<in> set pg_schemes" and c: "creds user p n q" and r: "CHR ''@'' \<notin> set (host_part rest)"
  shows "redactDSN (dsn_of sc user p rest) =
    (case dsn_base sc rest of
       Some u \<Rightarrow> if url_Scheme u \<noteq> [] then mask_userinfo (URL_String (redact_URL (u\<lparr>url_User := Some (UserPassword n ''xxxxx'')\<rparr>)))
         else mask_keyword (sc @ ''://'' @ user @ '':xxxxx@'' @ mask_userinfo rest)
     | None \<Rightarrow> mask_keyword (sc @ ''://'' @ user @ '':xxxxx@'' @ mask_userinfo rest))"
proof -
  note k = scheme_facts [OF sc]
  have "space_rune (dsn_of sc user p rest) = 0" by (simp add: dsn_of_def k(5))
  then have "TrimLeftSpace (dsn_of sc user p rest) = dsn_of sc user p rest" by (simp add: TrimLeftSpace.simps [of "dsn_of sc user p rest"])
  moreover have "TrimRightSpace (CHR ''p'' # t) \<noteq> []" for t
    by (rule TrimRightSpace_keeps) (simp_all add: space1_def byte_of_def)
  moreover obtain t where "dsn_of sc user p rest = CHR ''p'' # t"
    using k(3,6) by (cases sc) (auto simp: dsn_of_def)
  ultimately have t: "TrimSpace (dsn_of sc user p rest) \<noteq> []" by (simp add: TrimSpace_def)
  have red: "redact_URL (u\<lparr>url_User := Some (UserPassword n q)\<rparr>) = redact_URL (u\<lparr>url_User := Some (UserPassword n ''xxxxx'')\<rparr>)" for u
    by (simp add: redact_URL_def UserPassword_def)
  show ?thesis
    using t by (simp add: redactDSN_def url_Parse_dsn [OF sc c r] mask_userinfo_dsn [OF sc c] red Let_def split: option.split)
qed

text \<open>
  Two DSNs that differ in the password only: Postgres URLs with a user and a password in the
  characters that \<open>net/url\<close> takes in the userinfo, without an at sign, which keeps out a slash, and
  with no further at sign before the path.
\<close>

definition password_apart :: "string \<Rightarrow> string \<Rightarrow> bool" where
  "password_apart d1 d2 \<longleftrightarrow> (\<exists>sc user p1 p2 rest. sc \<in> set pg_schemes \<and> userinfo_text user \<and> CHR '':'' \<notin> set user \<and>
     userinfo_text p1 \<and> userinfo_text p2 \<and> CHR ''@'' \<notin> set (host_part rest) \<and>
     d1 = dsn_of sc user p1 rest \<and> d2 = dsn_of sc user p2 rest)"

lemma redactDSN_apart: "password_apart d1 d2 \<Longrightarrow> redactDSN d1 = redactDSN d2"
proof -
  assume "password_apart d1 d2"
  then obtain sc user p1 p2 rest where a: "sc \<in> set pg_schemes" "userinfo_text user" "CHR '':'' \<notin> set user" "userinfo_text p1"
    "userinfo_text p2" "CHR ''@'' \<notin> set (host_part rest)" and d: "d1 = dsn_of sc user p1 rest" "d2 = dsn_of sc user p2 rest"
    by (auto simp: password_apart_def)
  obtain n q1 q2 where "creds user p1 n q1" "creds user p2 n q2"
    using a(2-5) by (auto simp: creds_def userinfo_text_def)
  then show ?thesis
    using redactDSN_dsn [of sc user p1 n q1 rest] redactDSN_dsn [of sc user p2 n q2 rest] a(1,6) by (simp add: d)
qed

text \<open>C38: the rendering of a configuration for the log does not depend on what the API key and the signing
  secret are, as long as they are set; nor on the password of a database URL (\<open>postgres://\<close> or
  \<open>postgresql://\<close>) whose user and password are plain userinfo text, with no at sign in them nor in the host. A
  password with a slash is not hidden, see \<open>slash_password_survives\<close>; keyword DSNs are not claimed.\<close>

theorem log_hides_secrets:
  assumes "k1 \<noteq> []" "k2 \<noteq> []" "s1 \<noteq> []" "s2 \<noteq> []" "d1 = d2 \<or> password_apart d1 d2"
  shows "Config_String (c\<lparr>cfg_DatabaseURL := d1, cfg_VLLMAPIKey := k1, cfg_JWTSecret := s1\<rparr>) =
    Config_String (c\<lparr>cfg_DatabaseURL := d2, cfg_VLLMAPIKey := k2, cfg_JWTSecret := s2\<rparr>)"
  using assms redactDSN_apart [of d1 d2] by (auto simp: Config_String_def maskSecret_def)

section \<open>Witnesses\<close>

definition sample_environ :: environ where
  "sample_environ k =
     (if k = EnvDatabaseURL then ''postgres://u:p@h/db'' else if k = EnvVLLMURL then ''http://v''
      else if k = EnvVLLMAPIKey then ''key'' else if k = EnvJWTSecret then ''jwt-secret'' else [])"

lemma sample_load: "is_ok (Load (\<lambda>_ _ _. 0) sample_environ)"
  by code_simp

theorem loaded_config_witness: "\<exists>c. Load (\<lambda>_ _ _. 0) sample_environ = Inr c \<and> cfg_JWTSecret c \<noteq> []"
proof -
  obtain c where c: "Load (\<lambda>_ _ _. 0) sample_environ = Inr c" using sample_load by (auto simp: is_ok_iff)
  from loaded_config [OF c] c show ?thesis by blast
qed

theorem load_reports_missing_witness:
  "\<exists>errs. Load (\<lambda>_ _ _. 0) (\<lambda>_. []) = Inl errs \<and> cfg_missing EnvJWTSecret \<in> set errs"
  using load_reports_missing [of EnvJWTSecret "\<lambda>_ _ _. 0" "\<lambda>_. []"] by simp

lemma sample_apart: "password_apart ''postgresql://u:a@h/db?x=@'' ''postgresql://u:b%21@h/db?x=@''"
proof -
  have "userinfo_text ''u''" "userinfo_text ''a''" "userinfo_text ''b%21''" by code_simp+
  moreover have "CHR ''@'' \<notin> set (host_part ''h/db?x=@'')" "''postgresql'' \<in> set pg_schemes" by code_simp+
  ultimately show ?thesis
    unfolding password_apart_def
    by (intro exI [of _ "''postgresql''"] exI [of _ "''u''"] exI [of _ "''a''"] exI [of _ "''b%21''"] exI [of _ "''h/db?x=@''"])
      (simp add: dsn_of_def)
qed

theorem log_hides_secrets_witness:
  "\<forall>c. Config_String (c\<lparr>cfg_DatabaseURL := ''postgresql://u:a@h/db?x=@'', cfg_VLLMAPIKey := ''1'', cfg_JWTSecret := ''2''\<rparr>) =
     Config_String (c\<lparr>cfg_DatabaseURL := ''postgresql://u:b%21@h/db?x=@'', cfg_VLLMAPIKey := ''3'', cfg_JWTSecret := ''4''\<rparr>) \<and>
   Config_String (c\<lparr>cfg_DatabaseURL := ''host=h'', cfg_VLLMAPIKey := ''1'', cfg_JWTSecret := ''2''\<rparr>) =
     Config_String (c\<lparr>cfg_DatabaseURL := ''host=h'', cfg_VLLMAPIKey := ''3'', cfg_JWTSecret := ''4''\<rparr>)"
  by (intro allI conjI log_hides_secrets) (use sample_apart in simp_all)

text \<open>A password with a slash is not masked: the URL does not parse, and the fallback does not match.\<close>

lemma slash_password_survives: "redactDSN ''postgres://u:a/b@h/db'' = ''postgres://u:a/b@h/db''"
  by code_simp

end
