(* ===== verification/Ratelimit.thy ===== *)
theory Ratelimit
  imports Config Req_Context
begin

text \<open>
  \<open>backend/internal/ratelimit/ratelimit.go\<close>: the in-process limiters. The token bucket itself,
  \<open>golang.org/x/time/rate\<close>, is a parameter: \<open>rl_New\<close> makes a limiter of \<open>rpm / 60\<close> tokens a
  second with a burst, \<open>rl_Allow\<close> takes a token at an instant if there is one; \<open>rl_Limit\<close>,
  \<open>rl_Burst\<close> and \<open>rl_TokensAt\<close> are its observers. What its documentation promises is
  \<open>rate_law\<close>: a bucket that starts full, is refilled at its rate up to its burst, and gives up
  one token per admitted request. Tokens are counted in units of a 60-billionth, so that one
  nanosecond adds \<open>rpm\<close> of them. The law is exact where the library is not: its rounding of
  floating-point numbers is not modelled, nor that it truncates the wait for a token to whole
  nanoseconds, so that it may admit a request up to one nanosecond before the token is there.
\<close>

record 'l rate_lib =
  rl_New :: "int \<Rightarrow> int \<Rightarrow> 'l"
  rl_Allow :: "'l \<Rightarrow> int \<Rightarrow> bool \<times> 'l"
  rl_Limit :: "'l \<Rightarrow> int"
  rl_Burst :: "'l \<Rightarrow> int"
  rl_TokensAt :: "'l \<Rightarrow> int \<Rightarrow> int"

definition token :: int where "token = 60 * 1000000000"

definition rate_law :: "'l rate_lib \<Rightarrow> bool" where
  "rate_law L \<longleftrightarrow>
     (\<forall>rpm b t. rl_Limit L (rl_New L rpm b) = rpm \<and> rl_Burst L (rl_New L rpm b) = b \<and>
        rl_TokensAt L (rl_New L rpm b) t = b * token) \<and>
     (\<forall>l t. rl_Limit L (snd (rl_Allow L l t)) = rl_Limit L l \<and> rl_Burst L (snd (rl_Allow L l t)) = rl_Burst L l \<and>
        fst (rl_Allow L l t) = (token \<le> rl_TokensAt L l t)) \<and>
     (\<forall>l t t'. 0 \<le> rl_Limit L l \<longrightarrow> t \<le> t' \<longrightarrow>
        rl_TokensAt L (snd (rl_Allow L l t)) t' =
          min (rl_Burst L l * token)
            (rl_TokensAt L l t - (if fst (rl_Allow L l t) then token else 0) + (t' - t) * rl_Limit L l))"

section \<open>The limiter set\<close>

definition staleAfter :: int where "staleAfter = 10 * 60 * 1000000000"

record 'l bucket =
  bk_lim :: 'l
  bk_seen :: int

text \<open>\<open>ls_rpm\<close> is the rate limit \<open>rpm / 60\<close> by its numerator; \<open>now\<close> is the world's clock.\<close>

record 'l limiterSet =
  ls_buckets :: "string \<rightharpoonup> 'l bucket"
  ls_rpm :: int
  ls_burst :: int
  ls_lastSwep :: int

text \<open>The zero \<open>time.Time\<close>, and \<open>Time.Sub\<close>, which saturates.\<close>

definition zero_time :: int where "zero_time = - 62135596800 * 1000000000"

definition time_Sub :: "int \<Rightarrow> int \<Rightarrow> int" where
  "time_Sub t u = max (- (2 ^ 63)) (min (2 ^ 63 - 1) (t - u))"

definition newLimiterSet :: "RateLimit \<Rightarrow> 'l limiterSet" where
  "newLimiterSet rl =
     \<lparr>ls_buckets = (\<lambda>_. None), ls_rpm = RequestsPerMinute rl, ls_burst = Burst rl, ls_lastSwep = zero_time\<rparr>"

definition sweep :: "int \<Rightarrow> 'l limiterSet \<Rightarrow> 'l limiterSet" where
  "sweep t s =
     (if time_Sub t (ls_lastSwep s) < staleAfter then s
      else s\<lparr>ls_lastSwep := t,
             ls_buckets := (\<lambda>k. case ls_buckets s k of
                None \<Rightarrow> None
              | Some b \<Rightarrow> if time_Sub t (bk_seen b) > staleAfter then None else Some b)\<rparr>)"

text \<open>
  The body of \<open>allow\<close>, which holds the mutex throughout, at the two instants it reads: \<open>t\<close> its
  own, \<open>t'\<close> the one \<open>Allow\<close> reads.
\<close>

definition allow_at :: "'l rate_lib \<Rightarrow> string \<Rightarrow> int \<Rightarrow> int \<Rightarrow> 'l limiterSet \<Rightarrow> bool \<times> 'l limiterSet" where
  "allow_at L key t t' s =
     (let s1 = sweep t s;
          lim = (case ls_buckets s1 key of None \<Rightarrow> rl_New L (ls_rpm s1) (ls_burst s1) | Some b \<Rightarrow> bk_lim b);
          (ok, lim') = rl_Allow L lim t'
      in (ok, s1\<lparr>ls_buckets := (ls_buckets s1)(key \<mapsto> \<lparr>bk_lim = lim', bk_seen = t\<rparr>)\<rparr>))"

definition allow :: "'l rate_lib \<Rightarrow> string \<Rightarrow> 'l limiterSet \<Rightarrow> 'a env_scheme \<Rightarrow> bool \<times> 'l limiterSet \<times> 'a env_scheme" where
  "allow L key s w =
     (case now w of (t, w1) \<Rightarrow> case now w1 of (t', w2) \<Rightarrow>
        (case allow_at L key t t' s of (ok, s') \<Rightarrow> (ok, s', w2)))"

text \<open>
  \<open>math.Ceil(1 / (rpm / 60.0))\<close>, at least 1, in whole numbers: the value without the rounding of the
  two divisions.
\<close>

definition retryAfter :: "'l limiterSet \<Rightarrow> int" where
  "retryAfter s = (if ls_rpm s \<le> 0 then 1 else max 1 ((60 + ls_rpm s - 1) div ls_rpm s))"

section \<open>Middleware\<close>

text \<open>\<open>net.SplitHostPort\<close>; \<open>None\<close> for its errors.\<close>

definition SplitHostPort :: "string \<Rightarrow> (string \<times> string) option" where
  "SplitHostPort hp =
     (case CutLast CHR '':'' hp of
        None \<Rightarrow> None
      | Some (front, port) \<Rightarrow>
          if HasPrefix hp ''['' then
            (case CutChar CHR '']'' hp of
               (_, None) \<Rightarrow> None
             | (host, Some after) \<Rightarrow>
                 if after \<noteq> CHR '':'' # port then None
                 else if CHR ''['' \<in> set (tl hp) \<or> CHR '']'' \<in> set after then None
                 else Some (tl host, port))
          else if CHR '':'' \<in> set front then None
          else if CHR ''['' \<in> set hp \<or> CHR '']'' \<in> set hp then None
          else Some (front, port))"

definition clientIP :: "'c request \<Rightarrow> string" where
  "clientIP r = (case SplitHostPort (rq_remote r) of None \<Rightarrow> rq_remote r | Some (host, _) \<Rightarrow> host)"

definition tooManyRequests :: "int \<Rightarrow> wcall list" where
  "tooManyRequests secs =
     [SetHeader ''Retry-After'' (Itoa secs), SetHeader ''Content-Type'' ''application/json; charset=utf-8'',
      WriteHeader 429,
      Write (json_encode (JObj [(''error'', JObj [(''type'', JStr ''rate_limited''), (''message'', JStr ''too many requests'')])])
        @ [char_of_byte 10])]"

definition passthrough :: "('c, 'w) handler \<Rightarrow> ('c, 'w) handler" where
  "passthrough next = next"

text \<open>
  The limiter set a middleware captures is a part of the world: \<open>getS\<close> reads it, \<open>putS\<close> replaces
  it. The middleware is the function over the handlers it wraps.
\<close>

definition limited :: "'l rate_lib \<Rightarrow> ('a env_scheme \<Rightarrow> 'l limiterSet) \<Rightarrow> ('l limiterSet \<Rightarrow> 'a env_scheme \<Rightarrow> 'a env_scheme)
    \<Rightarrow> string \<Rightarrow> ('c, 'a env_scheme) handler \<Rightarrow> ('c, 'a env_scheme) handler" where
  "limited L getS putS key next = (\<lambda>r w.
     case allow L key (getS w) w of (ok, s, w1) \<Rightarrow>
       (let w2 = putS s w1
        in if ok then next r w2 else (tooManyRequests (retryAfter s), Returned, w2)))"

definition PerIP :: "'l rate_lib \<Rightarrow> ('a env_scheme \<Rightarrow> 'l limiterSet) \<Rightarrow> ('l limiterSet \<Rightarrow> 'a env_scheme \<Rightarrow> 'a env_scheme)
    \<Rightarrow> RateLimit \<Rightarrow> ('c, 'a env_scheme) handler \<Rightarrow> ('c, 'a env_scheme) handler" where
  "PerIP L getS putS rl =
     (if RequestsPerMinute rl \<le> 0 then passthrough
      else (\<lambda>next r w. limited L getS putS (clientIP r) next r w))"

definition PerKey :: "'l rate_lib \<Rightarrow> ('a env_scheme \<Rightarrow> 'l limiterSet) \<Rightarrow> ('l limiterSet \<Rightarrow> 'a env_scheme \<Rightarrow> 'a env_scheme)
    \<Rightarrow> RateLimit \<Rightarrow> ('c request \<Rightarrow> string) \<Rightarrow> ('c, 'a env_scheme) handler \<Rightarrow> ('c, 'a env_scheme) handler" where
  "PerKey L getS putS rl keyFn =
     (if RequestsPerMinute rl \<le> 0 then passthrough
      else (\<lambda>next r w. let key = keyFn r in if key = [] then next r w else limited L getS putS key next r w))"

end
