(* ===== verification/Rate_Properties.thy ===== *)
theory Rate_Properties
  imports Ratelimit
begin

text \<open>
  What the limiters guarantee, for every token bucket library that keeps its documented law: how
  many requests of a key a window of time can see admitted, and that waiting as long as a
  refusal says is enough when the burst is not zero. The bounds are those of the law: to the
  nanosecond and the rounding by which the library departs from it.
\<close>

section \<open>Runs of a limiter set\<close>

text \<open>A request: its key, and the two instants \<open>allow\<close> reads.\<close>

type_synonym arrival = "string \<times> int \<times> int"

fun run_at :: "'l rate_lib \<Rightarrow> arrival list \<Rightarrow> 'l limiterSet \<Rightarrow> (string \<times> bool) list \<times> 'l limiterSet" where
  "run_at L [] s = ([], s)"
| "run_at L ((k, t, t') # es) s =
     (case allow_at L k t t' s of (ok, s1) \<Rightarrow> (case run_at L es s1 of (rs, s2) \<Rightarrow> ((k, ok) # rs, s2)))"

text \<open>The instants never decrease and lie between two bounds.\<close>

fun steady :: "int \<Rightarrow> int \<Rightarrow> arrival list \<Rightarrow> bool" where
  "steady t0 t1 [] \<longleftrightarrow> t0 \<le> t1"
| "steady t0 t1 ((k, t, t') # es) \<longleftrightarrow> t0 \<le> t \<and> t \<le> t' \<and> steady t' t1 es"

definition admitted :: "string \<Rightarrow> (string \<times> bool) list \<Rightarrow> nat" where
  "admitted k rs = length (filter (\<lambda>r. r = (k, True)) rs)"

lemma admitted_Cons: "admitted k ((j, ok) # rs) = (if j = k \<and> ok then 1 else 0) + admitted k rs"
  by (simp add: admitted_def)

lemma steady_le: "steady t0 t1 es \<Longrightarrow> t0 \<le> t1"
proof (induction es arbitrary: t0)
  case (Cons e es)
  then show ?case by (cases e) fastforce
qed simp

text \<open>
  The invariant of a limiter set at an instant: every bucket has the set's rate and burst and
  will never hold more than the burst or less than nothing.
\<close>

definition ls_inv :: "'l rate_lib \<Rightarrow> int \<Rightarrow> 'l limiterSet \<Rightarrow> bool" where
  "ls_inv L T s \<longleftrightarrow> 0 \<le> ls_rpm s \<and> 0 \<le> ls_burst s \<and>
     (\<forall>k b. ls_buckets s k = Some b \<longrightarrow> rl_Limit L (bk_lim b) = ls_rpm s \<and> rl_Burst L (bk_lim b) = ls_burst s \<and>
        (\<forall>t \<ge> T. 0 \<le> rl_TokensAt L (bk_lim b) t \<and> rl_TokensAt L (bk_lim b) t \<le> ls_burst s * token))"

lemma rate_New:
  assumes "rate_law L"
  shows "rl_Limit L (rl_New L rpm b) = rpm" "rl_Burst L (rl_New L rpm b) = b" "rl_TokensAt L (rl_New L rpm b) t = b * token"
  using assms by (auto simp: rate_law_def)

lemma rate_Allow:
  assumes "rate_law L" "rl_Allow L l t = (ok, l')"
  shows "rl_Limit L l' = rl_Limit L l" "rl_Burst L l' = rl_Burst L l" "ok = (token \<le> rl_TokensAt L l t)"
    "0 \<le> rl_Limit L l \<Longrightarrow> t \<le> t' \<Longrightarrow> rl_TokensAt L l' t' =
       min (rl_Burst L l * token) (rl_TokensAt L l t - (if ok then token else 0) + (t' - t) * rl_Limit L l)"
  using assms(1) assms(2) [symmetric] unfolding rate_law_def by (metis fst_conv snd_conv)+

lemma sweep_fields [simp]: "ls_rpm (sweep t s) = ls_rpm s" "ls_burst (sweep t s) = ls_burst s"
  by (simp_all add: sweep_def)

lemma sweep_bucket: "ls_buckets (sweep t s) k = Some b \<Longrightarrow> ls_buckets s k = Some b"
  by (auto simp: sweep_def split: if_splits option.splits)

lemma sweep_bucket_cases: "ls_buckets (sweep t s) k = None \<or> ls_buckets (sweep t s) k = ls_buckets s k"
  by (simp add: sweep_def split: option.split)

lemma sweep_recent:
  "ls_buckets s k = Some b \<Longrightarrow> t - bk_seen b \<le> staleAfter \<Longrightarrow> ls_buckets (sweep t s) k = Some b"
  by (auto simp: sweep_def time_Sub_def staleAfter_def)

lemma sweep_inv: "ls_inv L T s \<Longrightarrow> ls_inv L T (sweep t s)"
  by (auto simp: ls_inv_def dest!: sweep_bucket)

lemma ls_inv_later: "ls_inv L T s \<Longrightarrow> T \<le> T' \<Longrightarrow> ls_inv L T' s"
  by (fastforce simp: ls_inv_def)

text \<open>The limiter a request meets, and what the request does to it.\<close>

definition limiter_for :: "'l rate_lib \<Rightarrow> string \<Rightarrow> int \<Rightarrow> 'l limiterSet \<Rightarrow> 'l" where
  "limiter_for L k t s =
     (case ls_buckets (sweep t s) k of None \<Rightarrow> rl_New L (ls_rpm s) (ls_burst s) | Some b \<Rightarrow> bk_lim b)"

lemma allow_at_eq:
  "allow_at L k t t' s =
     (fst (rl_Allow L (limiter_for L k t s) t'),
      (sweep t s)\<lparr>ls_buckets := (ls_buckets (sweep t s))(k \<mapsto> \<lparr>bk_lim = snd (rl_Allow L (limiter_for L k t s) t'), bk_seen = t\<rparr>)\<rparr>)"
  by (simp add: allow_at_def limiter_for_def Let_def case_prod_beta cong: option.case_cong)

lemma limiter_for_facts:
  assumes "rate_law L" "ls_inv L T s" "T \<le> t'"
  shows "rl_Limit L (limiter_for L k t s) = ls_rpm s" "rl_Burst L (limiter_for L k t s) = ls_burst s"
    "0 \<le> rl_TokensAt L (limiter_for L k t s) t'" "rl_TokensAt L (limiter_for L k t s) t' \<le> ls_burst s * token"
proof -
  have "rl_Limit L (limiter_for L k t s) = ls_rpm s \<and> rl_Burst L (limiter_for L k t s) = ls_burst s \<and>
      0 \<le> rl_TokensAt L (limiter_for L k t s) t' \<and> rl_TokensAt L (limiter_for L k t s) t' \<le> ls_burst s * token"
  proof (cases "ls_buckets (sweep t s) k")
    case None
    then show ?thesis using assms by (simp add: limiter_for_def rate_New ls_inv_def token_def)
  next
    case (Some b)
    then show ?thesis using sweep_inv [OF assms(2), of t] assms(3) by (simp add: limiter_for_def ls_inv_def)
  qed
  then show "rl_Limit L (limiter_for L k t s) = ls_rpm s" "rl_Burst L (limiter_for L k t s) = ls_burst s"
    "0 \<le> rl_TokensAt L (limiter_for L k t s) t'" "rl_TokensAt L (limiter_for L k t s) t' \<le> ls_burst s * token" by auto
qed

lemma allow_at_fields: "allow_at L k t t' s = (ok, s') \<Longrightarrow> ls_rpm s' = ls_rpm s \<and> ls_burst s' = ls_burst s"
  by (auto simp: allow_at_eq)

lemma allow_at_keeps [simp]:
  "ls_rpm (snd (allow_at L k t t' s)) = ls_rpm s" "ls_burst (snd (allow_at L k t t' s)) = ls_burst s"
  by (simp_all add: allow_at_eq)

lemma allow_at_inv:
  assumes L: "rate_law L" and i: "ls_inv L T s" "T \<le> t'" and a: "allow_at L k t t' s = (ok, s')"
  shows "ls_inv L t' s'"
proof -
  let ?l = "limiter_for L k t s"
  obtain l' where l': "rl_Allow L ?l t' = (ok, l')" "s' = (sweep t s)\<lparr>ls_buckets := (ls_buckets (sweep t s))(k \<mapsto> \<lparr>bk_lim = l', bk_seen = t\<rparr>)\<rparr>"
    using a by (cases "rl_Allow L ?l t'") (auto simp: allow_at_eq)
  note f = limiter_for_facts [OF L i, of k t] and r = rate_Allow [OF L l'(1)]
  have rpm: "0 \<le> ls_rpm s" "0 \<le> ls_burst s" using i(1) by (simp_all add: ls_inv_def)
  have "0 \<le> rl_TokensAt L l' u \<and> rl_TokensAt L l' u \<le> ls_burst s * token" if "t' \<le> u" for u
  proof -
    have "0 \<le> (u - t') * ls_rpm s" using that rpm by simp
    then show ?thesis using r(3) r(4) [OF _ that] f rpm by (auto simp: token_def)
  qed
  then show ?thesis
    using ls_inv_later [OF sweep_inv [OF i(1), of t] i(2)] f(1,2) r(1,2) l'(2) by (auto simp: ls_inv_def)
qed

lemma newLimiterSet_inv: "0 \<le> RequestsPerMinute rl \<Longrightarrow> 0 \<le> Burst rl \<Longrightarrow> ls_inv L T (newLimiterSet rl)"
  by (simp add: ls_inv_def newLimiterSet_def)

section \<open>A window of time\<close>

text \<open>
  What is left to key \<open>k\<close> at instant \<open>T\<close> of a window that began at \<open>t0\<close> and in which it was
  admitted \<open>n\<close> times: its bucket was used in the window and holds at most the burst and what
  the window added, less what was taken.
\<close>

definition spent :: "'l rate_lib \<Rightarrow> int \<Rightarrow> int \<Rightarrow> string \<Rightarrow> nat \<Rightarrow> 'l limiterSet \<Rightarrow> bool" where
  "spent L t0 T k n s \<longleftrightarrow> n = 0 \<or>
     (int n * token \<le> ls_burst s * token + (T - t0) * ls_rpm s \<and>
      (\<exists>b. ls_buckets s k = Some b \<and> t0 \<le> bk_seen b \<and>
        (\<forall>t \<ge> T. rl_TokensAt L (bk_lim b) t \<le> ls_burst s * token + (t - t0) * ls_rpm s - int n * token)))"

lemma spent_limiter:
  assumes L: "rate_law L" and i: "ls_inv L T s" "T \<le> t'" and sp: "spent L t0 T k n s"
    and t: "t0 \<le> T" "t \<le> t'" "t - t0 \<le> staleAfter"
  shows "rl_TokensAt L (limiter_for L k t s) t' \<le> ls_burst s * token + (t' - t0) * ls_rpm s - int n * token"
proof (cases "n = 0")
  case True
  have "0 \<le> (t' - t0) * ls_rpm s" using i t by (simp add: ls_inv_def)
  then show ?thesis using limiter_for_facts(4) [OF L i, of k t] True by simp
next
  case False
  then obtain b where b: "ls_buckets s k = Some b" "t0 \<le> bk_seen b"
    "\<forall>t \<ge> T. rl_TokensAt L (bk_lim b) t \<le> ls_burst s * token + (t - t0) * ls_rpm s - int n * token"
    using sp by (auto simp: spent_def)
  then have "ls_buckets (sweep t s) k = Some b" using t by (intro sweep_recent) simp_all
  then show ?thesis using b(3) i(2) by (simp add: limiter_for_def)
qed

lemma spent_step:
  assumes L: "rate_law L" and i: "ls_inv L T s" "T \<le> t" "t \<le> t'" and sp: "spent L t0 T k n s"
    and t: "t0 \<le> T" "t - t0 \<le> staleAfter" and a: "allow_at L j t t' s = (ok, s')"
  shows "spent L t0 t' k (n + (if j = k \<and> ok then 1 else 0)) s'"
proof (cases "j = k")
  case True
  let ?l = "limiter_for L k t s" and ?n = "n + (if ok then 1 else 0)"
  obtain l' where l': "rl_Allow L ?l t' = (ok, l')"
      "s' = (sweep t s)\<lparr>ls_buckets := (ls_buckets (sweep t s))(k \<mapsto> \<lparr>bk_lim = l', bk_seen = t\<rparr>)\<rparr>"
    using a True by (cases "rl_Allow L ?l t'") (auto simp: allow_at_eq)
  have T: "T \<le> t'" using i(2,3) by simp
  note f = limiter_for_facts [OF L i(1) T, of k t] and r = rate_Allow [OF L l'(1)]
  have rpm: "0 \<le> ls_rpm s" using i(1) by (simp add: ls_inv_def)
  have m: "rl_TokensAt L ?l t' \<le> ls_burst s * token + (t' - t0) * ls_rpm s - int n * token"
    by (rule spent_limiter [OF L i(1) T sp t(1) i(3) t(2)])
  have grow: "(t' - t0) * ls_rpm s + (u - t') * ls_rpm s = (u - t0) * ls_rpm s" for u by (simp add: algebra_simps)
  have after: "rl_TokensAt L l' u \<le> ls_burst s * token + (u - t0) * ls_rpm s - int ?n * token" if "t' \<le> u" for u
  proof -
    have "rl_TokensAt L l' u \<le> rl_TokensAt L ?l t' - (if ok then token else 0) + (u - t') * ls_rpm s"
      using r(4) [OF _ that] f(1) rpm by simp
    then show ?thesis using m grow [of u] by (cases ok) (simp_all add: algebra_simps)
  qed
  have "int ?n * token \<le> ls_burst s * token + (t' - t0) * ls_rpm s" if "?n \<noteq> 0"
  proof (cases ok)
    case True
    then show ?thesis using m r(3) by (simp add: algebra_simps)
  next
    case False
    then have "int n * token \<le> ls_burst s * token + (T - t0) * ls_rpm s" using sp that by (simp add: spent_def)
    moreover have "(T - t0) * ls_rpm s \<le> (t' - t0) * ls_rpm s" using T rpm by (intro mult_right_mono) simp_all
    ultimately show ?thesis using False by simp
  qed
  moreover have "t0 \<le> t" using t(1) i(2) by simp
  ultimately have "spent L t0 t' k ?n s'"
    using after l'(2) by (cases "?n = 0") (simp_all add: spent_def)
  then show ?thesis using True by simp
next
  case False
  show ?thesis
  proof (cases "n = 0")
    case True
    then show ?thesis using False by (simp add: spent_def)
  next
    case n: False
    then obtain b where b: "ls_buckets s k = Some b" "t0 \<le> bk_seen b"
      "\<forall>t \<ge> T. rl_TokensAt L (bk_lim b) t \<le> ls_burst s * token + (t - t0) * ls_rpm s - int n * token"
      "int n * token \<le> ls_burst s * token + (T - t0) * ls_rpm s"
      using sp by (auto simp: spent_def)
    have "ls_buckets (sweep t s) k = Some b" using b t by (intro sweep_recent) simp_all
    moreover have "(T - t0) * ls_rpm s \<le> (t' - t0) * ls_rpm s"
      using i by (intro mult_right_mono) (simp_all add: ls_inv_def)
    ultimately show ?thesis using False a b i(2,3) by (auto simp: spent_def allow_at_eq)
  qed
qed

lemma run_at_spent:
  assumes L: "rate_law L"
  shows "ls_inv L T s \<Longrightarrow> spent L t0 T k n s \<Longrightarrow> t0 \<le> T \<Longrightarrow> steady T t1 es \<Longrightarrow> t1 - t0 \<le> staleAfter \<Longrightarrow>
    run_at L es s = (rs, s') \<Longrightarrow> spent L t0 t1 k (n + admitted k rs) s' \<and> ls_inv L t1 s'"
proof (induction es arbitrary: T n s rs)
  case Nil
  have "(T - t0) * ls_rpm s \<le> (t1 - t0) * ls_rpm s"
    using Nil by (intro mult_right_mono) (simp_all add: ls_inv_def)
  moreover have "T \<le> t1" using Nil(4) by simp
  ultimately show ?case
    using Nil(2,6) ls_inv_later [OF Nil(1), of t1] by (auto simp: spent_def admitted_def)
next
  case (Cons e es)
  obtain j t t' where e: "e = (j, t, t')" by (cases e)
  obtain ok s1 where a: "allow_at L j t t' s = (ok, s1)" by fastforce
  obtain rs1 where r: "run_at L es s1 = (rs1, s')" "rs = (j, ok) # rs1"
    using Cons.prems(6) a e by (auto split: prod.splits)
  have t: "T \<le> t" "t \<le> t'" "steady t' t1 es" using Cons.prems(4) e by simp_all
  then have "t' \<le> t1" by (simp add: steady_le)
  then have "spent L t0 t' k (n + (if j = k \<and> ok then 1 else 0)) s1"
    using Cons.prems(3,5) t by (intro spent_step [OF L Cons.prems(1) t(1,2) Cons.prems(2) _ _ a]) simp_all
  moreover have "ls_inv L t' s1" using t by (intro allow_at_inv [OF L Cons.prems(1) _ a]) simp
  moreover have "t0 \<le> t'" using Cons.prems(3) t by simp
  ultimately have "spent L t0 t1 k (n + (if j = k \<and> ok then 1 else 0) + admitted k rs1) s' \<and> ls_inv L t1 s'"
    using Cons.IH t(3) Cons.prems(5) r(1) by blast
  then show ?case by (simp add: r(2) admitted_Cons add.assoc)
qed

lemma run_at_fields: "run_at L es s = (rs, s') \<Longrightarrow> ls_burst s' = ls_burst s \<and> ls_rpm s' = ls_rpm s"
  by (induction L es s arbitrary: rs rule: run_at.induct) (auto dest!: allow_at_fields split: prod.splits)

lemma run_at_inv:
  assumes L: "rate_law L"
  shows "ls_inv L T s \<Longrightarrow> steady T t1 es \<Longrightarrow> run_at L es s = (rs, s') \<Longrightarrow> ls_inv L t1 s'"
proof (induction es arbitrary: T s rs)
  case Nil
  then show ?case using ls_inv_later [OF Nil(1), of t1] by simp
next
  case (Cons e es)
  obtain j t t' where e: "e = (j, t, t')" by (cases e)
  obtain ok s1 where a: "allow_at L j t t' s = (ok, s1)" by fastforce
  obtain rs1 where r: "run_at L es s1 = (rs1, s')" using Cons.prems(3) a e by (auto split: prod.splits)
  have "ls_inv L t' s1" using Cons.prems(2) e by (intro allow_at_inv [OF L Cons.prems(1) _ a]) simp
  then show ?case using Cons.IH [OF _ _ r, of t'] Cons.prems(2) e by simp
qed

text \<open>C13: in any window of up to ten minutes of any sequence of requests, whatever the other keys do,
  a key is admitted at most as often as the burst and the rate over the window allow.\<close>

theorem admissions_bounded:
  assumes "rate_law L" "ls_inv L t0 s" "steady t0 t1 es" "t1 - t0 \<le> staleAfter" "run_at L es s = (rs, s')"
  shows "int (admitted k rs) * token \<le> ls_burst s * token + (t1 - t0) * ls_rpm s"
proof -
  have "spent L t0 t1 k (admitted k rs) s'"
    using run_at_spent [OF assms(1,2) _ _ assms(3-5), where k = k and n = 0] by (simp add: spent_def)
  moreover have "ls_burst s' = ls_burst s \<and> ls_rpm s' = ls_rpm s" by (rule run_at_fields [OF assms(5)])
  moreover have "0 \<le> (t1 - t0) * ls_rpm s" "0 \<le> ls_burst s * token"
    using assms(2) steady_le [OF assms(3)] by (simp_all add: ls_inv_def token_def)
  ultimately show ?thesis by (auto simp: spent_def)
qed

section \<open>Waiting\<close>

lemma allow_at_other: "allow_at L j t t' s = (ok, s') \<Longrightarrow> j \<noteq> k \<Longrightarrow> ls_buckets s' k = None \<or> ls_buckets s' k = ls_buckets s k"
  using sweep_bucket_cases [of t s k] by (auto simp: allow_at_eq)

lemma run_at_other:
  "run_at L es s = (rs, s') \<Longrightarrow> k \<notin> fst ` set es \<Longrightarrow> ls_buckets s' k = None \<or> ls_buckets s' k = ls_buckets s k"
proof (induction L es s arbitrary: rs rule: run_at.induct)
  case (2 L j t t' es s)
  obtain ok s1 where a: "allow_at L j t t' s = (ok, s1)" by fastforce
  obtain rs1 where r: "run_at L es s1 = (rs1, s')" using 2(2) a by (auto split: prod.splits)
  have "ls_buckets s' k = None \<or> ls_buckets s' k = ls_buckets s1 k"
    using 2(1) [OF a [symmetric] r] 2(3) by simp
  then show ?case using allow_at_other [OF a, of k] 2(3) by auto
qed simp

lemma retryAfter_enough: "0 < ls_rpm s \<Longrightarrow> token \<le> retryAfter s * 1000000000 * ls_rpm s"
proof -
  assume r: "0 < ls_rpm s"
  let ?q = "(60 + ls_rpm s - 1) div ls_rpm s * ls_rpm s"
  have "?q + (60 + ls_rpm s - 1) mod ls_rpm s = 60 + ls_rpm s - 1" by (rule div_mult_mod_eq)
  moreover have "(60 + ls_rpm s - 1) mod ls_rpm s < ls_rpm s" using r by (rule pos_mod_bound)
  ultimately have "60 \<le> ?q" by linarith
  also have "\<dots> \<le> retryAfter s * ls_rpm s" using r by (intro mult_right_mono) (simp_all add: retryAfter_def)
  finally show ?thesis by (simp add: token_def mult.commute)
qed

text \<open>C35: with a burst of at least one a refusal is temporary: a key that waits as long as
  \<open>Retry-After\<close> says is admitted, whatever requests of other keys come between. With a burst of zero, which the
  configuration accepts, it is not: the key is refused then too, and at every later instant.\<close>

theorem retry_after_suffices:
  assumes "rate_law L" "ls_inv L T s" "T \<le> t'" "0 < ls_rpm s"
    and "allow_at L k t t' s = (False, s1)" "run_at L es s1 = (rs, s2)" "k \<notin> fst ` set es"
    and "t' + retryAfter s1 * 1000000000 \<le> u'"
  shows "(1 \<le> ls_burst s \<longrightarrow> fst (allow_at L k u u' s2)) \<and>
    (ls_burst s = 0 \<and> steady t' u es \<and> u \<le> u' \<longrightarrow> \<not> fst (allow_at L k u u' s2))"
proof (intro conjI impI)
  let ?l = "limiter_for L k t s"
  obtain l' where l': "rl_Allow L ?l t' = (False, l')"
      "s1 = (sweep t s)\<lparr>ls_buckets := (ls_buckets (sweep t s))(k \<mapsto> \<lparr>bk_lim = l', bk_seen = t\<rparr>)\<rparr>"
    using assms(5) by (cases "rl_Allow L ?l t'") (auto simp: allow_at_eq)
  note f = limiter_for_facts [OF assms(1-3), of k t] and r = rate_Allow [OF assms(1) l'(1)]
  have s1: "ls_rpm s1 = ls_rpm s" "ls_burst s1 = ls_burst s" using allow_at_fields [OF assms(5)] by simp_all
  have s2: "ls_burst s2 = ls_burst s" using run_at_fields [OF assms(6)] s1 by simp
  have wait: "0 < retryAfter s1 * 1000000000" using s1 assms(4) by (simp add: retryAfter_def)
  show "fst (allow_at L k u u' s2)" if burst: "1 \<le> ls_burst s"
  proof -
    have "token \<le> (u' - t') * ls_rpm s"
    proof -
      have "token \<le> retryAfter s1 * 1000000000 * ls_rpm s" using retryAfter_enough [of s1] s1 assms(4) by simp
      also have "\<dots> \<le> (u' - t') * ls_rpm s" using assms(4,8) by (intro mult_right_mono) simp_all
      finally show ?thesis .
    qed
    moreover have full: "token \<le> ls_burst s * token" using burst by (simp add: token_def)
    ultimately have "token \<le> rl_TokensAt L l' u'"
      using r(4) [of u'] f wait assms(4,8) by simp
    moreover have "ls_buckets s2 k = None \<or> ls_buckets s2 k = Some \<lparr>bk_lim = l', bk_seen = t\<rparr>"
      using run_at_other [OF assms(6,7)] l'(2) by simp
    ultimately have "token \<le> rl_TokensAt L (limiter_for L k u s2) u'"
      using full s2 rate_New(3) [OF assms(1)]
      by (cases "ls_buckets (sweep u s2) k") (auto simp: limiter_for_def dest: sweep_bucket)
    then show ?thesis
      using rate_Allow(3) [OF assms(1) surjective_pairing] by (simp add: allow_at_eq)
  qed
  show "\<not> fst (allow_at L k u u' s2)" if "ls_burst s = 0 \<and> steady t' u es \<and> u \<le> u'"
  proof -
    have "ls_inv L u s2"
      using run_at_inv [OF assms(1) allow_at_inv [OF assms(1-3,5)] _ assms(6)] that by blast
    from limiter_for_facts(4) [OF assms(1) this, of u' k u] that
    show ?thesis
      using rate_Allow(3) [OF assms(1) surjective_pairing] by (simp add: allow_at_eq s2 token_def)
  qed
qed

section \<open>Witnesses\<close>

text \<open>A token bucket that keeps the law: rate, burst, tokens and the instant of the last request.\<close>

definition toy_tokens :: "int \<times> int \<times> int \<times> int \<Rightarrow> int \<Rightarrow> int" where
  "toy_tokens l t = (case l of (r, b, tk, t0) \<Rightarrow> min (b * token) (tk + max 0 ((t - t0) * r)))"

definition toy_rate :: "(int \<times> int \<times> int \<times> int) rate_lib" where
  "toy_rate = \<lparr>rl_New = (\<lambda>r b. (r, b, b * token, 0)),
     rl_Allow = (\<lambda>l t. let ok = token \<le> toy_tokens l t
        in (ok, case l of (r, b, _, _) \<Rightarrow> (r, b, toy_tokens l t - (if ok then token else 0), t))),
     rl_Limit = (\<lambda>(r, _). r), rl_Burst = (\<lambda>(_, b, _). b), rl_TokensAt = toy_tokens\<rparr>"

lemma toy_rate_law: "rate_law toy_rate"
  by (auto simp: rate_law_def toy_rate_def toy_tokens_def Let_def split: prod.split)

definition tight :: RateLimit where
  "tight = \<lparr>RequestsPerMinute = 1, Burst = 1\<rparr>"

theorem admissions_bounded_witness:
  "int (admitted ''a'' (fst (run_at toy_rate [(''a'', 0, 0), (''b'', 1, 1), (''a'', 2, 3)] (newLimiterSet tight)))) * token
    \<le> 1 * token + 3 * 1"
proof -
  obtain rs s' where "run_at toy_rate [(''a'', 0, 0), (''b'', 1, 1), (''a'', 2, 3)] (newLimiterSet tight) = (rs, s')" by fastforce
  with admissions_bounded [OF toy_rate_law newLimiterSet_inv [where rl = tight and T = 0] _ _ this, where ?t1.0 = 3 and k = "''a''"] show ?thesis
    by (simp add: tight_def newLimiterSet_def staleAfter_def)
qed

text \<open>One request a minute: with burst one the request after the wait is admitted, with burst zero it never is.\<close>

definition closed_tight :: RateLimit where
  "closed_tight = \<lparr>RequestsPerMinute = 1, Burst = 0\<rparr>"

theorem retry_after_suffices_witness:
  "fst (allow_at toy_rate ''a'' 60000000002 60000000003
     (snd (run_at toy_rate [(''a'', 0, 0), (''a'', 2, 3)] (newLimiterSet tight)))) \<and>
   \<not> fst (allow_at toy_rate ''a'' 60000000002 60000000003 (snd (allow_at toy_rate ''a'' 0 0 (newLimiterSet closed_tight))))"
proof
  let ?s = "snd (allow_at toy_rate ''a'' 0 0 (newLimiterSet tight))"
  note facts = allow_at_def sweep_def newLimiterSet_def tight_def closed_tight_def toy_rate_def toy_tokens_def token_def
    time_Sub_def staleAfter_def zero_time_def
  have f: "allow_at toy_rate ''a'' 2 3 ?s = (False, snd (allow_at toy_rate ''a'' 2 3 ?s))" by (simp add: facts)
  have i: "ls_inv toy_rate 0 ?s"
    by (rule allow_at_inv [OF toy_rate_law newLimiterSet_inv [where rl = tight and T = 0] _ surjective_pairing]) (simp_all add: tight_def)
  have "ls_rpm ?s = 1" "ls_burst ?s = 1" "ls_rpm (snd (allow_at toy_rate ''a'' 2 3 ?s)) = 1"
    by (simp_all add: newLimiterSet_def tight_def)
  then show "fst (allow_at toy_rate ''a'' 60000000002 60000000003
     (snd (run_at toy_rate [(''a'', 0, 0), (''a'', 2, 3)] (newLimiterSet tight))))"
    using retry_after_suffices [OF toy_rate_law i _ _ f, of "[]", where u = 60000000002 and u' = 60000000003]
    by (simp add: retryAfter_def case_prod_beta)
  let ?c = "newLimiterSet closed_tight :: (int \<times> int \<times> int \<times> int) limiterSet"
  have "allow_at toy_rate ''a'' 0 0 ?c = (False, snd (allow_at toy_rate ''a'' 0 0 ?c))" by (simp add: facts)
  moreover have "ls_inv toy_rate 0 ?c" by (rule newLimiterSet_inv) (simp_all add: closed_tight_def)
  ultimately show "\<not> fst (allow_at toy_rate ''a'' 60000000002 60000000003 (snd (allow_at toy_rate ''a'' 0 0 ?c)))"
    using retry_after_suffices [OF toy_rate_law, of 0 ?c 0 "''a''" 0 "snd (allow_at toy_rate ''a'' 0 0 ?c)" "[]" "[]"
        "snd (allow_at toy_rate ''a'' 0 0 ?c)" 60000000003 60000000002]
    by (simp add: retryAfter_def newLimiterSet_def closed_tight_def)
qed

end
