(* ===== verification/Rate_Refinement.thy ===== *)
theory Rate_Refinement
  imports Rate_Properties
begin

text \<open>
  What a limiter set is meant to be: one token bucket for every key there is, that starts full,
  refills at the rate up to the burst and pays one token per admitted request. The
  set keeps less than that, since it makes a key's bucket at the key's first request and its
  lazy sweep drops the buckets that have not been used for \<open>staleAfter\<close>. Neither shows in what it decides.
\<close>

section \<open>The token buckets of the specification\<close>

text \<open>
  For every key, what its bucket held when it was last asked, and when that was. There is no
  limiter library and no sweep in it.
\<close>

type_synonym ledger = "string \<Rightarrow> int \<times> int"

definition level :: "int \<Rightarrow> int \<Rightarrow> int \<times> int \<Rightarrow> int \<Rightarrow> int" where
  "level rpm b e u = min (b * token) (fst e + (u - snd e) * rpm)"

definition full_ledger :: "int \<Rightarrow> int \<Rightarrow> ledger" where
  "full_ledger b t0 = (\<lambda>_. (b * token, t0))"

fun bucket_spec :: "int \<Rightarrow> int \<Rightarrow> arrival list \<Rightarrow> ledger \<Rightarrow> (string \<times> bool) list" where
  "bucket_spec rpm b [] f = []"
| "bucket_spec rpm b ((k, t, t') # es) f =
     (let m = level rpm b (f k) t'; ok = token \<le> m
      in (k, ok) # bucket_spec rpm b es (f(k := (m - (if ok then token else 0), t'))))"

section \<open>The simulation\<close>

text \<open>
  At the instant \<open>T\<close>: a bucket the set has is at the level of the ledger from then on, and was last asked
  at most \<open>d\<close> after the instant the sweep goes by; a bucket the set does not have is full.
\<close>

definition bucket_tracks :: "'l rate_lib \<Rightarrow> int \<Rightarrow> int \<Rightarrow> int \<Rightarrow> int \<Rightarrow> 'l bucket option \<Rightarrow> int \<times> int \<Rightarrow> bool" where
  "bucket_tracks L d rpm b T ob e \<longleftrightarrow> 0 \<le> fst e \<and> snd e \<le> T \<and>
     (case ob of
        None \<Rightarrow> \<forall>u \<ge> T. level rpm b e u = b * token
      | Some bk \<Rightarrow> rl_Limit L (bk_lim bk) = rpm \<and> rl_Burst L (bk_lim bk) = b \<and> snd e \<le> bk_seen bk + d \<and>
          (\<forall>u \<ge> T. rl_TokensAt L (bk_lim bk) u = level rpm b e u))"

definition tracks :: "'l rate_lib \<Rightarrow> int \<Rightarrow> int \<Rightarrow> 'l limiterSet \<Rightarrow> ledger \<Rightarrow> bool" where
  "tracks L d T s f \<longleftrightarrow> (\<forall>k. bucket_tracks L d (ls_rpm s) (ls_burst s) T (ls_buckets s k) (f k))"

lemma bucket_tracks_later: "bucket_tracks L d rpm b T ob e \<Longrightarrow> T \<le> T' \<Longrightarrow> bucket_tracks L d rpm b T' ob e"
  by (cases ob) (simp_all add: bucket_tracks_def)

lemma tracks_later: "tracks L d T s f \<Longrightarrow> T \<le> T' \<Longrightarrow> tracks L d T' s f"
  unfolding tracks_def using bucket_tracks_later by blast

text \<open>The sweep forgets full buckets only.\<close>

lemma bucket_tracks_full:
  assumes "bucket_tracks L d rpm b T (Some bk) e" "T \<le> t" "staleAfter < t - bk_seen bk" "0 \<le> rpm"
    and fills: "b * token \<le> (staleAfter - d) * rpm"
  shows "bucket_tracks L d rpm b t None e"
proof -
  have e: "0 \<le> fst e" "snd e \<le> t" "snd e \<le> bk_seen bk + d" using assms(1,2) by (simp_all add: bucket_tracks_def)
  have "level rpm b e u = b * token" if "t \<le> u" for u
  proof -
    have "(staleAfter - d) * rpm \<le> (u - snd e) * rpm"
      using that e(3) assms(3,4) by (intro mult_right_mono) linarith+
    then show ?thesis using fills e(1) by (simp add: level_def)
  qed
  then show ?thesis using e(1,2) by (simp add: bucket_tracks_def)
qed

lemma sweep_cases:
  "ls_buckets (sweep t s) k = ls_buckets s k \<or>
    (\<exists>bk. ls_buckets s k = Some bk \<and> ls_buckets (sweep t s) k = None \<and> staleAfter < t - bk_seen bk)"
  by (auto simp: sweep_def time_Sub_def staleAfter_def split: option.split)

lemma tracks_sweep:
  assumes tr: "tracks L d T s f" and t: "T \<le> t" and rpm: "0 \<le> ls_rpm s"
    and fills: "ls_burst s * token \<le> (staleAfter - d) * ls_rpm s"
  shows "tracks L d t (sweep t s) f"
proof -
  have "bucket_tracks L d (ls_rpm s) (ls_burst s) t (ls_buckets (sweep t s) k) (f k)" for k
  proof -
    have k: "bucket_tracks L d (ls_rpm s) (ls_burst s) T (ls_buckets s k) (f k)" using tr by (simp add: tracks_def)
    show ?thesis
      using sweep_cases [of t s k]
    proof
      assume "ls_buckets (sweep t s) k = ls_buckets s k"
      then show ?thesis using bucket_tracks_later [OF k t] by simp
    next
      assume "\<exists>bk. ls_buckets s k = Some bk \<and> ls_buckets (sweep t s) k = None \<and> staleAfter < t - bk_seen bk"
      then show ?thesis using bucket_tracks_full [OF _ t _ rpm fills, where L = L and e = "f k"] k by auto
    qed
  qed
  then show ?thesis by (simp add: tracks_def)
qed

lemma tracks_limiter:
  assumes L: "rate_law L" and tr: "tracks L d t (sweep t s) f" and t: "t \<le> t'"
  shows "rl_TokensAt L (limiter_for L k t s) t' = level (ls_rpm s) (ls_burst s) (f k) t'"
    "rl_Limit L (limiter_for L k t s) = ls_rpm s" "rl_Burst L (limiter_for L k t s) = ls_burst s"
  using tr [unfolded tracks_def, THEN spec, of k] t
  by (cases "ls_buckets (sweep t s) k"; simp add: limiter_for_def rate_New [OF L] bucket_tracks_def)+

text \<open>One request: the set decides as the ledger's bucket does, and the two stay together.\<close>

lemma tracks_step:
  assumes L: "rate_law L" and tr: "tracks L d T s f" and t: "T \<le> t" "t \<le> t'" "t' - t \<le> d"
    and rpm: "0 \<le> ls_rpm s" "0 \<le> ls_burst s"
    and fills: "ls_burst s * token \<le> (staleAfter - d) * ls_rpm s"
    and a: "allow_at L k t t' s = (ok, s')" and m: "m = level (ls_rpm s) (ls_burst s) (f k) t'"
  shows "ok = (token \<le> m)" "tracks L d t' s' (f(k := (m - (if ok then token else 0), t')))"
proof -
  let ?l = "limiter_for L k t s" and ?e = "(m - (if ok then token else 0), t')"
  note sw = tracks_sweep [OF tr t(1) rpm(1) fills]
  note lim = tracks_limiter [OF L sw t(2), of k]
  obtain l' where l': "rl_Allow L ?l t' = (ok, l')"
      "s' = (sweep t s)\<lparr>ls_buckets := (ls_buckets (sweep t s))(k \<mapsto> \<lparr>bk_lim = l', bk_seen = t\<rparr>)\<rparr>"
    using a by (cases "rl_Allow L ?l t'") (auto simp: allow_at_eq)
  note r = rate_Allow [OF L l'(1)]
  show ok: "ok = (token \<le> m)" using r(3) lim(1) m by simp
  have "0 \<le> fst (f k)" "0 \<le> (t' - snd (f k)) * ls_rpm s"
    using tr t rpm by (auto simp: tracks_def bucket_tracks_def intro!: mult_nonneg_nonneg dest: spec [of _ k])
  then have nn: "0 \<le> m" using m rpm by (simp add: level_def token_def)
  have "rl_TokensAt L l' u = level (ls_rpm s) (ls_burst s) ?e u" if "t' \<le> u" for u
    using r(4) [OF _ that] lim rpm m by (simp add: level_def)
  then have "bucket_tracks L d (ls_rpm s) (ls_burst s) t' (Some \<lparr>bk_lim = l', bk_seen = t\<rparr>) ?e"
    using r(1,2) lim(2,3) ok nn t(3) by (auto simp: bucket_tracks_def)
  moreover have "bucket_tracks L d (ls_rpm s) (ls_burst s) t' (ls_buckets (sweep t s) j) (f j)" for j
    using tracks_later [OF sw t(2)] by (simp add: tracks_def)
  ultimately show "tracks L d t' s' (f(k := ?e))" using l'(2) by (cases ok) (simp_all add: tracks_def)
qed

definition prompt :: "int \<Rightarrow> arrival list \<Rightarrow> bool" where
  "prompt d es \<longleftrightarrow> list_all (\<lambda>(k, t, t'). t' - t \<le> d) es"

lemma run_at_tracks:
  assumes L: "rate_law L"
  shows "tracks L d T s f \<Longrightarrow> steady T t1 es \<Longrightarrow> prompt d es \<Longrightarrow> 0 \<le> ls_rpm s \<Longrightarrow> 0 \<le> ls_burst s \<Longrightarrow>
    ls_burst s * token \<le> (staleAfter - d) * ls_rpm s \<Longrightarrow>
    fst (run_at L es s) = bucket_spec (ls_rpm s) (ls_burst s) es f"
proof (induction es arbitrary: T s f)
  case Nil
  then show ?case by simp
next
  case (Cons e es)
  obtain k t t' where e: "e = (k, t, t')" by (cases e)
  obtain ok s1 where a: "allow_at L k t t' s = (ok, s1)" by fastforce
  have t: "T \<le> t" "t \<le> t'" "t' - t \<le> d" "steady t' t1 es" "prompt d es"
    using Cons.prems(2,3) e by (simp_all add: prompt_def)
  note st = tracks_step [OF L Cons.prems(1) t(1-3) Cons.prems(4-6) a refl]
  have "ls_rpm s1 = ls_rpm s" "ls_burst s1 = ls_burst s" using allow_at_fields [OF a] by simp_all
  then have "fst (run_at L es s1) = bucket_spec (ls_rpm s) (ls_burst s) es
      (f(k := (level (ls_rpm s) (ls_burst s) (f k) t' - (if ok then token else 0), t')))"
    using Cons.IH [OF st(2) t(4,5)] Cons.prems(4-6) by (simp only: simp_thms)
  moreover have "run_at L (e # es) s = ((k, ok) # fst (run_at L es s1), snd (run_at L es s1))"
    using a by (simp add: e case_prod_beta)
  ultimately show ?case unfolding e bucket_spec.simps Let_def st(1) [symmetric] by (simp only: fst_conv)
qed

lemma tracks_new: "tracks L d t0 (newLimiterSet rl) (full_ledger (Burst rl) t0)"
  if "0 \<le> RequestsPerMinute rl" "0 \<le> Burst rl"
  using that by (simp add: tracks_def bucket_tracks_def newLimiterSet_def full_ledger_def level_def token_def)

text \<open>C14: a limiter set is a family of token buckets. When the rate refills a bucket within the ten
  minutes after which the sweep forgets it, every sequence of requests is decided as by buckets, one
  a key, that start full and are never dropped.\<close>

theorem limiter_is_token_buckets:
  assumes "rate_law L" "0 \<le> RequestsPerMinute rl" "0 \<le> Burst rl"
    and "Burst rl * token \<le> (staleAfter - d) * RequestsPerMinute rl"
    and "steady t0 t1 es" "prompt d es"
  shows "fst (run_at L es (newLimiterSet rl)) =
    bucket_spec (RequestsPerMinute rl) (Burst rl) es (full_ledger (Burst rl) t0)"
  using run_at_tracks [OF assms(1) tracks_new [OF assms(2,3)] assms(5,6)] assms(2-4)
  by (simp add: newLimiterSet_def)

theorem limiter_is_token_buckets_witness:
  "fst (run_at toy_rate [(''a'', 0, 1), (''a'', 2, 3), (''b'', 4, 4), (''a'', 700000000000, 700000000001)] (newLimiterSet tight))
     = [(''a'', True), (''a'', False), (''b'', True), (''a'', True)]"
  using limiter_is_token_buckets [OF toy_rate_law, where rl = tight and d = 1 and ?t0.0 = 0 and ?t1.0 = 700000000001 and
      es = "[(''a'', 0, 1), (''a'', 2, 3), (''b'', 4, 4), (''a'', 700000000000, 700000000001)]"]
  by (simp add: tight_def token_def staleAfter_def prompt_def full_ledger_def level_def Let_def)

end
