(* ===== verification/Log_Middleware.thy ===== *)
theory Log_Middleware
  imports Config Usage Req_Context
begin

text \<open>
  \<open>backend/internal/log/log.go\<close> (the loggers) and middleware.go (request ids, the request-scoped
  logger, the recorder around the response writer and the summary line). A handler's calls reach
  the wire through the recorder: \<open>record_calls\<close> is what it lets through and what it remembers.
\<close>

section \<open>Loggers\<close>

definition parseLevel :: "string \<Rightarrow> loglevel" where
  "parseLevel s =
     (let l = ToLower (TrimSpace s)
      in if l = ''debug'' then LevelDebug
         else if l = ''warn'' \<or> l = ''warning'' then LevelWarn
         else if l = ''error'' then LevelError
         else LevelInfo)"

text \<open>The handler a logger writes with: its lines are the world's \<open>logs\<close> in either format.\<close>

datatype log_format = JSONHandler | TextHandler

text \<open>\<open>strings.EqualFold\<close> with a text no rune outside ASCII folds into.\<close>

definition EqualFold :: "string \<Rightarrow> string \<Rightarrow> bool" where
  "EqualFold s t \<longleftrightarrow> ascii_lower s = ascii_lower t"

definition NewWithWriter :: "Config \<Rightarrow> log_format \<times> Logger" where
  "NewWithWriter cfg =
     (if EqualFold (cfg_Env cfg) ''production'' then JSONHandler else TextHandler,
      \<lparr>lg_level = parseLevel (cfg_LogLevel cfg), lg_attrs = []\<rparr>)"

definition log_New :: "Config \<Rightarrow> Logger" where
  "log_New cfg = snd (NewWithWriter cfg)"

section \<open>Request ids\<close>

definition HeaderRequestID :: string where "HeaderRequestID = ''X-Request-Id''"

text \<open>\<open>strconv.FormatInt(i, 36)\<close>.\<close>

definition digit36 :: "nat \<Rightarrow> char" where
  "digit36 n = (if n < 10 then char_of_byte (48 + n) else char_of_byte (87 + n))"

fun base36_nat :: "nat \<Rightarrow> string" where
  "base36_nat n = (if n < 36 then [digit36 n] else base36_nat (n div 36) @ [digit36 (n mod 36)])"

declare base36_nat.simps [simp del]

definition FormatInt36 :: "int \<Rightarrow> string" where
  "FormatInt36 i = (if i < 0 then CHR ''-'' # base36_nat (nat (- i)) else base36_nat (nat i))"

definition newRequestID :: "'a env_scheme \<Rightarrow> string \<times> 'a env_scheme" where
  "newRequestID w =
     (case rand_read 16 w of
        (Some b, w1) \<Rightarrow> (hex_EncodeToString b, w1)
      | (None, w1) \<Rightarrow> (case now w1 of (t, w2) \<Rightarrow> (''req-'' @ FormatInt36 t, w2)))"

section \<open>The recorder\<close>

record responseRecorder =
  rec_status :: int
  rec_bytes :: nat
  rec_wroteHeader :: bool

definition rec_WriteHeader :: "int \<Rightarrow> responseRecorder \<Rightarrow> wcall list \<times> responseRecorder" where
  "rec_WriteHeader code r =
     (if rec_wroteHeader r then ([], r)
      else ([WriteHeader code], r\<lparr>rec_status := code, rec_wroteHeader := True\<rparr>))"

text \<open>
  The writer below takes a write in full, or nothing of it where the status has no body. On a \<open>HEAD\<close> it
  takes the write in full too and sends nothing, so the recorder counts it.
\<close>

definition rec_Write :: "string \<Rightarrow> responseRecorder \<Rightarrow> wcall list \<times> responseRecorder" where
  "rec_Write b r =
     (case (if rec_wroteHeader r then ([], r) else rec_WriteHeader 200 r) of
        (cs, r1) \<Rightarrow>
          (cs @ [Write b],
           r1\<lparr>rec_bytes := rec_bytes r1 + (if bodyAllowed (rec_status r1) then length b else 0)\<rparr>))"

definition rec_flush :: "bool \<Rightarrow> responseRecorder \<Rightarrow> wcall list \<times> responseRecorder" where
  "rec_flush canFlush r =
     (case (if rec_wroteHeader r then ([], r) else rec_WriteHeader 200 r) of
        (cs, r1) \<Rightarrow> (cs @ (if canFlush then [Flush] else []), r1))"

definition rec_Written :: "responseRecorder \<Rightarrow> bool" where
  "rec_Written r = rec_wroteHeader r"

datatype rwrapper = plainRecorder | flushWriter | hijackWriter | flushHijackWriter

definition is_Flusher :: "rwrapper \<Rightarrow> bool" where
  "is_Flusher x \<longleftrightarrow> x = flushWriter \<or> x = flushHijackWriter"

definition is_Hijacker :: "rwrapper \<Rightarrow> bool" where
  "is_Hijacker x \<longleftrightarrow> x = hijackWriter \<or> x = flushHijackWriter"

definition wrapResponseWriter :: "bool \<Rightarrow> bool \<Rightarrow> responseRecorder \<times> rwrapper" where
  "wrapResponseWriter canFlush canHijack =
     (\<lparr>rec_status = 200, rec_bytes = 0, rec_wroteHeader = False\<rparr>,
      if canFlush \<and> canHijack then flushHijackWriter
      else if canFlush then flushWriter
      else if canHijack then hijackWriter
      else plainRecorder)"

text \<open>One call on the wrapper; the header map is the underlying writer's.\<close>

fun record_call :: "bool \<Rightarrow> wcall \<Rightarrow> responseRecorder \<Rightarrow> wcall list \<times> responseRecorder" where
  "record_call canFlush (WriteHeader code) r = rec_WriteHeader code r"
| "record_call canFlush (Write b) r = rec_Write b r"
| "record_call canFlush Flush r = rec_flush canFlush r"
| "record_call canFlush c r = ([c], r)"

fun record_calls :: "bool \<Rightarrow> wcall list \<Rightarrow> responseRecorder \<Rightarrow> wcall list \<times> responseRecorder" where
  "record_calls canFlush [] r = ([], r)"
| "record_calls canFlush (c # cs) r =
     (case record_call canFlush c r of (out, r1) \<Rightarrow>
        (case record_calls canFlush cs r1 of (rest, r2) \<Rightarrow> (out @ rest, r2)))"

section \<open>The middleware\<close>

definition summary_level :: "int \<Rightarrow> loglevel" where
  "summary_level status = (if status \<ge> 500 then LevelError else if status \<ge> 400 then LevelWarn else LevelInfo)"

definition summary_attrs :: "'c request \<Rightarrow> responseRecorder \<Rightarrow> int \<Rightarrow> (string \<times> logval) list" where
  "summary_attrs r rec dur =
     [(''method'', LStr (rq_method r)), (''path'', LStr (rq_path r)), (''status'', LInt (rec_status rec)),
      (''duration_ms'', LInt (trunc_div dur 1000000)), (''bytes'', LInt (int (rec_bytes rec)))]"

text \<open>When \<open>next\<close> panics nothing after its call runs: no summary line, the panic goes on.\<close>

definition Middleware :: "Logger option \<Rightarrow> (ctx, 'a env_scheme) handler \<Rightarrow> (ctx, 'a env_scheme) handler" where
  "Middleware base next = (\<lambda>r w.
     case (if header_get r HeaderRequestID = [] then newRequestID w else (header_get r HeaderRequestID, w)) of
       (reqID, w1) \<Rightarrow>
         (let reqLogger = Logger_With (Async_logger base w1) [(''request_id'', LStr reqID)];
              c = withRequestID (WithContext (rq_ctx r) reqLogger) reqID
          in case wrapResponseWriter (rq_flusher r) (rq_hijacker r) of (rec, rw) \<Rightarrow>
             case now w1 of (start, w2) \<Rightarrow>
             case next (r\<lparr>rq_flusher := is_Flusher rw, rq_hijacker := is_Hijacker rw, rq_statusWriter := True, rq_ctx := c\<rparr>) w2 of
               (cs, ex, w3) \<Rightarrow>
             case record_calls (rq_flusher r) cs rec of (out, rec1) \<Rightarrow>
               (if ex \<noteq> Returned then (SetHeader HeaderRequestID reqID # out, ex, w3)
                else case now w3 of (t, w4) \<Rightarrow>
                  (SetHeader HeaderRequestID reqID # out, Returned,
                   LogAttrs reqLogger (summary_level (rec_status rec1)) ''request'' (summary_attrs r rec1 (t - start)) w4))))"

section \<open>What the recorder sees is what the client gets\<close>

lemma wrapper_capabilities [simp]:
  "is_Flusher (snd (wrapResponseWriter f h)) = f" "is_Hijacker (snd (wrapResponseWriter f h)) = h"
  by (auto simp: wrapResponseWriter_def is_Flusher_def is_Hijacker_def)

text \<open>The recorder agrees with the wire below it.\<close>

definition agrees :: "responseRecorder \<Rightarrow> wire \<Rightarrow> bool" where
  "agrees r x \<longleftrightarrow> wr_status x = (if rec_wroteHeader r then Some (rec_status r) else None)
     \<and> (\<not> rec_wroteHeader r \<longrightarrow> rec_status r = 200)"

lemma record_call_wire:
  assumes "record_call f c r = (out, r1)" "agrees r x" "c = Flush \<longrightarrow> f"
  shows "fold wire_call out x = wire_call c x" "agrees r1 (wire_call c x)"
  using assms
  by (cases c; auto simp: rec_WriteHeader_def rec_Write_def rec_flush_def agrees_def wire_header_def Let_def split: if_splits)+

lemma record_calls_wire:
  assumes "record_calls f cs r = (out, r1)" "agrees r x" "Flush \<in> set cs \<Longrightarrow> f"
  shows "fold wire_call out x = fold wire_call cs x \<and> agrees r1 (fold wire_call cs x)"
  using assms
proof (induction cs arbitrary: r x out r1)
  case (Cons c cs)
  obtain o1 r2 where c: "record_call f c r = (o1, r2)" by fastforce
  obtain o2 r3 where cs: "record_calls f cs r2 = (o2, r3)" by fastforce
  have e: "out = o1 @ o2" "r1 = r3" using Cons.prems(1) by (simp_all add: c cs)
  have f: "c = Flush \<longrightarrow> f" using Cons.prems(3) by auto
  note w = record_call_wire [OF c Cons.prems(2) f]
  have "fold wire_call o2 (wire_call c x) = fold wire_call cs (wire_call c x) \<and> agrees r3 (fold wire_call cs (wire_call c x))"
    by (rule Cons.IH [OF cs w(2)]) (use Cons.prems(3) in auto)
  then show ?case by (simp add: e w(1))
qed simp

lemma record_call_bytes:
  assumes "record_call f c r = (out, r1)" "\<And>code. c = WriteHeader code \<Longrightarrow> bodyAllowed code"
    "bodyAllowed (rec_status r)"
  shows "rec_bytes r1 = rec_bytes r + length (writes_of [c])" "bodyAllowed (rec_status r1)"
  using assms
  by (cases c; auto simp: rec_WriteHeader_def rec_Write_def rec_flush_def bodyAllowed_def split: if_splits)+

end
