(* ===== verification/Go_Mux.thy ===== *)
theory Go_Mux
  imports Go_Http Go_Url
begin

text \<open>
  The parts of \<open>net/http\<close> the router uses: \<open>Error\<close>, \<open>NotFound\<close>, \<open>Redirect\<close>, and \<open>ServeMux\<close>
  (Go 1.22) for patterns of the form \<open>METHOD /literal/{wildcard}\<close> without hosts, trailing
  slashes or \<open>...\<close> wildcards. When two patterns match a request the more specific one wins; the
  model takes the first, and the tables it serves have at most one (shown for the gateway's).
  Requests are HTTP/1.1 or later.
\<close>

definition http_Error :: "string \<Rightarrow> int \<Rightarrow> wcall list" where
  "http_Error msg code =
     [SetHeader ''Content-Type'' ''text/plain; charset=utf-8'', SetHeader ''X-Content-Type-Options'' ''nosniff'',
      WriteHeader code, Write (msg @ [char_of_byte 10])]"

definition NotFound :: "wcall list" where
  "NotFound = http_Error ''404 page not found'' 404"

section \<open>Redirects\<close>

definition html_char :: "char \<Rightarrow> string" where
  "html_char c =
     (if c = CHR ''&'' then ''&amp;'' else if c = CHR ''<'' then ''&lt;'' else if c = CHR ''>'' then ''&gt;''
      else if c = CHR 0x22 then ''&#34;'' else if c = CHR 0x27 then ''&#39;'' else [c])"

definition htmlEscape :: "string \<Rightarrow> string" where
  "htmlEscape s = concat (map html_char s)"

text \<open>\<open>Redirect\<close> of a handler that set no content type, to a clean rooted path with a query.\<close>

definition Redirect :: "string \<Rightarrow> string \<Rightarrow> wcall list" where
  "Redirect meth url =
     [SetHeader ''Location'' url]
     @ (if meth = ''GET'' \<or> meth = ''HEAD'' then [SetHeader ''Content-Type'' ''text/html; charset=utf-8''] else [])
     @ [WriteHeader 301]
     @ (if meth = ''GET''
        then [Write (''<a href='' @ [CHR 0x22] @ htmlEscape url @ [CHR 0x22] @ ''>Moved Permanently</a>.''
                @ [char_of_byte 10, char_of_byte 10])]
        else [])"

section \<open>Paths\<close>

fun Join :: "string \<Rightarrow> string list \<Rightarrow> string" where
  "Join sep [] = []"
| "Join sep [s] = s"
| "Join sep (s # t # ss) = s @ sep @ Join sep (t # ss)"

text \<open>\<open>path.Clean\<close> of a rooted path, on its elements: a stack, the last element on top.\<close>

fun clean_elems :: "string list \<Rightarrow> string list \<Rightarrow> string list" where
  "clean_elems st [] = rev st"
| "clean_elems st (e # es) =
     clean_elems (if e = [] \<or> e = ''.'' then st else if e = ''..'' then tl st else e # st) es"

definition path_Clean :: "string \<Rightarrow> string" where
  "path_Clean p = CHR ''/'' # Join ''/'' (clean_elems [] (SplitChar CHR ''/'' p))"

definition cleanPath :: "string \<Rightarrow> string" where
  "cleanPath p =
     (if p = [] then ''/''
      else let q = (if hd p = CHR ''/'' then p else CHR ''/'' # p);
               np = path_Clean q
           in if last q = CHR ''/'' \<and> np \<noteq> ''/'' then np @ ''/'' else np)"

section \<open>Patterns\<close>

datatype seg = Lit string | Wild string

definition seg_of :: "string \<Rightarrow> seg" where
  "seg_of s = (if HasPrefix s ''{'' \<and> HasSuffix s ''}'' then Wild (butlast (tl s)) else Lit s)"

definition parse_pattern :: "string \<Rightarrow> string \<times> seg list" where
  "parse_pattern pat =
     (case CutChar CHR '' '' pat of (meth, rest) \<Rightarrow> (meth, map seg_of (SplitChar CHR ''/'' (tl (opt_text rest)))))"

text \<open>The segments of a path, unescaped where that works; a final slash is a segment of its own.\<close>

definition path_segment :: "string \<Rightarrow> string" where
  "path_segment s = (if s = [] then ''/'' else case url_unescape encodePath s of None \<Rightarrow> s | Some t \<Rightarrow> t)"

definition path_segments :: "string \<Rightarrow> string list" where
  "path_segments p = map path_segment (SplitChar CHR ''/'' (tl p))"

fun match_segs :: "seg list \<Rightarrow> string list \<Rightarrow> (string \<times> string) list option" where
  "match_segs [] [] = Some []"
| "match_segs (Lit l # ps) (s # ss) = (if s = l then match_segs ps ss else None)"
| "match_segs (Wild n # ps) (s # ss) = (if s = ''/'' then None else map_option (Cons (n, s)) (match_segs ps ss))"
| "match_segs _ _ = None"

definition method_ok :: "string \<Rightarrow> string \<Rightarrow> bool" where
  "method_ok pm m \<longleftrightarrow> m = pm \<or> (m = ''HEAD'' \<and> pm = ''GET'')"

definition match_pattern :: "string \<Rightarrow> string \<Rightarrow> string \<Rightarrow> (string \<times> string) list option" where
  "match_pattern pat meth path =
     (case parse_pattern pat of (pm, segs) \<Rightarrow> if method_ok pm meth then match_segs segs (path_segments path) else None)"

section \<open>The multiplexer\<close>

type_synonym ('c, 'w) mux = "(string \<times> ('c, 'w) handler) list"

fun mux_find :: "('c, 'w) mux \<Rightarrow> string \<Rightarrow> string \<Rightarrow> (('c, 'w) handler \<times> (string \<times> string) list) option" where
  "mux_find [] meth path = None"
| "mux_find ((pat, h) # m) meth path =
     (case match_pattern pat meth path of Some vs \<Rightarrow> Some (h, vs) | None \<Rightarrow> mux_find m meth path)"

text \<open>The methods some pattern of the path has, sorted.\<close>

definition matchingMethods :: "('c, 'w) mux \<Rightarrow> string \<Rightarrow> string list" where
  "matchingMethods m path =
     (let ms = [pm. (pat, _) \<leftarrow> m, (pm, segs) \<leftarrow> [parse_pattern pat], match_segs segs (path_segments path) \<noteq> None]
      in sort (remdups (ms @ (if ''GET'' \<in> set ms then [''HEAD''] else []))))"

definition mux_path :: "'c request \<Rightarrow> string" where
  "mux_path r = (if rq_method r = ''CONNECT'' then rq_escaped r else cleanPath (rq_escaped r))"

definition with_values :: "(string \<times> string) list \<Rightarrow> 'c request \<Rightarrow> 'c request" where
  "with_values vs r =
     r\<lparr>rq_path_value := (\<lambda>n. case map_of vs n of Some v \<Rightarrow> v | None \<Rightarrow> rq_path_value r n)\<rparr>"

definition ServeMux :: "('c, 'w) mux \<Rightarrow> ('c, 'w) handler" where
  "ServeMux m = (\<lambda>r w.
     if rq_escaped r = ''*'' then ([SetHeader ''Connection'' ''close'', WriteHeader 400], Returned, w)
     else if mux_path r \<noteq> rq_escaped r
     then (Redirect (rq_method r) (URL_String (URL0\<lparr>url_Path := mux_path r, url_RawQuery := rq_query r\<rparr>)), Returned, w)
     else case mux_find m (rq_method r) (mux_path r) of
       Some (h, vs) \<Rightarrow> h (with_values vs r) w
     | None \<Rightarrow>
         (let allowed = matchingMethods m (mux_path r)
          in if allowed \<noteq> [] then (SetHeader ''Allow'' (Join '', '' allowed) # http_Error ''Method Not Allowed'' 405, Returned, w)
             else (NotFound, Returned, w)))"

lemma mux_find_Some:
  "mux_find m meth path = Some (h, vs) \<Longrightarrow> \<exists>pat. (pat, h) \<in> set m \<and> match_pattern pat meth path = Some vs"
  by (induction m meth path rule: mux_find.induct) (auto split: option.splits)

lemma mux_find_None: "mux_find m meth path = None \<Longrightarrow> (pat, h) \<in> set m \<Longrightarrow> match_pattern pat meth path = None"
  by (induction m meth path rule: mux_find.induct) (auto split: option.splits)

text \<open>
  What the multiplexer answers itself leaves the world alone; everything else is a handler of the
  table, run on the request with the values of its pattern.
\<close>

lemma status_Redirect [simp]: "status_of (Redirect meth u) = 301"
  using status_of_first [of "[SetHeader ''Location'' u]
    @ (if meth = ''GET'' \<or> meth = ''HEAD'' then [SetHeader ''Content-Type'' ''text/html; charset=utf-8''] else [])" 301]
  by (simp add: Redirect_def)

lemma status_http_Error [simp]:
  "status_of (http_Error msg code) = code" "status_of (SetHeader k v # http_Error msg code) = code"
  using status_of_first [of "[SetHeader ''Content-Type'' ''text/plain; charset=utf-8'', SetHeader ''X-Content-Type-Options'' ''nosniff'']" code]
    status_of_first [of "[SetHeader k v, SetHeader ''Content-Type'' ''text/plain; charset=utf-8'',
      SetHeader ''X-Content-Type-Options'' ''nosniff'']" code]
  by (simp_all add: http_Error_def)

lemma ServeMux_own:
  assumes "\<not> (rq_escaped r \<noteq> ''*'' \<and> mux_path r = rq_escaped r \<and> mux_find m (rq_method r) (mux_path r) \<noteq> None)"
  shows "\<exists>cs. ServeMux m r w = (cs, Returned, w) \<and> status_of cs \<in> {301, 400, 404, 405}"
proof -
  have "status_of [SetHeader ''Connection'' ''close'', WriteHeader 400] = 400"
    using status_of_first [of "[SetHeader ''Connection'' ''close'']" 400 "[]"] by simp
  with assms show ?thesis
    by (cases "mux_find m (rq_method r) (mux_path r)") (auto simp: ServeMux_def NotFound_def Let_def)
qed

lemma ServeMux_cases:
  obtains (own) cs where "ServeMux m r w = (cs, Returned, w)" "status_of cs \<in> {301, 400, 404, 405}"
    | (routed) pat h vs where "(pat, h) \<in> set m" "match_pattern pat (rq_method r) (rq_escaped r) = Some vs"
        "ServeMux m r w = h (with_values vs r) w"
proof (cases "rq_escaped r \<noteq> ''*'' \<and> mux_path r = rq_escaped r \<and> mux_find m (rq_method r) (mux_path r) \<noteq> None")
  case False
  then show ?thesis using ServeMux_own [of r m w] own by blast
next
  case True
  then obtain h vs where "mux_find m (rq_method r) (mux_path r) = Some (h, vs)" by auto
  with True mux_find_Some [of m "rq_method r" "mux_path r" h vs] show ?thesis
    by (auto simp: ServeMux_def intro: routed)
qed

section \<open>Tables without conflicts\<close>

text \<open>Two patterns no request matches: other methods, or other literals at the same place.\<close>

definition lits_differ :: "seg \<Rightarrow> seg \<Rightarrow> bool" where
  "lits_differ p q \<longleftrightarrow> (case (p, q) of (Lit a, Lit b) \<Rightarrow> a \<noteq> b | _ \<Rightarrow> False)"

definition apart :: "string \<times> seg list \<Rightarrow> string \<times> seg list \<Rightarrow> bool" where
  "apart p q \<longleftrightarrow> (fst p \<noteq> fst q \<and> {fst p, fst q} \<noteq> {''GET'', ''HEAD''}) \<or>
     length (snd p) \<noteq> length (snd q) \<or> list_ex (\<lambda>(a, b). lits_differ a b) (zip (snd p) (snd q))"

lemma match_segs_agree:
  "match_segs ps ss = Some vs \<Longrightarrow> list_all2 (\<lambda>p s. case p of Lit l \<Rightarrow> s = l | Wild _ \<Rightarrow> True) ps ss"
  by (induction ps ss arbitrary: vs rule: match_segs.induct) (auto split: if_splits)

lemma apart_match:
  assumes "apart (parse_pattern p) (parse_pattern q)"
  shows "match_pattern p meth path = None \<or> match_pattern q meth path = None"
proof (rule ccontr)
  assume n: "\<not> ?thesis"
  obtain m ps n qs where p: "parse_pattern p = (m, ps)" "parse_pattern q = (n, qs)" by fastforce
  from n p have ok: "method_ok m meth" "method_ok n meth"
    and ag: "list_all2 (\<lambda>p s. case p of Lit l \<Rightarrow> s = l | Wild _ \<Rightarrow> True) ps (path_segments path)"
      "list_all2 (\<lambda>p s. case p of Lit l \<Rightarrow> s = l | Wild _ \<Rightarrow> True) qs (path_segments path)"
    by (auto simp: match_pattern_def split: if_splits dest: match_segs_agree)
  have "m = n \<or> {m, n} = {''GET'', ''HEAD''}" using ok by (auto simp: method_ok_def)
  moreover have "length ps = length qs" using ag by (simp add: list_all2_lengthD)
  moreover have "\<not> lits_differ (ps ! i) (qs ! i)" if "i < length ps" for i
    using list_all2_nthD [OF ag(1) that] list_all2_nthD [OF ag(2), of i] that \<open>length ps = length qs\<close>
    by (auto simp: lits_differ_def split: seg.splits)
  moreover have "\<exists>i < length ps. lits_differ (ps ! i) (qs ! i)" if "list_ex (\<lambda>(a, b). lits_differ a b) (zip ps qs)"
    using that by (auto simp: list_ex_iff set_zip)
  ultimately show False
    using assms unfolding apart_def p fst_conv snd_conv by blast
qed

text \<open>With such a table the order of registration does not matter: the one match is found.\<close>

lemma mux_find_apart:
  "sorted_wrt apart (map (\<lambda>e. parse_pattern (fst e)) m) \<Longrightarrow> (pat, h) \<in> set m \<Longrightarrow>
   match_pattern pat meth path = Some vs \<Longrightarrow> mux_find m meth path = Some (h, vs)"
proof (induction m)
  case (Cons e m)
  obtain p g where e: "e = (p, g)" by (cases e)
  show ?case
  proof (cases "(pat, h) = (p, g)")
    case False
    then have i: "(pat, h) \<in> set m" using Cons.prems(2) e by auto
    then have "apart (parse_pattern p) (parse_pattern pat)" using Cons.prems(1) e by fastforce
    then have "match_pattern p meth path = None" using apart_match [of p pat meth path] Cons.prems(3) by simp
    then show ?thesis using Cons i e by simp
  qed (use Cons.prems e in simp)
qed simp

end
