(* ===== verification/Httpserver.thy ===== *)
theory Httpserver
  imports Log_Middleware Go_Mux
begin

text \<open>
  \<open>backend/internal/httpserver/\<close>: cors.go, recover.go, router.go and server.go. A middleware is a
  function on handlers; \<open>Router_Handler\<close> composes the chain every request goes through.
\<close>

section \<open>cors.go\<close>

definition corsAllowedMethods :: string where "corsAllowedMethods = ''GET, POST, PUT, PATCH, DELETE, OPTIONS''"
definition corsDefaultAllowedHeaders :: string where "corsDefaultAllowedHeaders = ''Content-Type, Authorization''"

definition isPreflight :: "'c request \<Rightarrow> bool" where
  "isPreflight r \<longleftrightarrow> rq_method r = ''OPTIONS'' \<and> header_get r ''Access-Control-Request-Method'' \<noteq> []"

definition preflight_grant :: "'c request \<Rightarrow> wcall list" where
  "preflight_grant r =
     [SetHeader ''Access-Control-Allow-Methods'' corsAllowedMethods,
      SetHeader ''Access-Control-Allow-Headers''
        (let reqHeaders = header_get r ''Access-Control-Request-Headers''
         in if reqHeaders \<noteq> [] then reqHeaders else corsDefaultAllowedHeaders),
      SetHeader ''Access-Control-Max-Age'' ''600'']"

definition cors_headers :: "string list \<Rightarrow> 'c request \<Rightarrow> wcall list" where
  "cors_headers allowedOrigins r =
     (let origin = header_get r ''Origin''
      in if origin = [] then []
         else AddHeader ''Vary'' ''Origin''
           # (if origin \<in> set allowedOrigins then
                [SetHeader ''Access-Control-Allow-Origin'' origin,
                 SetHeader ''Access-Control-Allow-Credentials'' ''true'']
                @ (if isPreflight r then preflight_grant r else [])
              else []))"

definition CORS :: "string list \<Rightarrow> ('c, 'w) handler \<Rightarrow> ('c, 'w) handler" where
  "CORS allowedOrigins next = (\<lambda>r w.
     if isPreflight r then (cors_headers allowedOrigins r @ [WriteHeader 204], Returned, w)
     else case next r w of (cs, ex, w1) \<Rightarrow> (cors_headers allowedOrigins r @ cs, ex, w1))"

section \<open>recover.go\<close>

text \<open>
  Whether the response has begun is what the recorder of the logging middleware says, which has
  seen the calls of \<open>next\<close>; no layer before it commits a response. Without a recorder, no.
\<close>

definition responseStarted :: "'c request \<Rightarrow> wcall list \<Rightarrow> bool" where
  "responseStarted r cs \<longleftrightarrow>
     (if rq_statusWriter r
      then rec_Written (snd (record_calls (rq_flusher r) cs (fst (wrapResponseWriter (rq_flusher r) (rq_hijacker r)))))
      else False)"

text \<open>\<open>stack\<close> is the text of \<open>debug.Stack()\<close>. \<open>FromContext\<close> always gives a logger.\<close>

definition Recoverer :: "Logger option \<Rightarrow> string \<Rightarrow> (ctx, 'a env_scheme) handler \<Rightarrow> (ctx, 'a env_scheme) handler" where
  "Recoverer base stack next = (\<lambda>r w.
     case next r w of (cs, ex, w1) \<Rightarrow>
       (case ex of
          Returned \<Rightarrow> (cs, Returned, w1)
        | Aborted \<Rightarrow> (cs, Aborted, w1)
        | Panicked rv \<Rightarrow>
            (let w2 = LogAttrs (FromContext (rq_ctx r) w1) LevelError ''panic recovered''
                        [(''panic'', LStr rv), (''stack'', LStr stack)] w1
             in (cs @ (if responseStarted r cs then [] else http_Error ''internal server error'' 500), Returned, w2))))"

section \<open>router.go\<close>

definition Version :: string where "Version = ''0.0.0-dev''"

text \<open>The default; release builds replace it when they link.\<close>

definition version_String :: string where "version_String = Version"

record 'w Router =
  rt_mux :: "(ctx, 'w) mux"
  rt_cfg :: Config
  rt_logger :: Logger

definition Router_Handle :: "'w Router \<Rightarrow> string \<Rightarrow> (ctx, 'w) handler \<Rightarrow> 'w Router" where
  "Router_Handle r pattern h = r\<lparr>rt_mux := rt_mux r @ [(pattern, h)]\<rparr>"

definition versionHandler :: "(ctx, 'w) handler" where
  "versionHandler = (\<lambda>r w. (writeJSON 200 (JObj [(''version'', JStr version_String)]), Returned, w))"

definition NewRouter :: "Config \<Rightarrow> Logger option \<Rightarrow> 'w Router" where
  "NewRouter cfg logger =
     Router_Handle \<lparr>rt_mux = [], rt_cfg = cfg, rt_logger = (case logger of None \<Rightarrow> log_New cfg | Some l \<Rightarrow> l)\<rparr>
       ''GET /version'' versionHandler"

text \<open>\<open>Chain(h, a, b, c) = a(b(c(h)))\<close>: the loop from the last middleware to the first.\<close>

definition Chain :: "'h \<Rightarrow> ('h \<Rightarrow> 'h) list \<Rightarrow> 'h" where
  "Chain h mw = fold (\<lambda>m h. m h) (rev mw) h"

definition Router_Handler :: "string \<Rightarrow> 'a env_scheme Router \<Rightarrow> (ctx, 'a env_scheme) handler" where
  "Router_Handler stack r =
     Chain (ServeMux (rt_mux r))
       [Middleware (Some (rt_logger r)), CORS (cfg_CORSAllowedOrigins (rt_cfg r)), Recoverer (Some (rt_logger r)) stack]"

section \<open>server.go\<close>

definition readHeaderTimeout :: int where "readHeaderTimeout = 10 * 1000000000"
definition readTimeout :: int where "readTimeout = 60 * 1000000000"
definition idleTimeout :: int where "idleTimeout = 120 * 1000000000"

text \<open>The fields of \<open>http.Server\<close> the program sets, and the one it leaves at zero, no limit.\<close>

record 'h http_Server =
  srv_Addr :: string
  srv_Handler :: 'h
  srv_ReadHeaderTimeout :: int
  srv_ReadTimeout :: int
  srv_WriteTimeout :: int
  srv_IdleTimeout :: int

definition server_New :: "Config \<Rightarrow> 'h \<Rightarrow> 'h http_Server" where
  "server_New cfg handler =
     (let addr = (if cfg_ListenAddr cfg = [] then '':8080'' else cfg_ListenAddr cfg)
      in \<lparr>srv_Addr = addr, srv_Handler = handler, srv_ReadHeaderTimeout = readHeaderTimeout,
          srv_ReadTimeout = readTimeout, srv_WriteTimeout = 0, srv_IdleTimeout = idleTimeout\<rparr>)"

section \<open>The chain\<close>

lemma Chain_simps [simp]: "Chain h [] = h" "Chain h (m # ms) = m (Chain h ms)"
  by (simp_all add: Chain_def)

lemma Router_Handler_eq:
  "Router_Handler stack r =
     Middleware (Some (rt_logger r)) (CORS (cfg_CORSAllowedOrigins (rt_cfg r))
       (Recoverer (Some (rt_logger r)) stack (ServeMux (rt_mux r))))"
  by (simp add: Router_Handler_def)

lemma cors_headers_quiet: "c \<in> set (cors_headers os r) \<Longrightarrow> \<not> sets_status c"
  by (auto simp: cors_headers_def preflight_grant_def Let_def split: if_splits)

text \<open>The allowlist is not screened: one that lists \<open>*\<close> grants that origin, with credentials.\<close>

lemma star_is_an_origin:
  assumes "header_get r ''Origin'' = ''*''" "''*'' \<in> set allowed"
  shows "SetHeader ''Access-Control-Allow-Origin'' ''*'' \<in> set (cors_headers allowed r)"
    "SetHeader ''Access-Control-Allow-Credentials'' ''true'' \<in> set (cors_headers allowed r)"
  using assms by (simp_all add: cors_headers_def)

text \<open>The request the middleware hands on: a new writer and a new context.\<close>

definition rewrapped :: "'c request \<Rightarrow> 'c \<Rightarrow> 'c request" where
  "rewrapped r c = r\<lparr>rq_statusWriter := True, rq_ctx := c\<rparr>"

lemma rewrapped_simps [simp]:
  "header_get (rewrapped r c) k = header_get r k" "isPreflight (rewrapped r c) = isPreflight r"
  "rq_ctx (rewrapped r c) = c" "rq_flusher (rewrapped r c) = rq_flusher r" "rq_statusWriter (rewrapped r c)"
  "rq_hijacker (rewrapped r c) = rq_hijacker r" "rq_method (rewrapped r c) = rq_method r"
  by (simp_all add: rewrapped_def header_get_def isPreflight_def)

lemma preflight_grant_rewrapped [simp]: "preflight_grant (rewrapped r c) = preflight_grant r"
  by (simp add: preflight_grant_def)

lemma cors_headers_rewrapped [simp]: "cors_headers os (rewrapped r c) = cors_headers os r"
  by (simp add: cors_headers_def cong: if_cong)

lemma Middleware_rewraps:
  "r\<lparr>rq_flusher := rq_flusher r, rq_hijacker := rq_hijacker r, rq_statusWriter := True, rq_ctx := c\<rparr> = rewrapped r c"
  by (simp add: rewrapped_def)

end
