(* ===== verification/Health.thy ===== *)
theory Health
  imports Httpserver
begin

text \<open>
  \<open>backend/internal/httpserver/health.go\<close> and httpserver.go: liveness, readiness over a database
  ping and an upstream probe, and the scaffold's mux. A ping is one database round trip; the
  bound on a check is part of what may happen to it, not a clock of its own.
\<close>

type_synonym 'w Pinger = "'w \<Rightarrow> (pgerr, unit) result \<times> 'w"

datatype probe_error = probe_BadURL | probe_Failed | probe_Status int

type_synonym 'w probe = "'w \<Rightarrow> (probe_error, unit) result \<times> 'w"

record 'w HealthDeps =
  hd_DB :: "'w Pinger option"
  hd_VLLMProbe :: "'w probe option"
  hd_Version :: string
  hd_Timeout :: int

definition pool_Ping :: "'a env_scheme Pinger" where
  "pool_Ping = pg_exec (\<lambda>w. (Inr (), w))"

definition livenessHandler :: "string \<Rightarrow> (ctx, 'w) handler" where
  "livenessHandler vers = (\<lambda>r w. (writeJSON 200 (JObj [(''status'', JStr ''ok''), (''version'', JStr vers)]), Returned, w))"

text \<open>The three parts of the readiness answer.\<close>

definition check_postgres :: "'w HealthDeps \<Rightarrow> 'w \<Rightarrow> string \<times> bool \<times> 'w" where
  "check_postgres deps w =
     (case hd_DB deps of
        None \<Rightarrow> (''unconfigured'', False, w)
      | Some ping \<Rightarrow>
          (case ping w of
             (Inl _, w1) \<Rightarrow> (''unreachable'', False, w1)
           | (Inr _, w1) \<Rightarrow> (''ok'', True, w1)))"

definition check_vllm :: "'w HealthDeps \<Rightarrow> 'w \<Rightarrow> string \<times> 'w" where
  "check_vllm deps w =
     (case hd_VLLMProbe deps of
        None \<Rightarrow> (''skipped'', w)
      | Some probe \<Rightarrow>
          (case probe w of
             (Inl _, w1) \<Rightarrow> (''unreachable'', w1)
           | (Inr _, w1) \<Rightarrow> (''ok'', w1)))"

definition ready_json :: "bool \<Rightarrow> string \<Rightarrow> string \<Rightarrow> string \<Rightarrow> json" where
  "ready_json ready pg vllm vers = JObj
     [(''checks'', JObj [(''postgres'', JStr pg), (''vllm'', JStr vllm)]),
      (''status'', JStr (if ready then ''ready'' else ''not_ready'')), (''version'', JStr vers)]"

definition readinessHandler :: "'w HealthDeps \<Rightarrow> (ctx, 'w) handler" where
  "readinessHandler deps = (\<lambda>r w.
     case check_postgres deps w of (pg, ready, w1) \<Rightarrow>
     case check_vllm deps w1 of (vllm, w2) \<Rightarrow>
       (writeJSON (if ready then 200 else 503) (ready_json ready pg vllm (hd_Version deps)), Returned, w2))"

definition RegisterHealth :: "'w Router \<Rightarrow> 'w HealthDeps \<Rightarrow> 'w Router" where
  "RegisterHealth r deps0 =
     (let deps = (if hd_Timeout deps0 \<le> 0 then deps0\<lparr>hd_Timeout := 2 * 1000000000\<rparr> else deps0)
      in Router_Handle (Router_Handle r ''GET /healthz'' (livenessHandler (hd_Version deps)))
           ''GET /readyz'' (readinessHandler deps))"

text \<open>The probe reads at most a kilobyte of the body and ignores how that ends.\<close>

definition NewVLLMProbe :: "string \<Rightarrow> 'a env_scheme probe" where
  "NewVLLMProbe vllmURL =
     (let target = TrimRight vllmURL ''/'' @ ''/health''
      in (\<lambda>w. if \<not> url_ok w target then (Inl probe_BadURL, w)
              else case http_do \<lparr>out_method = ''GET'', out_url = target, out_headers = [], out_body = []\<rparr> w of
                (NetErr, w1) \<Rightarrow> (Inl probe_Failed, w1)
              | (NetResp resp, w1) \<Rightarrow>
                  if in_status resp < 200 \<or> in_status resp \<ge> 300 then (Inl (probe_Status (in_status resp)), w1)
                  else (Inr (), w1)))"

section \<open>httpserver.go\<close>

definition Config0 :: Config where
  "Config0 = \<lparr>cfg_Env = [], cfg_ListenAddr = [], cfg_LogLevel = [], cfg_DatabaseURL = [], cfg_AutoMigrate = False,
     cfg_VLLMURL = [], cfg_VLLMAPIKey = [], cfg_JWTSecret = [], cfg_CORSAllowedOrigins = [], cfg_ShutdownGrace = 0,
     cfg_LoginRateLimit = \<lparr>RequestsPerMinute = 0, Burst = 0\<rparr>, cfg_GatewayRateLimit = \<lparr>RequestsPerMinute = 0, Burst = 0\<rparr>\<rparr>"

definition NewMux :: "string \<Rightarrow> (ctx, 'a env_scheme) handler" where
  "NewMux stack =
     (let logger = log_New (Config0\<lparr>cfg_Env := ''development''\<rparr>);
          r = NewRouter Config0 (Some logger);
          r1 = RegisterHealth r \<lparr>hd_DB = None, hd_VLLMProbe = None, hd_Version = version_String, hd_Timeout = 0\<rparr>
      in Router_Handler stack r1)"

end
