(* ===== verification/Db_Pool.thy ===== *)
theory Db_Pool
  imports Health
begin

text \<open>
  \<open>backend/internal/db/pool.go\<close>: the configuration of the connection pool and its opening. The
  driver is a parameter: \<open>pgx_ParseConfig\<close> reads a DSN, \<open>pgx_NewWithConfig\<close> says whether a pool
  can be made. What a process holds beside the database is \<open>proc\<close>: its open pools and what it has
  printed.
\<close>

record pool_config =
  pc_MaxConns :: int
  pc_MinConns :: int
  pc_MaxConnLifetime :: int
  pc_MaxConnIdleTime :: int
  pc_HealthCheckPeriod :: int

record pgx =
  pgx_ParseConfig :: "string \<Rightarrow> pool_config option"
  pgx_NewWithConfig :: "pool_config \<Rightarrow> bool"

record proc =
  pr_pools :: nat
  pr_stdout :: "string list"

datatype db_error = db_empty_url | db_invalid_url | db_creating_pool | db_connectivity pgerr

definition defaultMaxConns :: int where "defaultMaxConns = 10"
definition defaultMinConns :: int where "defaultMinConns = 0"
definition defaultMaxConnLifetime :: int where "defaultMaxConnLifetime = 30 * 60 * 1000000000"
definition defaultMaxConnIdleTime :: int where "defaultMaxConnIdleTime = 5 * 60 * 1000000000"
definition defaultHealthCheck :: int where "defaultHealthCheck = 60 * 1000000000"
definition defaultConnectTimeout :: int where "defaultConnectTimeout = 5 * 1000000000"

definition buildPoolConfig :: "pgx \<Rightarrow> string \<Rightarrow> (db_error, pool_config) result" where
  "buildPoolConfig X dsn =
     (if TrimSpace dsn = [] then Inl db_empty_url
      else case pgx_ParseConfig X dsn of
        None \<Rightarrow> Inl db_invalid_url
      | Some cfg \<Rightarrow>
          (let low = ToLower dsn;
               c1 = (if Contains low ''pool_max_conns'' then cfg else cfg\<lparr>pc_MaxConns := defaultMaxConns\<rparr>);
               c2 = (if Contains low ''pool_min_conns'' then c1 else c1\<lparr>pc_MinConns := defaultMinConns\<rparr>);
               c3 = (if Contains low ''pool_max_conn_lifetime'' then c2 else c2\<lparr>pc_MaxConnLifetime := defaultMaxConnLifetime\<rparr>);
               c4 = (if Contains low ''pool_max_conn_idle_time'' then c3 else c3\<lparr>pc_MaxConnIdleTime := defaultMaxConnIdleTime\<rparr>);
               c5 = (if Contains low ''pool_health_check_period'' then c4 else c4\<lparr>pc_HealthCheckPeriod := defaultHealthCheck\<rparr>)
           in Inr c5))"

text \<open>A context is its deadline, if it has one.\<close>

definition connectivityContext :: "int option \<Rightarrow> int \<Rightarrow> int option" where
  "connectivityContext deadline t = (case deadline of Some d \<Rightarrow> Some d | None \<Rightarrow> Some (t + defaultConnectTimeout))"

text \<open>
  The ping is one round trip under the bounded context. A context that is over when the ping
  starts lets none happen; one that ends meanwhile is one of the fates of the round trip.
\<close>

definition Ping_within :: "int option \<Rightarrow> 'a env_scheme \<Rightarrow> (pgerr, unit) result \<times> 'a env_scheme" where
  "Ping_within deadline w =
     (case now w of (t, w1) \<Rightarrow>
        if (case deadline of None \<Rightarrow> False | Some d \<Rightarrow> d \<le> t) then (Inl ConnErr, w1) else pool_Ping w1)"

definition pool_Close :: "proc \<Rightarrow> proc" where
  "pool_Close p = p\<lparr>pr_pools := pr_pools p - 1\<rparr>"

definition db_New :: "pgx \<Rightarrow> int option \<Rightarrow> Config \<Rightarrow> proc \<Rightarrow> 'a env_scheme \<Rightarrow> (db_error, pool_config) result \<times> proc \<times> 'a env_scheme" where
  "db_New X ctx cfg p w =
     (case buildPoolConfig X (cfg_DatabaseURL cfg) of
        Inl e \<Rightarrow> (Inl e, p, w)
      | Inr poolCfg \<Rightarrow>
          if \<not> pgx_NewWithConfig X poolCfg then (Inl db_creating_pool, p, w)
          else let p1 = p\<lparr>pr_pools := Suc (pr_pools p)\<rparr>
          in case now w of (t, w1) \<Rightarrow>
             (case Ping_within (connectivityContext ctx t) w1 of
                (Inl e, w2) \<Rightarrow> (Inl (db_connectivity e), pool_Close p1, w2)
              | (Inr _, w2) \<Rightarrow> (Inr poolCfg, p1, w2)))"

text \<open>Success leaves one more pool open, failure none.\<close>

lemma db_New_pools:
  "db_New X ctx cfg p w = (r, p', w') \<Longrightarrow> pr_pools p' = pr_pools p + (case r of Inl _ \<Rightarrow> 0 | Inr _ \<Rightarrow> 1)"
  by (auto simp: db_New_def pool_Close_def Let_def split: sum.splits if_splits prod.splits)

text \<open>What neither the clock nor the schedule of faults bears on is as it was.\<close>

lemma db_New_keeps:
  assumes "\<And>w. f (snd (now w)) = f w" "\<And>w os. f (w\<lparr>outcomes := os\<rparr>) = f w" "db_New X ctx cfg p w = (r, p', w')"
  shows "f w' = f w"
proof -
  have ping: "f (snd (pool_Ping v)) = f v" for v
    unfolding pool_Ping_def by (rule pg_exec_keeps) (simp_all add: assms(2))
  have within: "f (snd (Ping_within d v)) = f v" for d v
    using ping [of "snd (now v)"] assms(1) [of v] by (cases "now v") (simp add: Ping_within_def)
  have "w' \<in> {w} \<union> {snd (Ping_within d (snd (now w))) | d. True}"
    using assms(3) by (auto simp: db_New_def Let_def split: sum.splits if_splits prod.splits) (metis snd_conv)+
  then show ?thesis using within assms(1) by auto
qed

text \<open>
  The test for an explicit parameter is a substring test: a DSN that only sets the jitter of the
  lifetime keeps the driver's lifetime, not the gateway's default.
\<close>

lemma jitter_suppresses_lifetime:
  assumes "pgx_ParseConfig X ''pool_max_conn_lifetime_jitter=1s'' = Some c"
  shows "buildPoolConfig X ''pool_max_conn_lifetime_jitter=1s'' =
    Inr (c\<lparr>pc_MaxConns := defaultMaxConns, pc_MinConns := defaultMinConns, pc_MaxConnIdleTime := defaultMaxConnIdleTime,
           pc_HealthCheckPeriod := defaultHealthCheck\<rparr>)"
proof -
  let ?d = "''pool_max_conn_lifetime_jitter=1s''"
  have "TrimSpace ?d \<noteq> []" "Contains (ToLower ?d) ''pool_max_conn_lifetime''" "\<not> Contains (ToLower ?d) ''pool_max_conns''"
    "\<not> Contains (ToLower ?d) ''pool_min_conns''" "\<not> Contains (ToLower ?d) ''pool_max_conn_idle_time''"
    "\<not> Contains (ToLower ?d) ''pool_health_check_period''"
    by code_simp+
  with assms show ?thesis by (simp add: buildPoolConfig_def Let_def)
qed

end
