(* ===== verification/Superuser.thy ===== *)
theory Superuser
  imports Db_Pool Password User_Repo
begin

text \<open>
  \<open>backend/cmd/createsuperuser/main.go\<close>: the command that makes the first account. \<open>net/mail\<close>'s
  address parser and the terminal are parameters; the flags are parsed by the rules of \<open>flag\<close>.
\<close>

datatype su_error =
    su_flags
  | su_email_required
  | su_invalid_email string
  | su_no_terminal
  | su_reading_password
  | su_config "config_error list"
  | su_db db_error
  | su_password password_error
  | su_user user_error
  | errUserExists

section \<open>Creating or updating the account\<close>

definition createSuperuser :: "bcrypt \<Rightarrow> string \<Rightarrow> string \<Rightarrow> bool \<Rightarrow> 'a users_db_scheme
    \<Rightarrow> (su_error, User \<times> bool) result \<times> 'a users_db_scheme" where
  "createSuperuser bc email password updatePassword w =
     (case HashPassword bc password w of
        (Inl e, w1) \<Rightarrow> (Inl (su_password e), w1)
      | (Inr hash, w1) \<Rightarrow>
          (case user_Create email hash True w1 of
             (Inr u, w2) \<Rightarrow> (Inr (u, True), w2)
           | (Inl e, w2) \<Rightarrow>
               if e = user_ErrEmailTaken then
                 (if \<not> updatePassword then (Inl errUserExists, w2)
                  else case user_GetByEmail email w2 of
                    (Inl g, w3) \<Rightarrow> (Inl (su_user g), w3)
                  | (Inr existing, w3) \<Rightarrow>
                      (case user_UpdatePassword (u_ID existing) hash w3 of
                         (Inl x, w4) \<Rightarrow> (Inl (su_user x), w4)
                       | (Inr updated, w4) \<Rightarrow> (Inr (updated, False), w4)))
               else (Inl (su_user e), w2)))"

section \<open>The command line\<close>

record su_flag_values =
  fl_email :: string
  fl_password :: string
  fl_update :: bool

text \<open>\<open>FlagSet.Parse\<close> for two string flags and a boolean one; \<open>None\<close> for its errors and help.\<close>

function parse_flags :: "string list \<Rightarrow> su_flag_values \<Rightarrow> su_flag_values option" where
  "parse_flags [] v = Some v"
| "parse_flags (s # args) v =
     (if length s < 2 \<or> hd s \<noteq> CHR ''-'' then Some v
      else if s = ''--'' then Some v
      else let body = (if s ! 1 = CHR ''-'' then drop 2 s else tl s)
      in if body = [] \<or> hd body = CHR ''-'' \<or> hd body = CHR ''='' then None
      else case CutChar CHR ''='' body of (name, val) \<Rightarrow>
        if name = ''update-password'' then
          (case val of
             None \<Rightarrow> parse_flags args (v\<lparr>fl_update := True\<rparr>)
           | Some x \<Rightarrow> (case ParseBool x of None \<Rightarrow> None | Some b \<Rightarrow> parse_flags args (v\<lparr>fl_update := b\<rparr>)))
        else if name = ''email'' \<or> name = ''password'' then
          (case (val, args) of
             (Some x, _) \<Rightarrow> parse_flags args (if name = ''email'' then v\<lparr>fl_email := x\<rparr> else v\<lparr>fl_password := x\<rparr>)
           | (None, x # rest) \<Rightarrow> parse_flags rest (if name = ''email'' then v\<lparr>fl_email := x\<rparr> else v\<lparr>fl_password := x\<rparr>)
           | (None, []) \<Rightarrow> None)
        else None)"
  by pat_completeness auto
termination by (relation "measure (\<lambda>(args, _). length args)") auto

definition firstNonEmpty :: "string list \<Rightarrow> string" where
  "firstNonEmpty vs = (case find (\<lambda>v. TrimSpace v \<noteq> []) vs of Some v \<Rightarrow> v | None \<Rightarrow> [])"

definition parseEmail :: "(string \<Rightarrow> string option) \<Rightarrow> string \<Rightarrow> (su_error, string) result" where
  "parseEmail ParseAddress raw0 =
     (let raw = TrimSpace raw0
      in if raw = [] then Inl su_email_required
         else case ParseAddress raw of None \<Rightarrow> Inl (su_invalid_email raw) | Some addr \<Rightarrow> Inr addr)"

text \<open>Standard input: no terminal, one that cannot be read, or the line typed.\<close>

datatype terminal = NoTerminal | ReadFails | Typed string

definition promptPassword :: "terminal \<Rightarrow> (su_error, string) result" where
  "promptPassword t = (case t of NoTerminal \<Rightarrow> Inl su_no_terminal | ReadFails \<Rightarrow> Inl su_reading_password | Typed s \<Rightarrow> Inr s)"

record su_env =
  sx_getenv :: environ
  sx_frac :: "nat \<Rightarrow> nat \<Rightarrow> nat \<Rightarrow> nat"
  sx_ParseAddress :: "string \<Rightarrow> string option"
  sx_terminal :: terminal
  sx_pgx :: pgx
  sx_bcrypt :: bcrypt

definition su_message :: "User \<Rightarrow> bool \<Rightarrow> string" where
  "su_message u created =
     (if created then ''created superuser '' else ''updated password for '') @ u_Email u @ '' ('' @ u_ID u @ '')''"

text \<open>The context has a deadline of 30 seconds; the pool is closed on every return.\<close>

definition su_run :: "su_env \<Rightarrow> string list \<Rightarrow> proc \<Rightarrow> 'a users_db_scheme \<Rightarrow> su_error option \<times> proc \<times> 'a users_db_scheme" where
  "su_run x args p w =
     (case parse_flags args \<lparr>fl_email = [], fl_password = [], fl_update = False\<rparr> of
        None \<Rightarrow> (Some su_flags, p, w)
      | Some fl \<Rightarrow>
      (case parseEmail (sx_ParseAddress x) (firstNonEmpty [fl_email fl, sx_getenv x ''SUPERUSER_EMAIL'']) of
        Inl e \<Rightarrow> (Some e, p, w)
      | Inr email \<Rightarrow>
      (case (let pw = firstNonEmpty [fl_password fl, sx_getenv x ''SUPERUSER_PASSWORD'']
             in if pw = [] then promptPassword (sx_terminal x) else Inr pw) of
        Inl e \<Rightarrow> (Some e, p, w)
      | Inr password \<Rightarrow>
      (case Load (sx_frac x) (sx_getenv x) of
        Inl es \<Rightarrow> (Some (su_config es), p, w)
      | Inr cfg \<Rightarrow>
      (case now w of (t, w0) \<Rightarrow>
      (case db_New (sx_pgx x) (Some (t + 30 * 1000000000)) cfg p w0 of
        (Inl e, p1, w1) \<Rightarrow> (Some (su_db e), p1, w1)
      | (Inr _, p1, w1) \<Rightarrow>
      (case createSuperuser (sx_bcrypt x) email password (fl_update fl) w1 of
        (Inl e, w2) \<Rightarrow> (Some e, pool_Close p1, w2)
      | (Inr (u, created), w2) \<Rightarrow>
          (None, pool_Close (p1\<lparr>pr_stdout := pr_stdout p1 @ [su_message u created]\<rparr>), w2))))))))"

text \<open>\<open>main\<close>: the exit status.\<close>

definition su_main :: "su_env \<Rightarrow> string list \<Rightarrow> proc \<Rightarrow> 'a users_db_scheme \<Rightarrow> int \<times> proc \<times> 'a users_db_scheme" where
  "su_main x args p w = (case su_run x args p w of (e, p1, w1) \<Rightarrow> (if e = None then 0 else 1, p1, w1))"

end
