(* ===== verification/Integrity.thy ===== *)
theory Integrity
  imports Gateway Admin_Keys Superuser
begin

text \<open>
  The database as a whole: the constraints between its tables, and what may become of its rows
  over time. \<open>lawful\<close> says both of a change of the world; every statement the program sends is
  lawful, and so is every operation built from them.
\<close>

section \<open>Integrity\<close>

text \<open>
  Ids are unique, references lead to rows, and no message has the system role. The credential a
  conversation belongs to is the one that may read it, so a dangling reference would be an orphan.
\<close>

definition integrity :: "'a usage_db_scheme \<Rightarrow> bool" where
  "integrity w \<longleftrightarrow>
     distinct (map u_ID (users w)) \<and> ids_unique (api_keys w) \<and> distinct (map cr_id (conversations w)) \<and>
     distinct (map sm_ID (messages w)) \<and> distinct (map us_id (gateway_usage w)) \<and>
     (\<forall>k \<in> set (api_keys w). \<forall>u. ak_CreatedBy k = Some u \<longrightarrow> u \<in> u_ID ` set (users w)) \<and>
     (\<forall>c \<in> set (conversations w). cr_api_key_id c \<in> ak_ID ` set (api_keys w)) \<and>
     (\<forall>m \<in> set (messages w). sm_ConversationID m \<in> cr_id ` set (conversations w) \<and> turn_role (sm_Role m)) \<and>
     (\<forall>u \<in> set (gateway_usage w). us_api_key_id u \<in> ak_ID ` set (api_keys w) \<and>
        (\<forall>c. us_conversation_id u = Some c \<longrightarrow> c \<in> cr_id ` set (conversations w)))"

text \<open>What of a session never changes.\<close>

definition session_row :: "conversation_row \<Rightarrow> string \<times> string \<times> string option \<times> int" where
  "session_row c = (cr_id c, cr_api_key_id c, cr_model c, cr_created_at c)"

text \<open>
  Rows are added, never taken away: accounts keep their ids, credentials their id, key id, hash and
  revocation, sessions their owner and model; messages and audit rows stay as they are.
\<close>

definition grows :: "'a usage_db_scheme \<Rightarrow> 'a usage_db_scheme \<Rightarrow> bool" where
  "grows w w' \<longleftrightarrow> prefix (map u_ID (users w)) (map u_ID (users w')) \<and> key_evolves (api_keys w) (api_keys w') \<and>
     prefix (map session_row (conversations w)) (map session_row (conversations w')) \<and>
     prefix (messages w) (messages w') \<and> prefix (gateway_usage w) (gateway_usage w')"

definition lawful :: "'a usage_db_scheme \<Rightarrow> 'a usage_db_scheme \<Rightarrow> bool" where
  "lawful w w' \<longleftrightarrow> (integrity w \<longrightarrow> integrity w') \<and> grows w w'"

lemma lawful_trans: "lawful a b \<Longrightarrow> lawful b c \<Longrightarrow> lawful a c"
  unfolding lawful_def grows_def by (blast intro: prefix_order.trans key_evolves_trans)

text \<open>The tables, and changes that leave them alone.\<close>

definition data :: "'a usage_db_scheme \<Rightarrow> User list \<times> APIKey list \<times> conversation_row list \<times> StoredMessage list \<times> usage_row list" where
  "data w = (users w, api_keys w, conversations w, messages w, gateway_usage w)"

lemma lawful_data: "data w' = data w \<Longrightarrow> lawful w w'"
  by (simp add: lawful_def grows_def integrity_def data_def)

lemma lawful_refl [simp]: "lawful w w"
  by (rule lawful_data) simp

lemma data_steps [simp]:
  "data (w\<lparr>outcomes := os\<rparr>) = data w" "data (snd (now w)) = data w" "data (snd (pg_now w)) = data w"
  "data (snd (gen_uuid w)) = data w" "data (snd (rand_read n w)) = data w" "data (LogAttrs lg lvl m as w) = data w"
  "data (spawn t w) = data w" "data (w\<lparr>tasks := ts\<rparr>) = data w"
  by (simp_all add: data_def now_def pg_now_def gen_uuid_def rand_read_def LogAttrs_def log_line_def spawn_def Let_def)

lemma lawful_via: "data v = data w \<Longrightarrow> lawful v w' \<Longrightarrow> lawful w w'"
  using lawful_trans lawful_data by blast

lemma lawful_pg_exec:
  assumes "\<And>w. lawful w (snd (stmt w))"
  shows "lawful w (snd (pg_exec stmt w))"
proof (cases stmt w rule: pg_exec_cases)
  case (run v)
  then have "data v = data w" by auto
  then show ?thesis using run(1) assms [of v] lawful_via by simp
next
  case (lost os)
  then show ?thesis by (simp add: lawful_data)
next
  case (unacked v)
  then have "data v = data w" by auto
  then show ?thesis using unacked(1) assms [of v] lawful_via by simp
qed

section \<open>Changes of one table\<close>

lemma key_evolves_ids: "key_evolves ks ks' \<Longrightarrow> ak_ID ` set ks \<subseteq> ak_ID ` set ks'"
proof
  fix x assume e: "key_evolves ks ks'" and "x \<in> ak_ID ` set ks"
  then obtain i where i: "i < length ks" "x = ak_ID (ks ! i)" by (auto simp: in_set_conv_nth)
  then have "i < length ks'" "ak_ID (ks' ! i) = x" using e by (auto simp: key_evolves_def frozen_def)
  then show "x \<in> ak_ID ` set ks'" by (metis imageI nth_mem)
qed

lemma lawful_users:
  assumes "data w' = (us, snd (data w))" "prefix (map u_ID (users w)) (map u_ID us)"
    "integrity w \<Longrightarrow> distinct (map u_ID us)"
  shows "lawful w w'"
proof -
  have "u_ID ` set (users w) \<subseteq> u_ID ` set us" using set_mono_prefix [OF assms(2)] by simp
  then show ?thesis
    using assms unfolding lawful_def grows_def integrity_def data_def by (auto dest: subsetD)
qed

lemma lawful_keys:
  assumes "data w' = (users w, ks, snd (snd (data w)))" "key_evolves (api_keys w) ks"
    "integrity w \<Longrightarrow> ids_unique ks \<and> (\<forall>k \<in> set ks. \<forall>u. ak_CreatedBy k = Some u \<longrightarrow> u \<in> u_ID ` set (users w))"
  shows "lawful w w'"
proof -
  note sub = subsetD [OF key_evolves_ids [OF assms(2)]]
  have t: "users w' = users w" "api_keys w' = ks" "conversations w' = conversations w" "messages w' = messages w"
    "gateway_usage w' = gateway_usage w"
    using assms(1) by (simp_all add: data_def)
  have "integrity w'" if i: "integrity w"
    using i assms(3) [OF i] sub unfolding integrity_def t by simp
  then show ?thesis using assms(2) by (simp add: lawful_def grows_def t)
qed

lemma lawful_conversations:
  assumes "data w' = (users w, api_keys w, cs, snd (snd (snd (data w))))"
    "prefix (map session_row (conversations w)) (map session_row cs)"
    "integrity w \<Longrightarrow> distinct (map cr_id cs) \<and> (\<forall>c \<in> set cs. cr_api_key_id c \<in> ak_ID ` set (api_keys w))"
  shows "lawful w w'"
proof -
  have t: "users w' = users w" "api_keys w' = api_keys w" "conversations w' = cs" "messages w' = messages w"
    "gateway_usage w' = gateway_usage w"
    using assms(1) by (simp_all add: data_def)
  have "set (map session_row (conversations w)) \<subseteq> set (map session_row cs)" using assms(2) by (rule set_mono_prefix)
  then have "fst ` set (map session_row (conversations w)) \<subseteq> fst ` set (map session_row cs)" by blast
  then have sub: "x \<in> cr_id ` set (conversations w) \<Longrightarrow> x \<in> cr_id ` set cs" for x
    by (auto simp: session_row_def image_image)
  have "integrity w'" if i: "integrity w"
    using i assms(3) [OF i] sub unfolding integrity_def t by simp
  then show ?thesis using assms(2) by (simp add: lawful_def grows_def t)
qed

text \<open>The rows as the INSERT statements check them: a fresh id, references to rows there are.\<close>

definition message_fits :: "'a usage_db_scheme \<Rightarrow> StoredMessage \<Rightarrow> bool" where
  "message_fits w m \<longleftrightarrow> (\<forall>x \<in> set (messages w). sm_ID x \<noteq> sm_ID m) \<and> (\<exists>c \<in> set (conversations w). cr_id c = sm_ConversationID m)"

definition conversation_fits :: "'a usage_db_scheme \<Rightarrow> conversation_row \<Rightarrow> bool" where
  "conversation_fits w c \<longleftrightarrow> (\<forall>x \<in> set (conversations w). cr_id x \<noteq> cr_id c) \<and> (\<exists>k \<in> set (api_keys w). ak_ID k = cr_api_key_id c)"

definition audit_fits :: "'a usage_db_scheme \<Rightarrow> usage_row \<Rightarrow> bool" where
  "audit_fits w u \<longleftrightarrow> (\<forall>x \<in> set (gateway_usage w). us_id x \<noteq> us_id u) \<and> (\<exists>k \<in> set (api_keys w). ak_ID k = us_api_key_id u) \<and>
     opt_ok (\<lambda>d. \<exists>c \<in> set (conversations w). cr_id c = d) (us_conversation_id u)"

lemma some_row: "(\<exists>x \<in> S. f x = y) \<longleftrightarrow> y \<in> f ` S" "(\<forall>x \<in> S. f x \<noteq> y) \<longleftrightarrow> y \<notin> f ` S"
  by auto

lemmas fits_defs = message_fits_def [unfolded some_row] conversation_fits_def [unfolded some_row] audit_fits_def [unfolded some_row]

lemma lawful_add_message:
  assumes "data w' = (users w, api_keys w, conversations w, messages w @ [m], gateway_usage w)" "message_fits w m" "turn_role (sm_Role m)"
  shows "lawful w w'"
  using assms unfolding lawful_def grows_def integrity_def data_def fits_defs by simp

lemma lawful_add_conversation:
  assumes "data w' = (users w, api_keys w, conversations w @ [c], messages w, gateway_usage w)" "conversation_fits w c"
  shows "lawful w w'"
proof (rule lawful_conversations)
  show "data w' = (users w, api_keys w, conversations w @ [c], snd (snd (snd (data w))))" using assms(1) by (simp add: data_def)
  show "prefix (map session_row (conversations w)) (map session_row (conversations w @ [c]))" by simp
  assume "integrity w"
  then show "distinct (map cr_id (conversations w @ [c])) \<and> (\<forall>d \<in> set (conversations w @ [c]). cr_api_key_id d \<in> ak_ID ` set (api_keys w))"
    using assms(2) unfolding integrity_def fits_defs by simp
qed

lemma lawful_add_audit:
  assumes "data w' = (users w, api_keys w, conversations w, messages w, gateway_usage w @ [u])" "audit_fits w u"
  shows "lawful w w'"
  using assms unfolding lawful_def grows_def integrity_def data_def fits_defs by (simp add: opt_ok_def split: option.splits)

section \<open>The statements\<close>

text \<open>A table of users with one column replaced, of credentials with one row changed, and so on.\<close>

lemma lawful_update_user:
  assumes "data w' = (map f (users w), snd (data w))" "\<And>u. u_ID (f u) = u_ID u"
  shows "lawful w w'"
  by (rule lawful_users [OF assms(1)]) (simp_all add: comp_def assms(2) integrity_def)

lemma lawful_update_key:
  assumes "data w' = (users w, map f (api_keys w), snd (snd (data w)))" "\<And>k. frozen (f k) = frozen k"
    "\<And>k. ak_RevokedAt k \<noteq> None \<Longrightarrow> ak_RevokedAt (f k) = ak_RevokedAt k" "\<And>k. ak_CreatedBy (f k) = ak_CreatedBy k"
  shows "lawful w w'"
  by (rule lawful_keys [OF assms(1)]) (auto simp: key_evolves_map ids_unique_map assms(2-4) integrity_def)

lemma lawful_insert_api_key: "lawful w (snd (insert_api_key p w))"
proof -
  obtain r w' where i: "insert_api_key p w = (r, w')" by fastforce
  show ?thesis
  proof (cases r)
    case (Inl e)
    then have "data w' = data w"
      using i by (auto simp: insert_api_key_def gen_uuid_def pg_now_def now_def Let_def data_def split: if_splits prod.splits)
    then show ?thesis by (simp add: i lawful_data)
  next
    case (Inr k)
    then have d: "data w' = (users w, api_keys w @ [k], snd (snd (data w)))"
      and by_user: "\<And>u. ak_CreatedBy k = Some u \<Longrightarrow> u \<in> u_ID ` set (users w)"
      using i by (auto simp: insert_api_key_def gen_uuid_def pg_now_def now_def Let_def data_def opt_ok_def list_ex_iff
          split: if_splits prod.splits option.splits)
    have "insert_rel p (api_keys w) r (api_keys w')" by (rule insert_api_key_rel [OF i])
    then have "ids_unique (api_keys w) \<Longrightarrow> ids_unique (api_keys w @ [k])"
      using Inr by (auto simp: insert_rel_def ids_unique_def)
    with d by_user show ?thesis
      unfolding i snd_conv by (intro lawful_keys [OF d]) (auto simp: integrity_def)
  qed
qed

lemma lawful_key_statements:
  "lawful w (snd (update_api_key i q w))" "lawful w (snd (revoke_api_key i w))" "lawful w (snd (touch_api_key i w))"
proof -
  have "snd (update_api_key i q w) = w \<or>
      (\<exists>j. data (snd (update_api_key i q w)) = (users w, map (relabel_row j q) (api_keys w), snd (snd (data w))))"
    by (auto simp: update_api_key_def data_def split: option.split)
  then show "lawful w (snd (update_api_key i q w))"
    by (elim disjE exE) (simp, erule lawful_update_key, simp_all add: frozen_def relabel_row_def)
  have "snd (revoke_api_key i w) = w \<or>
      (\<exists>j t. data (snd (revoke_api_key i w)) = (users w, map (revoke_row j t) (api_keys w), snd (snd (data w))))"
    by (auto simp: revoke_api_key_def data_def pg_now_def now_def Let_def split: option.split)
  then show "lawful w (snd (revoke_api_key i w))"
    by (elim disjE exE) (simp, erule lawful_update_key, simp_all add: frozen_def revoke_row_def)
  have "snd (touch_api_key i w) = w \<or> (\<exists>j t. data (snd (touch_api_key i w)) =
      (users w, map (\<lambda>k. if ak_ID k = j then k\<lparr>ak_LastUsedAt := Some t\<rparr> else k) (api_keys w), snd (snd (data w))))"
    by (auto simp: touch_api_key_def data_def pg_now_def now_def Let_def split: option.split)
  then show "lawful w (snd (touch_api_key i w))"
    by (elim disjE exE) (simp, erule lawful_update_key, simp_all add: frozen_def)
qed

lemma lawful_insert_conversation: "lawful w (snd (insert_conversation a m w))"
proof -
  have "data (snd (insert_conversation a m w)) = data w \<or>
    (\<exists>c. data (snd (insert_conversation a m w)) = (users w, api_keys w, conversations w @ [c], messages w, gateway_usage w) \<and> conversation_fits w c)"
    by (auto simp: insert_conversation_def gen_uuid_def pg_now_def now_def Let_def data_def list_ex_iff conversation_fits_def
        split: option.split)
  then show ?thesis using lawful_data lawful_add_conversation by blast
qed

lemma lawful_bump: "lawful w (snd (bump_updated_at c t w))"
proof -
  have "snd (bump_updated_at c t w) = w \<or> (\<exists>j. data (snd (bump_updated_at c t w)) =
      (users w, api_keys w, map (\<lambda>r. if cr_id r = j then r\<lparr>cr_updated_at := t\<rparr> else r) (conversations w), snd (snd (snd (data w)))))"
    by (auto simp: bump_updated_at_def data_def split: option.split)
  then show ?thesis
  proof
    assume "\<exists>j. data (snd (bump_updated_at c t w)) =
      (users w, api_keys w, map (\<lambda>r. if cr_id r = j then r\<lparr>cr_updated_at := t\<rparr> else r) (conversations w), snd (snd (snd (data w))))"
    then obtain j where d: "data (snd (bump_updated_at c t w)) =
      (users w, api_keys w, map (\<lambda>r. if cr_id r = j then r\<lparr>cr_updated_at := t\<rparr> else r) (conversations w), snd (snd (snd (data w))))" ..
    have f: "session_row \<circ> (\<lambda>r. if cr_id r = j then r\<lparr>cr_updated_at := t\<rparr> else r) = session_row"
      "cr_id \<circ> (\<lambda>r. if cr_id r = j then r\<lparr>cr_updated_at := t\<rparr> else r) = cr_id"
      by (auto simp: session_row_def)
    show ?thesis
      by (rule lawful_conversations [OF d]) (auto simp: f integrity_def)
  qed simp
qed

lemma lawful_insert_message:
  assumes "turn_role (nm_Role m)"
  shows "lawful w (snd (insert_message c m ts w))"
proof -
  have "data (snd (insert_message c m ts w)) = data w \<or>
    (\<exists>x. data (snd (insert_message c m ts w)) = (users w, api_keys w, conversations w, messages w @ [x], gateway_usage w) \<and>
       message_fits w x \<and> sm_Role x = nm_Role m)"
    by (auto simp: insert_message_def gen_uuid_def data_def list_ex_iff message_fits_def split: option.split)
  then show ?thesis using lawful_data lawful_add_message assms by metis
qed

lemma lawful_insert_usage: "lawful w (snd (insert_usage r w))"
proof -
  have "data (snd (insert_usage r w)) = data w \<or>
    (\<exists>u. data (snd (insert_usage r w)) = (users w, api_keys w, conversations w, messages w, gateway_usage w @ [u]) \<and> audit_fits w u)"
    by (auto simp: insert_usage_def gen_uuid_def pg_now_def now_def Let_def data_def list_ex_iff audit_fits_def split: option.split)
  then show ?thesis using lawful_data lawful_add_audit by blast
qed

lemmas lawful_statements = lawful_insert_api_key lawful_key_statements lawful_insert_conversation lawful_bump
  lawful_insert_message lawful_insert_usage

section \<open>The repositories\<close>

lemma lawful_reads:
  "lawful w (snd (select_active kid w))" "lawful w (snd (select_by_id i w))" "lawful w (snd (select_all w))"
  "lawful w (snd (select_conversation a c w))" "lawful w (snd (select_history c w))" "lawful w (snd (tx_begin w))"
  by (rule lawful_data, simp add: select_active_def select_by_id_def select_all_def select_conversation_def select_history_def
      tx_begin_def data_def pg_now_def now_def Let_def split: option.split)+

lemma key_method_world:
  "snd (apikey_Create p w) = snd (pg_exec (insert_api_key p) w)" "snd (apikey_Update i q w) = snd (pg_exec (update_api_key i q) w)"
  "snd (apikey_Revoke i w) = snd (pg_exec (revoke_api_key i) w)" "snd (apikey_TouchLastUsed i w) = snd (pg_exec (touch_api_key i) w)"
  "snd (usage_Record r v) = snd (pg_exec (insert_usage r) v)"
  by (simp_all add: apikey_Create_def apikey_Update_def apikey_Revoke_def apikey_TouchLastUsed_def usage_Record_def split: result_splits)

lemma lawful_methods:
  "lawful w (snd (apikey_Create p w))" "lawful w (snd (apikey_Update i q w))" "lawful w (snd (apikey_Revoke i w))"
  "lawful w (snd (apikey_TouchLastUsed i w))" "lawful w (snd (apikey_GetActiveByKeyID kid w))" "lawful w (snd (apikey_GetByID i w))"
  "lawful w (snd (apikey_List w))" "lawful w (snd (usage_Record r w))"
  "lawful w (snd (conv_CreateConversation a m w))" "lawful w (snd (conv_GetConversation a c w))" "lawful w (snd (conv_LoadHistory c w))"
  unfolding key_method_world select_world method_world
  by (rule lawful_pg_exec, (rule lawful_statements lawful_reads))+

text \<open>The transaction of an append: its tables are the old ones or those after all of its statements.\<close>

lemma lawful_append_loop:
  "\<forall>m \<in> set ms. turn_role (nm_Role m) \<Longrightarrow> lawful w (snd (append_loop c base i ms w))"
proof (induction ms arbitrary: i w)
  case (Cons m ms)
  have "lawful w (snd (pg_exec (insert_message c m (base + int i * 1000)) w))"
    by (rule lawful_pg_exec, rule lawful_insert_message) (use Cons.prems in simp)
  then show ?case
    using Cons.IH [where i = "Suc i"] Cons.prems by (auto split: prod.split sum.split intro: lawful_trans)
qed simp

lemma rollback_data: "conv_touches w v \<Longrightarrow> data (tx_rollback w v) = data w"
  using touches_facts(1,2,7) [of w v] by (simp add: tx_rollback_def data_def)

lemma commit_data:
  "conv_touches w v \<Longrightarrow> data (snd (tx_commit w v)) = data w \<or> data (snd (tx_commit w v)) = data v"
  using rollback_data [of w "v\<lparr>outcomes := os\<rparr>" for os] conv_touches_trans [OF _ conv_touches_steps(1)]
  by (cases "next_outcome v"; cases "fst (next_outcome v)")
    (auto simp: tx_commit_def next_outcome_def data_def split: list.splits)

lemma lawful_AppendMessages:
  assumes "\<forall>m \<in> set ms. turn_role (nm_Role m)"
  shows "lawful w (snd (conv_AppendMessages c ms w))"
proof (cases "ms = []")
  case False
  obtain r1 w1 where b: "pg_exec tx_begin w = (r1, w1)" by fastforce
  obtain base w2 where n: "now w1 = (base, w2)" by fastforce
  obtain r3 w3 where l: "append_loop c base 0 ms w2 = (r3, w3)" by fastforce
  have l1: "lawful w w1" "conv_touches w w1"
    using lawful_pg_exec [of tx_begin w, OF lawful_reads(6)] pg_exec_touches [of tx_begin w, OF statement_touches(5)] b by simp_all
  have l2: "lawful w w2" "conv_touches w w2"
    using l1 n lawful_trans [OF l1(1) lawful_data, of w2] conv_touches_trans [OF l1(2), of w2] data_steps(2) [of w1]
    by (auto simp: now_def Let_def conv_touches_steps)
  have l3: "lawful w w3" "conv_touches w w3"
    using lawful_append_loop [OF assms, of w2 c base 0] append_loop_touches [of w2 c base 0 ms] l
      lawful_trans [OF l2(1)] conv_touches_trans [OF l2(2)] by auto
  have l4: "lawful w v" "conv_touches w v" if "pg_exec (bump_updated_at c t) w3 = (r4, v)" for t r4 v
    using lawful_trans [OF l3(1) lawful_pg_exec [of "bump_updated_at c t" w3, OF lawful_bump]]
      conv_touches_trans [OF l3(2) pg_exec_touches [of "bump_updated_at c t" w3, OF statement_touches(6)]] that by simp_all
  have l5: "lawful w (tx_rollback w v)" if "conv_touches w v" for v
    by (rule lawful_data [OF rollback_data [OF that]])
  have l6: "lawful w (snd (tx_commit w v))" if "lawful w v" "conv_touches w v" for v
    using commit_data [OF that(2)] lawful_data lawful_trans [OF that(1)] by metis
  show ?thesis
  proof (cases r1)
    case (Inl e)
    then show ?thesis using False b l1 by (simp add: conv_AppendMessages_def)
  next
    case (Inr t)
    obtain r4 w4 where u: "pg_exec (bump_updated_at c t) w3 = (r4, w4)" by fastforce
    obtain x w5 where cm: "tx_commit w w4 = (x, w5)" by fastforce
    have "snd (conv_AppendMessages c ms w) \<in> {tx_rollback w w3, tx_rollback w w4, w5}"
      using False b n l u cm Inr by (cases r3; cases r4; cases x) (auto simp: conv_AppendMessages_def)
    then show ?thesis using l5 [OF l3(2)] l5 [OF l4(2) [OF u]] l6 [OF l4 [OF u]] cm by auto
  qed
qed (simp add: conv_AppendMessages_def)

end
