(* ===== verification/App.thy ===== *)
theory App
  imports Gateway Admin_Keys Ratelimit Health
begin

text \<open>
  \<open>backend/internal/app/app.go\<close>: the route tree over one database, with every component wired as
  the server and the end-to-end test wire it. The two limiter sets that \<open>PerIP\<close> and \<open>PerKey\<close> make
  when the tree is built are the two fields \<open>app\<close> adds to the world; \<open>app_start\<close> is their first
  state.
\<close>

record 'l app = usage_db +
  aw_login :: "'l limiterSet"
  aw_gateway :: "'l limiterSet"

definition app_start :: "Config \<Rightarrow> ('l, 'a) app_scheme \<Rightarrow> bool" where
  "app_start cfg w \<longleftrightarrow> aw_login w = newLimiterSet (cfg_LoginRateLimit cfg) \<and> aw_gateway w = newLimiterSet (cfg_GatewayRateLimit cfg)"

text \<open>The bucket of a gateway call is the credential the two-key middleware resolved.\<close>

definition gatewayCredentialKey :: "ctx request \<Rightarrow> string" where
  "gatewayCredentialKey r = (case CredentialFromContext (rq_ctx r) of Some cred \<Rightarrow> crd_ID cred | None \<Rightarrow> [])"

definition app_issuer :: "Config \<Rightarrow> Issuer" where
  "app_issuer cfg = NewIssuer (cfg_JWTSecret cfg) 0"

definition login_route :: "'l rate_lib \<Rightarrow> auth_libs \<Rightarrow> Config \<Rightarrow> (ctx, ('l, 'a) app_scheme) handler" where
  "login_route L al cfg =
     (let secureCookies = EqualFold (cfg_Env cfg) ''production'';
          loginRL = PerIP L aw_login (\<lambda>s w. w\<lparr>aw_login := s\<rparr>) (cfg_LoginRateLimit cfg)
      in loginRL (Login al (NewLoginHandler user_GetByEmail (app_issuer cfg) secureCookies)))"

definition chat_route :: "'l rate_lib \<Rightarrow> Config \<Rightarrow> Logger \<Rightarrow> (ctx, ('l, 'a) app_scheme) handler" where
  "chat_route L cfg lg =
     (let core = NewService repo_ConvRepo 0;
          chat = NewChatHandler core (Client_upstream (vllm_New (cfg_VLLMURL cfg) (cfg_VLLMAPIKey cfg))) (Some (Async lg));
          gatewayRL = PerKey L aw_gateway (\<lambda>s w. w\<lparr>aw_gateway := s\<rparr>) (cfg_GatewayRateLimit cfg) gatewayCredentialKey
      in RequireCredential (NewAuthenticator repo_credentialStore) (gatewayRL (Chat chat)))"

definition Handle_all :: "'w Router \<Rightarrow> (string \<times> (ctx, 'w) handler) list \<Rightarrow> 'w Router" where
  "Handle_all = foldl (\<lambda>r (pat, h). Router_Handle r pat h)"

definition app_router :: "'l rate_lib \<Rightarrow> auth_libs \<Rightarrow> Config \<Rightarrow> Logger \<Rightarrow> ('l, 'a) app_scheme Router" where
  "app_router L al cfg lg =
     (let router = RegisterHealth (NewRouter cfg (Some lg))
            \<lparr>hd_DB = Some pool_Ping, hd_VLLMProbe = Some (NewVLLMProbe (cfg_VLLMURL cfg)), hd_Version = version_String, hd_Timeout = 0\<rparr>;
          r1 = Router_Handle router ''POST /api/admin/login'' (login_route L al cfg);
          r2 = Handle_all r1 (key_routes (al_jwt al) (admin_NewAuthenticator (app_issuer cfg)) (NewKeysHandler repo_keyStore))
      in Router_Handle r2 (''POST '' @ GatewayChatPath) (chat_route L cfg lg))"

definition BuildHandler :: "'l rate_lib \<Rightarrow> auth_libs \<Rightarrow> string \<Rightarrow> Config \<Rightarrow> Logger \<Rightarrow> (ctx, ('l, 'a) app_scheme) handler" where
  "BuildHandler L al stack cfg lg = Router_Handler stack (app_router L al cfg lg)"

section \<open>The route table\<close>

definition readiness_deps :: "Config \<Rightarrow> 'a env_scheme HealthDeps" where
  "readiness_deps cfg = \<lparr>hd_DB = Some pool_Ping, hd_VLLMProbe = Some (NewVLLMProbe (cfg_VLLMURL cfg)),
     hd_Version = version_String, hd_Timeout = 2 * 1000000000\<rparr>"

lemma app_table:
  "rt_mux (app_router L al cfg lg) =
    [(''GET /version'', versionHandler), (''GET /healthz'', livenessHandler version_String),
     (''GET /readyz'', readinessHandler (readiness_deps cfg)), (''POST /api/admin/login'', login_route L al cfg)]
    @ key_routes (al_jwt al) (admin_NewAuthenticator (app_issuer cfg)) (NewKeysHandler repo_keyStore)
    @ [(''POST '' @ GatewayChatPath, chat_route L cfg lg)]"
  by (simp add: app_router_def NewRouter_def Router_Handle_def RegisterHealth_def Handle_all_def key_routes_def
      readiness_deps_def)

lemma app_router_fields [simp]: "rt_cfg (app_router L al cfg lg) = cfg" "rt_logger (app_router L al cfg lg) = lg"
  by (simp_all add: app_router_def NewRouter_def Router_Handle_def RegisterHealth_def Handle_all_def key_routes_def)

text \<open>The patterns, parsed. No two of them match the same request.\<close>

definition app_patterns :: "string list" where
  "app_patterns =
     [''GET /version'', ''GET /healthz'', ''GET /readyz'', ''POST /api/admin/login'', ''POST /api/admin/keys'',
      ''GET /api/admin/keys'', ''PATCH /api/admin/keys/{id}'', ''DELETE /api/admin/keys/{id}'', ''POST /v1/gateway/chat'']"

lemma app_table_patterns: "map fst (rt_mux (app_router L al cfg lg)) = app_patterns"
  by (simp add: app_table key_routes_def app_patterns_def GatewayChatPath_def)

lemma parsed_patterns:
  "map parse_pattern app_patterns =
     [(''GET'', [Lit ''version'']), (''GET'', [Lit ''healthz'']), (''GET'', [Lit ''readyz'']),
      (''POST'', [Lit ''api'', Lit ''admin'', Lit ''login'']), (''POST'', [Lit ''api'', Lit ''admin'', Lit ''keys'']),
      (''GET'', [Lit ''api'', Lit ''admin'', Lit ''keys'']), (''PATCH'', [Lit ''api'', Lit ''admin'', Lit ''keys'', Wild ''id'']),
      (''DELETE'', [Lit ''api'', Lit ''admin'', Lit ''keys'', Wild ''id'']), (''POST'', [Lit ''v1'', Lit ''gateway'', Lit ''chat''])]"
  by code_simp

lemma app_patterns_apart: "sorted_wrt apart (map parse_pattern app_patterns)"
  unfolding parsed_patterns by (simp add: apart_def lits_differ_def doubleton_eq_iff)

lemma table_apart: "map fst m = app_patterns \<Longrightarrow> sorted_wrt apart (map (\<lambda>e. parse_pattern (fst e)) m)"
  using app_patterns_apart by (metis (no_types, lifting) list.map_comp comp_apply map_eq_conv)

text \<open>Whichever route a request matches is the one that runs.\<close>

lemma app_mux_find:
  "(pat, h) \<in> set (rt_mux (app_router L al cfg lg)) \<Longrightarrow> match_pattern pat meth path = Some vs \<Longrightarrow>
   mux_find (rt_mux (app_router L al cfg lg)) meth path = Some (h, vs)"
  by (rule mux_find_apart [OF table_apart [OF app_table_patterns]])

end
