(* ===== verification/Http_Properties.thy ===== *)
theory Http_Properties
  imports Health Sample
begin

text \<open>
  What the base chain guarantees around any route table: what the client gets is what the
  handlers wrote, with the request id and the grant of the CORS layer; the summary line says what
  was sent; a panic becomes a logged 500 or leaves a response that has begun as it is.
\<close>

section \<open>The request as the routes see it\<close>

definition request_logger :: "Logger \<Rightarrow> string \<Rightarrow> Logger" where
  "request_logger lg i = Logger_With lg [(''request_id'', LStr i)]"

definition handed :: "Logger \<Rightarrow> ctx request \<Rightarrow> 'a env_scheme \<Rightarrow> string \<times> ctx request \<times> int \<times> 'a env_scheme" where
  "handed lg r w =
     (case (if header_get r HeaderRequestID = [] then newRequestID w else (header_get r HeaderRequestID, w)) of (i, w1) \<Rightarrow>
      case now w1 of (t, w2) \<Rightarrow>
        (i, rewrapped r (withRequestID (WithContext (rq_ctx r) (request_logger lg i)) i), t, w2))"

definition fresh_recorder :: responseRecorder where
  "fresh_recorder = \<lparr>rec_status = 200, rec_bytes = 0, rec_wroteHeader = False\<rparr>"

lemma Middleware_eq:
  assumes "handed lg r w = (i, r', t, w2)" "nxt r' w2 = (cs, ex, w3)" "record_calls (rq_flusher r) cs fresh_recorder = (out, rec)"
  shows "Middleware (Some lg) nxt r w = (SetHeader HeaderRequestID i # out, ex,
     if ex \<noteq> Returned then w3
     else LogAttrs (request_logger lg i) (summary_level (rec_status rec)) ''request'' (summary_attrs r rec (fst (now w3) - t)) (snd (now w3)))"
proof -
  obtain i0 w1 where id: "(if header_get r HeaderRequestID = [] then newRequestID w else (header_get r HeaderRequestID, w)) = (i0, w1)"
    by (cases "if header_get r HeaderRequestID = [] then newRequestID w else (header_get r HeaderRequestID, w)")
  obtain t0 w0 where n: "now w1 = (t0, w0)" by fastforce
  have h: "i0 = i" "t0 = t" "w0 = w2" "r' = rewrapped r (withRequestID (WithContext (rq_ctx r) (request_logger lg i)) i)"
    using assms(1) by (auto simp: handed_def id n)
  obtain rw where rw: "wrapResponseWriter (rq_flusher r) (rq_hijacker r) = (fresh_recorder, rw)"
    "is_Flusher rw = rq_flusher r" "is_Hijacker rw = rq_hijacker r"
    using wrapper_capabilities [of "rq_flusher r" "rq_hijacker r"]
    by (cases "wrapResponseWriter (rq_flusher r) (rq_hijacker r)") (auto simp: wrapResponseWriter_def fresh_recorder_def)
  have a: "Async_logger (Some lg) w1 = lg" by (simp add: Async_logger_def)
  show ?thesis
    using assms(2,3) unfolding Middleware_def id h(1) n h(2,3) prod.case Let_def rw(1) rw(2,3) Middleware_rewraps a
    by (simp add: h(4) request_logger_def split: prod.split)
qed

section \<open>Handlers that keep to their part\<close>

text \<open>
  A handler that flushes only a writer that can and leaves alone the headers of the chain.
\<close>

definition chain_headers :: "string list" where
  "chain_headers = [HeaderRequestID, ''Access-Control-Allow-Origin'', ''Access-Control-Allow-Credentials'']"

fun tame :: "bool \<Rightarrow> wcall \<Rightarrow> bool" where
  "tame f (SetHeader k v) \<longleftrightarrow> k \<notin> set chain_headers"
| "tame f (AddHeader k v) \<longleftrightarrow> k \<notin> set chain_headers"
| "tame f (DelHeader k) \<longleftrightarrow> k \<notin> set chain_headers"
| "tame f Flush \<longleftrightarrow> f"
| "tame f _ \<longleftrightarrow> True"

definition tame_handler :: "('c, 'w) handler \<Rightarrow> bool" where
  "tame_handler h \<longleftrightarrow> (\<forall>r w. list_all (tame (rq_flusher r)) (calls_of (h r w)))"

lemma tame_http_Error [simp]: "list_all (tame f) (http_Error msg code)"
  by (simp add: http_Error_def chain_headers_def HeaderRequestID_def)

lemma writes_of_http_Error: "writes_of (http_Error msg code) = msg @ [char_of_byte 10]"
  by (simp add: http_Error_def)

lemma tame_writeJSON [simp]: "list_all (tame f) (writeJSON code v)"
  by (simp add: writeJSON_def chain_headers_def HeaderRequestID_def)

lemma with_values_flusher [simp]: "rq_flusher (with_values vs r) = rq_flusher r"
  by (simp add: with_values_def)

lemma tame_ServeMux:
  assumes "\<And>pat h. (pat, h) \<in> set m \<Longrightarrow> tame_handler h"
  shows "tame_handler (ServeMux m)"
proof -
  have "list_all (tame (rq_flusher r)) (calls_of (ServeMux m r w))" for r w
  proof (cases "rq_escaped r \<noteq> ''*'' \<and> mux_path r = rq_escaped r \<and> mux_find m (rq_method r) (mux_path r) \<noteq> None")
    case False
    then show ?thesis
      by (cases "mux_find m (rq_method r) (mux_path r)")
        (auto simp: ServeMux_def NotFound_def Redirect_def Let_def chain_headers_def HeaderRequestID_def)
  next
    case True
    then obtain h vs where m: "mux_find m (rq_method r) (mux_path r) = Some (h, vs)" by auto
    then obtain pat where "(pat, h) \<in> set m" using mux_find_Some by blast
    then have "list_all (tame (rq_flusher (with_values vs r))) (calls_of (h (with_values vs r) w))"
      using assms unfolding tame_handler_def by blast
    with m True show ?thesis by (simp add: ServeMux_def)
  qed
  then show ?thesis by (simp add: tame_handler_def)
qed

section \<open>What the client gets\<close>

definition sent_header :: "wcall list \<Rightarrow> string \<Rightarrow> string list" where
  "sent_header cs k =
     (let x = wire_run cs in case wr_status x of None \<Rightarrow> wr_header x k | Some _ \<Rightarrow> wr_sent x k)"

text \<open>A header the later calls leave alone goes out as it is.\<close>

definition wire_view :: "wire \<Rightarrow> string \<Rightarrow> string list" where
  "wire_view x k = (case wr_status x of None \<Rightarrow> wr_header x k | Some _ \<Rightarrow> wr_sent x k)"

lemma tame_keeps:
  assumes "list_all (tame f) cs" "k \<in> set chain_headers"
  shows "wire_view (fold wire_call cs x) k = wire_view x k"
  using assms
proof (induction cs arbitrary: x)
  case (Cons c cs)
  have "wire_view (wire_call c x) k = wire_view x k"
    using Cons.prems by (cases c) (auto simp: wire_view_def wire_header_def Let_def split: option.splits)
  with Cons show ?case by simp
qed simp

lemma fold_headers_status: "\<forall>c \<in> set hs. \<not> sets_status c \<Longrightarrow> wr_status (fold wire_call hs x) = wr_status x"
  using wire_fold_headers by blast

lemma wire_status_none:
  "wr_status (fold wire_call cs x) = None \<longleftrightarrow> wr_status x = None \<and> (\<forall>c \<in> set cs. \<not> sets_status c)"
proof (induction cs arbitrary: x)
  case (Cons c cs)
  have "wr_status (wire_call c x) = None \<longleftrightarrow> wr_status x = None \<and> \<not> sets_status c"
    by (cases c) (auto simp: wire_header_def Let_def split: option.splits)
  then show ?case by (auto simp: Cons.IH)
qed simp

text \<open>The recorder's account of a response.\<close>

lemma record_calls_account:
  assumes "record_calls f cs r = (out, r1)" "rec_bytes r = (if bodyAllowed (rec_status r) then n else 0)"
    "\<not> rec_wroteHeader r \<longrightarrow> n = 0 \<and> rec_status r = 200"
  shows "rec_bytes r1 = (if bodyAllowed (rec_status r1) then n + length (writes_of cs) else 0)"
  using assms
proof (induction cs arbitrary: r n out r1)
  case (Cons c cs)
  obtain o1 r2 where c: "record_call f c r = (o1, r2)" by fastforce
  obtain o2 r3 where cs: "record_calls f cs r2 = (o2, r3)" by fastforce
  have e: "r1 = r3" using Cons.prems(1) by (simp add: c cs)
  have "rec_bytes r2 = (if bodyAllowed (rec_status r2) then n + length (writes_of [c]) else 0)"
    "\<not> rec_wroteHeader r2 \<longrightarrow> n + length (writes_of [c]) = 0 \<and> rec_status r2 = 200"
    using c Cons.prems(2,3)
    by (cases c; auto simp: rec_WriteHeader_def rec_Write_def rec_flush_def bodyAllowed_def split: if_splits)+
  from Cons.IH [OF cs this] have "rec_bytes r3 = (if bodyAllowed (rec_status r3) then n + length (writes_of [c]) + length (writes_of cs) else 0)" .
  moreover have "writes_of (c # cs) = writes_of [c] @ writes_of cs" using writes_of_append [of "[c]" cs] by simp
  ultimately show ?case by (simp add: e)
qed simp

lemma tame_flush: "list_all (tame f) cs \<Longrightarrow> Flush \<in> set cs \<Longrightarrow> f"
  by (auto simp: list_all_iff)

text \<open>Through the recorder, after the request id: status, body and header are those of the calls.\<close>

lemma recorded_response:
  assumes "record_calls f cs fresh_recorder = (out, rec)" "list_all (tame f) cs \<or> (Flush \<in> set cs \<longrightarrow> f)"
  shows "status_of (SetHeader k v # out) = rec_status rec" "status_of cs = rec_status rec"
    "body_of (SetHeader k v # out) = body_of cs"
    "rec_bytes rec = (if bodyAllowed (rec_status rec) then length (body_of cs) else 0)"
    "sent_header (SetHeader k v # out) = wire_view (fold wire_call cs (wire_call (SetHeader k v) wire0))"
    "rec_wroteHeader rec \<longleftrightarrow> (\<exists>c \<in> set cs. sets_status c)"
proof -
  have fl: "Flush \<in> set cs \<Longrightarrow> f" using assms(2) tame_flush by blast
  let ?x = "wire_call (SetHeader k v) wire0"
  have a: "agrees fresh_recorder ?x" "agrees fresh_recorder wire0" by (simp_all add: agrees_def fresh_recorder_def wire0_def)
  note x = record_calls_wire [OF assms(1) a(1) fl] and y = record_calls_wire [OF assms(1) a(2) fl]
  show "status_of (SetHeader k v # out) = rec_status rec" "status_of cs = rec_status rec"
    using x y by (auto simp: status_of_def wire_run_def agrees_def)
  have b: "fold wire_call out ?x = fold wire_call cs ?x" using x by simp
  show "body_of (SetHeader k v # out) = body_of cs"
    using arg_cong [OF b, of wr_body] by (simp add: body_of_def wire_run_def wire_fold_body wire0_def)
  show "rec_bytes rec = (if bodyAllowed (rec_status rec) then length (body_of cs) else 0)"
    using record_calls_account [OF assms(1), of 0] by (simp add: fresh_recorder_def body_of_writes)
  show "sent_header (SetHeader k v # out) = wire_view (fold wire_call cs ?x)"
    using b by (simp add: sent_header_def wire_view_def wire_run_def Let_def fun_eq_iff)
  have "wr_status (fold wire_call cs wire0) = None \<longleftrightarrow> (\<forall>c \<in> set cs. \<not> sets_status c)"
    using wire_status_none [of cs wire0] by (simp add: wire0_def)
  then show "rec_wroteHeader rec \<longleftrightarrow> (\<exists>c \<in> set cs. sets_status c)" using y by (auto simp: agrees_def split: if_splits)
qed

section \<open>The chain around a route table\<close>

lemma fold_wire_headers_status:
  assumes "\<forall>c \<in> set hs. \<not> sets_status c"
  shows "status_of (hs @ cs) = status_of cs"
proof -
  have "wr_status (fold wire_call cs x) = wr_status (fold wire_call cs y)" if "wr_status x = wr_status y" for x y
    using that
  proof (induction cs arbitrary: x y)
    case (Cons c cs)
    have "wr_status (wire_call c x) = wr_status (wire_call c y)"
      using Cons.prems by (cases c) (auto simp: wire_header_def Let_def split: option.splits)
    then show ?case by (simp add: Cons.IH [of "wire_call c x" "wire_call c y"])
  qed simp
  from this [of "fold wire_call hs wire0" wire0] show ?thesis
    by (simp add: status_of_def wire_run_def fold_headers_status [OF assms])
qed

lemma writes_of_cors [simp]: "writes_of (cors_headers os r) = []"
  by (auto simp: cors_headers_def preflight_grant_def Let_def)

lemma cors_response [simp]:
  "status_of (cors_headers os r @ cs) = status_of cs" "body_of (cors_headers os r @ cs) = body_of cs"
  using cors_headers_quiet [of _ os r] by (auto intro!: fold_wire_headers_status simp: body_of_writes)

lemma cors_no_flush: "Flush \<notin> set (cors_headers os r)"
  using cors_headers_quiet by fastforce

lemma handed_request:
  assumes "handed lg r w = (i, r', t, w2)"
  shows "r' = rewrapped r (rq_ctx r')" "FromContext (rq_ctx r') w' = request_logger lg i"
  using assms by (auto simp: handed_def WithContext_def FromContext_def withRequestID_def split: prod.splits)

lemma responseStarted_rewrapped:
  assumes "Flush \<in> set cs \<longrightarrow> rq_flusher r"
  shows "responseStarted (rewrapped r c) cs \<longleftrightarrow> list_ex sets_status cs"
proof -
  obtain out rec where o: "record_calls (rq_flusher r) cs fresh_recorder = (out, rec)" by fastforce
  have "fst (wrapResponseWriter (rq_flusher r) (rq_hijacker r)) = fresh_recorder"
    by (simp add: wrapResponseWriter_def fresh_recorder_def)
  with recorded_response(6) [OF o] assms show ?thesis
    by (simp add: responseStarted_def rec_Written_def o list_ex_iff)
qed

text \<open>What the mux answers and how it leaves, after the recovery layer.\<close>

definition recovered :: "string \<Rightarrow> Logger \<Rightarrow> wcall list \<times> exit \<times> 'a env_scheme \<Rightarrow> wcall list \<times> exit \<times> 'a env_scheme" where
  "recovered stack lg x =
     (case x of (cs, Panicked v, w) \<Rightarrow>
        (cs @ (if list_ex sets_status cs then [] else http_Error ''internal server error'' 500), Returned,
         LogAttrs lg LevelError ''panic recovered'' [(''panic'', LStr v), (''stack'', LStr stack)] w)
      | y \<Rightarrow> y)"

lemma Recoverer_eq:
  assumes "nxt r' w2 = (cs, ex, w3)" "r' = rewrapped r c" "FromContext (rq_ctx r') w3 = lg" "Flush \<in> set cs \<longrightarrow> rq_flusher r"
  shows "Recoverer b stack nxt r' w2 = recovered stack lg (cs, ex, w3)"
  using assms(1,3) responseStarted_rewrapped [OF assms(4), of c, folded assms(2)]
  by (cases ex) (simp_all add: Recoverer_def recovered_def)

text \<open>
  The whole chain: the calls go through the recorder after the CORS headers, and a request that
  is answered leaves one summary line that tells the status and the size of the answer.
\<close>

definition summary :: "ctx request \<Rightarrow> int \<Rightarrow> int \<Rightarrow> wcall list \<Rightarrow> (string \<times> logval) list" where
  "summary r dur status cs =
     [(''method'', LStr (rq_method r)), (''path'', LStr (rq_path r)), (''status'', LInt status),
      (''duration_ms'', LInt (trunc_div dur 1000000)),
      (''bytes'', LInt (if bodyAllowed status then int (length (body_of cs)) else 0))]"

definition log_summary :: "Logger \<Rightarrow> ctx request \<Rightarrow> int \<Rightarrow> wcall list \<Rightarrow> 'a env_scheme \<Rightarrow> 'a env_scheme" where
  "log_summary lg r start cs w =
     LogAttrs lg (summary_level (status_of cs)) ''request'' (summary r (fst (now w) - start) (status_of cs) cs) (snd (now w))"

definition answered :: "string \<Rightarrow> 'a env_scheme Router \<Rightarrow> ctx request \<Rightarrow> 'a env_scheme \<Rightarrow> wcall list \<times> exit \<times> 'a env_scheme" where
  "answered stack rt r w =
     (case handed (rt_logger rt) r w of (i, r', t, w2) \<Rightarrow>
        if isPreflight r then ([WriteHeader 204], Returned, w2)
        else recovered stack (request_logger (rt_logger rt) i) (ServeMux (rt_mux rt) r' w2))"

lemma chain_response:
  assumes h: "handed (rt_logger rt) r w = (i, r', t, w2)" and a: "answered stack rt r w = (cs, ex, w3)"
    and fl: "Flush \<in> set (calls_of (ServeMux (rt_mux rt) r' w2)) \<longrightarrow> rq_flusher r"
    and x: "Router_Handler stack rt r w = (out, ex', w')"
  shows "ex' = ex" "status_of out = status_of cs" "body_of out = body_of cs"
    "w' = (if ex \<noteq> Returned then w3 else log_summary (request_logger (rt_logger rt) i) r t out w3)"
    "sent_header out = wire_view (fold wire_call (cors_headers (cfg_CORSAllowedOrigins (rt_cfg rt)) r @ cs)
       (wire_call (SetHeader HeaderRequestID i) wire0))"
proof -
  let ?os = "cfg_CORSAllowedOrigins (rt_cfg rt)"
  let ?mux = "ServeMux (rt_mux rt)"
  let ?lg = "request_logger (rt_logger rt) i"
  note r' = handed_request [OF h]
  have p: "isPreflight r' = isPreflight r" "cors_headers ?os r' = cors_headers ?os r"
    by (subst r'(1), simp)+
  have "CORS ?os (Recoverer (Some (rt_logger rt)) stack ?mux) r' w2 = (cors_headers ?os r @ cs, ex, w3)"
  proof (cases "isPreflight r")
    case True
    then show ?thesis using a by (simp add: CORS_def p answered_def h)
  next
    case False
    obtain ms me mw where m: "?mux r' w2 = (ms, me, mw)" by (cases "?mux r' w2")
    have "Recoverer (Some (rt_logger rt)) stack ?mux r' w2 = recovered stack ?lg (ms, me, mw)"
      using fl by (intro Recoverer_eq [where nxt = "ServeMux (rt_mux rt)", OF m r'(1) r'(2) [of mw]]) (simp add: m)
    then show ?thesis using a False by (simp add: CORS_def p answered_def h m)
  qed
  note inner = this
  obtain o1 rec where o: "record_calls (rq_flusher r) (cors_headers ?os r @ cs) fresh_recorder = (o1, rec)" by fastforce
  have "Flush \<in> set cs \<longrightarrow> rq_flusher r"
    using a fl by (auto simp: answered_def h recovered_def http_Error_def split: if_splits exit.splits prod.splits)
  then have "Flush \<in> set (cors_headers ?os r @ cs) \<longrightarrow> rq_flusher r" using cors_no_flush by auto
  note rr = recorded_response [OF o disjI2 [OF this]]
  note X = x [unfolded Router_Handler_eq Middleware_eq
    [where nxt = "CORS ?os (Recoverer (Some (rt_logger rt)) stack ?mux)", OF h inner o]]
  show ex: "ex' = ex" using X by simp
  show st: "status_of out = status_of cs" using X rr(1,2) by auto
  show b: "body_of out = body_of cs" using X rr(3) by auto
  have "summary_attrs r rec d = summary r d (status_of out) out" for d
    using rr(1,4) X b by (auto simp: summary_attrs_def summary_def)
  then show "w' = (if ex \<noteq> Returned then w3 else log_summary ?lg r t out w3)"
    using X rr(1) st by (auto simp: log_summary_def)
  show "sent_header out = wire_view (fold wire_call (cors_headers ?os r @ cs) (wire_call (SetHeader HeaderRequestID i) wire0))"
    using X rr(5) by auto
qed

section \<open>A service of polite routes\<close>

text \<open>What the chain relies on: every route returns, and keeps to its part.\<close>

definition polite :: "('c, 'w) handler \<Rightarrow> bool" where
  "polite h \<longleftrightarrow> (\<forall>r w. exit_of (h r w) = Returned \<and> list_all (tame (rq_flusher r)) (calls_of (h r w)))"

lemma politeI:
  "(\<And>r w. exit_of (h r w) = Returned) \<Longrightarrow> (\<And>r w. list_all (tame (rq_flusher r)) (calls_of (h r w))) \<Longrightarrow> polite h"
  by (simp add: polite_def)

lemma polite_health:
  "polite versionHandler" "polite (livenessHandler v)" "polite (readinessHandler deps)"
  by (auto intro!: politeI simp: versionHandler_def livenessHandler_def readinessHandler_def split: prod.split)

lemma cors_view:
  "wire_view (fold wire_call (cors_headers os r) (wire_call (SetHeader HeaderRequestID i) wire0)) HeaderRequestID = [i]"
  "wire_view (fold wire_call (cors_headers os r) (wire_call (SetHeader HeaderRequestID i) wire0)) ''Access-Control-Allow-Origin''
    = (if header_get r ''Origin'' \<noteq> [] \<and> header_get r ''Origin'' \<in> set os then [header_get r ''Origin''] else [])"
  "wire_view (fold wire_call (cors_headers os r) (wire_call (SetHeader HeaderRequestID i) wire0)) ''Access-Control-Allow-Credentials''
    = (if header_get r ''Origin'' \<noteq> [] \<and> header_get r ''Origin'' \<in> set os then [''true''] else [])"
  by (auto simp: cors_headers_def preflight_grant_def HeaderRequestID_def wire_view_def wire0_def Let_def)

lemma wire_view_id:
  assumes "list_all (tame f) cs"
  shows "wire_view (fold wire_call (cors_headers os r @ cs) (wire_call (SetHeader HeaderRequestID i) wire0)) HeaderRequestID = [i]"
    and "wire_view (fold wire_call (cors_headers os r @ cs) (wire_call (SetHeader HeaderRequestID i) wire0)) ''Access-Control-Allow-Origin''
      = (if header_get r ''Origin'' \<noteq> [] \<and> header_get r ''Origin'' \<in> set os then [header_get r ''Origin''] else [])"
    and "wire_view (fold wire_call (cors_headers os r @ cs) (wire_call (SetHeader HeaderRequestID i) wire0)) ''Access-Control-Allow-Credentials''
      = (if header_get r ''Origin'' \<noteq> [] \<and> header_get r ''Origin'' \<in> set os then [''true''] else [])"
proof -
  have k: "HeaderRequestID \<in> set chain_headers" "''Access-Control-Allow-Origin'' \<in> set chain_headers"
    "''Access-Control-Allow-Credentials'' \<in> set chain_headers" by (simp_all add: chain_headers_def)
  note t = tame_keeps [OF assms k(1)] tame_keeps [OF assms k(2)] tame_keeps [OF assms k(3)]
  show "wire_view (fold wire_call (cors_headers os r @ cs) (wire_call (SetHeader HeaderRequestID i) wire0)) HeaderRequestID = [i]"
    by (simp only: fold_append comp_def t cors_view)
  show "wire_view (fold wire_call (cors_headers os r @ cs) (wire_call (SetHeader HeaderRequestID i) wire0)) ''Access-Control-Allow-Origin''
      = (if header_get r ''Origin'' \<noteq> [] \<and> header_get r ''Origin'' \<in> set os then [header_get r ''Origin''] else [])"
    by (simp only: fold_append comp_def t cors_view)
  show "wire_view (fold wire_call (cors_headers os r @ cs) (wire_call (SetHeader HeaderRequestID i) wire0)) ''Access-Control-Allow-Credentials''
      = (if header_get r ''Origin'' \<noteq> [] \<and> header_get r ''Origin'' \<in> set os then [''true''] else [])"
    by (simp only: fold_append comp_def t cors_view)
qed

locale service =
  fixes rt :: "'a env_scheme Router"
  assumes routes_polite: "(pat, h) \<in> set (rt_mux rt) \<Longrightarrow> polite h"
begin

lemma routes_answer:
  assumes "handed (rt_logger rt) r w = (i, r', t, w2)" "answered stack rt r w = (cs, ex, w3)"
  shows "ex = Returned" "list_all (tame (rq_flusher r)) cs"
    "Flush \<in> set (calls_of (ServeMux (rt_mux rt) r' w2)) \<longrightarrow> rq_flusher r"
proof -
  let ?mux = "ServeMux (rt_mux rt)"
  have f: "rq_flusher r' = rq_flusher r" using handed_request(1) [OF assms(1)] by (metis rewrapped_simps(4))
  have "tame_handler ?mux"
    using routes_polite by (intro tame_ServeMux) (auto simp: tame_handler_def polite_def)
  then have t: "list_all (tame (rq_flusher r)) (calls_of (?mux r' w2))"
    unfolding tame_handler_def f [symmetric] by blast
  then show "Flush \<in> set (calls_of (?mux r' w2)) \<longrightarrow> rq_flusher r" by (auto simp: list_all_iff)
  have "exit_of (?mux r' w2) = Returned"
    using routes_polite by (cases rule: ServeMux_cases [of "rt_mux rt" r' w2]) (auto simp: polite_def)
  then show "ex = Returned" "list_all (tame (rq_flusher r)) cs"
    using assms t by (cases "?mux r' w2", auto simp: answered_def recovered_def split: if_splits)+
qed

text \<open>The answer to a request: its id, its status, its size and its one summary line.\<close>

lemma service_answers:
  obtains i r' t w2 where "handed (rt_logger rt) r w = (i, r', t, w2)"
    "exit_of (Router_Handler stack rt r w) = Returned"
    "status_of (calls_of (Router_Handler stack rt r w)) = status_of (calls_of (answered stack rt r w))"
    "body_of (calls_of (Router_Handler stack rt r w)) = body_of (calls_of (answered stack rt r w))"
    "sent_header (calls_of (Router_Handler stack rt r w)) HeaderRequestID = [i]"
    "world_of (Router_Handler stack rt r w) =
      log_summary (request_logger (rt_logger rt) i) r t (calls_of (Router_Handler stack rt r w))
        (world_of (answered stack rt r w))"
proof -
  obtain i r' t w2 where h: "handed (rt_logger rt) r w = (i, r', t, w2)" by (metis surj_pair)
  obtain cs ex w3 where a: "answered stack rt r w = (cs, ex, w3)" by (metis surj_pair)
  obtain out ex' w' where x: "Router_Handler stack rt r w = (out, ex', w')" by (metis surj_pair)
  note ra = routes_answer [OF h a]
  note cr = chain_response [OF h a ra(3) x]
  show thesis by (rule that [OF h]) (use cr ra wire_view_id(1) [OF ra(2)] in \<open>simp_all add: x a\<close>)
qed

text \<open>The grant of an origin, by the allowlist alone.\<close>

lemma service_grants:
  "sent_header (calls_of (Router_Handler stack rt r w)) ''Access-Control-Allow-Origin'' =
     (if header_get r ''Origin'' \<noteq> [] \<and> header_get r ''Origin'' \<in> set (cfg_CORSAllowedOrigins (rt_cfg rt)) then [header_get r ''Origin''] else [])"
  "sent_header (calls_of (Router_Handler stack rt r w)) ''Access-Control-Allow-Credentials'' =
     (if header_get r ''Origin'' \<noteq> [] \<and> header_get r ''Origin'' \<in> set (cfg_CORSAllowedOrigins (rt_cfg rt)) then [''true''] else [])"
proof -
  obtain i r' t w2 where h: "handed (rt_logger rt) r w = (i, r', t, w2)" by (metis surj_pair)
  obtain cs ex w3 where a: "answered stack rt r w = (cs, ex, w3)" by (metis surj_pair)
  obtain out ex' w' where x: "Router_Handler stack rt r w = (out, ex', w')" by (metis surj_pair)
  note ra = routes_answer [OF h a]
  note cr = chain_response [OF h a ra(3) x]
  show "sent_header (calls_of (Router_Handler stack rt r w)) ''Access-Control-Allow-Origin'' =
     (if header_get r ''Origin'' \<noteq> [] \<and> header_get r ''Origin'' \<in> set (cfg_CORSAllowedOrigins (rt_cfg rt)) then [header_get r ''Origin''] else [])"
    "sent_header (calls_of (Router_Handler stack rt r w)) ''Access-Control-Allow-Credentials'' =
     (if header_get r ''Origin'' \<noteq> [] \<and> header_get r ''Origin'' \<in> set (cfg_CORSAllowedOrigins (rt_cfg rt)) then [''true''] else [])"
    by (simp_all only: x handler_result_simps cr(5) wire_view_id(2,3) [OF ra(2)])
qed

end

text \<open>The scaffold of httpserver.go is such a service.\<close>

definition scaffold_router :: "'a env_scheme Router" where
  "scaffold_router = RegisterHealth (NewRouter Config0 (Some (log_New (Config0\<lparr>cfg_Env := ''development''\<rparr>))))
     \<lparr>hd_DB = None, hd_VLLMProbe = None, hd_Version = version_String, hd_Timeout = 0\<rparr>"

lemma NewMux_scaffold: "NewMux stack = Router_Handler stack scaffold_router"
  by (simp add: NewMux_def scaffold_router_def Let_def)

interpretation scaffold: service scaffold_router
proof
  fix pat and h :: "(ctx, 'a env_scheme) handler"
  assume "(pat, h) \<in> set (rt_mux scaffold_router)"
  then show "polite h"
    by (auto simp: scaffold_router_def RegisterHealth_def Router_Handle_def NewRouter_def Let_def intro: polite_health)
qed

section \<open>Panics\<close>

text \<open>C22: a panicking route never takes the server down and never reaches the client: a response
  that has not begun becomes the generic 500, one that has begun is left exactly as the handler
  made it, and the log has the panic with its stack and then the summary line of what was sent.\<close>

theorem panic_is_contained:
  assumes "handed (rt_logger rt) r w = (i, r', t, w2)" "\<not> isPreflight r"
    "ServeMux (rt_mux rt) r' w2 = (cs, Panicked v, w3)" "\<not> list_ex (\<lambda>c. c = Flush) cs \<or> rq_flusher r"
    "Router_Handler stack rt r w = (out, ex, w')"
  shows "ex = Returned \<and>
    (status_of out, body_of out) =
      (if list_ex sets_status cs then (status_of cs, body_of cs) else (500, ''internal server error'' @ [char_of_byte 10])) \<and>
    w' = log_summary (request_logger (rt_logger rt) i) r t out
           (LogAttrs (request_logger (rt_logger rt) i) LevelError ''panic recovered'' [(''panic'', LStr v), (''stack'', LStr stack)] w3)"
proof -
  let ?lg = "request_logger (rt_logger rt) i"
  let ?cs = "cs @ (if list_ex sets_status cs then [] else http_Error ''internal server error'' 500)"
  have a: "answered stack rt r w = (?cs, Returned,
      LogAttrs ?lg LevelError ''panic recovered'' [(''panic'', LStr v), (''stack'', LStr stack)] w3)"
    using assms(1-3) by (simp add: answered_def recovered_def)
  have fl: "Flush \<in> set (calls_of (ServeMux (rt_mux rt) r' w2)) \<longrightarrow> rq_flusher r"
    using assms(3,4) by (auto simp: list_ex_iff)
  note cr = chain_response [OF assms(1) a fl assms(5)]
  have "(status_of ?cs, body_of ?cs) = (if list_ex sets_status cs then (status_of cs, body_of cs)
      else (500, ''internal server error'' @ [char_of_byte 10]))"
  proof (cases "list_ex sets_status cs")
    case False
    then have q: "\<forall>c \<in> set cs. \<not> sets_status c" by (simp add: list_ex_iff)
    then have "writes_of cs = []" using wire_fold_headers [OF q, of wire0] by (simp add: wire_fold_body wire0_def)
    with False fold_wire_headers_status [OF q] show ?thesis by (simp add: body_of_writes writes_of_http_Error)
  qed simp
  then show ?thesis using cr(1-4) by simp
qed

definition boom_router :: "usage_db Router" where
  "boom_router = Router_Handle (NewRouter Config0 (Some sample_logger)) ''GET /boom''
     (\<lambda>r w. ([SetHeader ''X-Secret'' ''s''], Panicked ''kaboom'', w))"

definition boom_request :: "ctx request" where
  "boom_request = (sample_request [])\<lparr>rq_method := ''GET'', rq_path := ''/boom'', rq_escaped := ''/boom'',
     rq_header := (\<lambda>k. if k = ''X-Request-Id'' then [''id1''] else [])\<rparr>"

theorem panic_is_contained_witness:
  "status_of (calls_of (Router_Handler ''stack'' boom_router boom_request sample_world)) = 500"
proof -
  obtain out ex w' where x: "Router_Handler ''stack'' boom_router boom_request sample_world = (out, ex, w')"
    by (cases "Router_Handler ''stack'' boom_router boom_request sample_world")
  obtain i r' t w2 where h: "handed (rt_logger boom_router) boom_request sample_world = (i, r', t, w2)"
    by (cases "handed (rt_logger boom_router) boom_request sample_world")
  have r': "r' = rewrapped boom_request (rq_ctx r')" using handed_request(1) [OF h] .
  have e: "rq_escaped r' = ''/boom''" "rq_method r' = ''GET''"
    by (subst r', simp add: rewrapped_def boom_request_def)+
  have "mux_find (rt_mux boom_router) ''GET'' ''/boom'' = Some (\<lambda>r w. ([SetHeader ''X-Secret'' ''s''], Panicked ''kaboom'', w), [])"
  proof -
    have "match_pattern ''GET /version'' ''GET'' ''/boom'' = None" "match_pattern ''GET /boom'' ''GET'' ''/boom'' = Some []"
      by code_simp+
    then show ?thesis by (simp add: boom_router_def Router_Handle_def NewRouter_def)
  qed
  moreover have "cleanPath ''/boom'' = ''/boom''" by code_simp
  ultimately have "ServeMux (rt_mux boom_router) r' w2 = ([SetHeader ''X-Secret'' ''s''], Panicked ''kaboom'', w2)"
    by (simp add: ServeMux_def mux_path_def e)
  moreover have "\<not> isPreflight boom_request" by (simp add: isPreflight_def boom_request_def)
  ultimately show ?thesis using panic_is_contained [OF h _ _ _ x] by (simp add: x)
qed

end
