(* ===== verification/App_Properties.thy ===== *)
theory App_Properties
  imports App Http_Properties Admin_Properties Access_Properties
begin

text \<open>
  Properties of the assembled service: every request gets an answer, a request id and one summary
  line; origins are granted by the allowlist alone; and a request without a session and without
  the credentials of an active row changes no table and makes no call to the model, whatever its
  path, its method and its bytes.
\<close>

section \<open>The routes keep to their part\<close>

lemma tame_writeError [simp]: "list_all (tame f) (writeError t m)" "list_all (tame f) (admin_writeError c t m)"
  by (simp_all add: writeError_def admin_writeError_def)

lemma tame_plain:
  "tame f (SetHeader ''Retry-After'' v)" "tame f (SetHeader ''Content-Type'' v)" "tame f (AddHeader ''Set-Cookie'' v)"
  "tame f (SetHeader ''Cache-Control'' v)" "tame f (SetHeader ''Connection'' v)" "tame f (SetHeader ''X-Accel-Buffering'' v)"
  "tame f (SetHeader HeaderSessionID v)"
  by (simp_all add: chain_headers_def HeaderRequestID_def HeaderSessionID_def)

lemma polite_limited:
  assumes "polite h"
  shows "polite (limited L getS putS key h)"
proof -
  have "list_all (tame f) (tooManyRequests n)" for n f
    unfolding tooManyRequests_def list.pred_inject using tame_plain(1,2) by simp
  then show ?thesis
    using assms by (auto simp: polite_def limited_def Let_def split: prod.split)
qed

lemma polite_PerIP: "polite h \<Longrightarrow> polite (PerIP L getS putS rl h)"
  using polite_limited [of h L getS putS] by (auto simp: PerIP_def passthrough_def polite_def)

lemma polite_PerKey: "polite h \<Longrightarrow> polite (PerKey L getS putS rl k h)"
  using polite_limited [of h L getS putS] by (auto simp: PerKey_def passthrough_def polite_def Let_def)

lemma polite_Login: "polite (Login al h)"
  by (auto intro!: politeI simp: Login_def login_unauthorized_def tame_plain Let_def simp del: tame.simps(2)
      split: prod.split sum.split option.split)

lemma polite_ctx:
  assumes "polite h"
  shows "exit_of (h (r\<lparr>rq_ctx := c\<rparr>) w) = Returned" "list_all (tame (rq_flusher r)) (calls_of (h (r\<lparr>rq_ctx := c\<rparr>) w))"
proof -
  have "exit_of (h (r\<lparr>rq_ctx := c\<rparr>) w) = Returned \<and> list_all (tame (rq_flusher (r\<lparr>rq_ctx := c\<rparr>))) (calls_of (h (r\<lparr>rq_ctx := c\<rparr>) w))"
    using assms unfolding polite_def by blast
  then show "exit_of (h (r\<lparr>rq_ctx := c\<rparr>) w) = Returned" "list_all (tame (rq_flusher r)) (calls_of (h (r\<lparr>rq_ctx := c\<rparr>) w))"
    by simp_all
qed

lemma polite_RequireAdmin: "polite h \<Longrightarrow> polite (RequireAdmin j a h)"
  using polite_ctx [of h] by (auto intro!: politeI simp: RequireAdmin_def admin_unauthorized_def split: prod.split option.split)

lemma polite_RequireCredential: "polite h \<Longrightarrow> polite (RequireCredential a h)"
  using polite_ctx [of h] by (auto intro!: politeI simp: RequireCredential_def Let_def split: prod.split sum.split)

lemma polite_keys:
  "polite (keys_Create kh)" "polite (keys_List kh)" "polite (keys_Update kh)" "polite (keys_Revoke kh)"
  by (auto intro!: politeI simp: keys_Create_def keys_List_def keys_Update_def keys_Revoke_def bad_json_def writeStoreError_def
      Let_def split: prod.split sum.split option.split)

subsection \<open>The chat endpoint\<close>

lemma tame_relay: "list_all (tame True) (fst (relayStream cancelled body content k))"
proof (induction cancelled body content k rule: relayStream.induct)
  case (1 cancelled body content k)
  obtain line err rest where r: "ReadBytes body = (line, err, rest)" by (metis surj_pair)
  have w: "list_all (tame True) (relay_writes line)" "list_all (tame True) (relay_broken cancelled)"
    by (simp_all add: relay_writes_def relay_broken_def writeSSEError_def)
  show ?case
    using w "1.IH" [OF r [symmetric] refl refl refl refl refl]
    by (subst relayStream.simps) (auto simp: r Let_def split: prod.split)
qed

lemma tame_stream:
  assumes "rq_flusher r"
  shows "list_all (tame (rq_flusher r)) (fst (streamChat h r p w))"
proof -
  have hd: "list_all (tame True) (stream_headers sid)" for sid
    unfolding stream_headers_def writeSSESession_def list_all_append list.pred_inject using tame_plain(2,4-7) by simp
  have e: "list_all (tame True) (writeSSEError t m)" for t m by (simp add: writeSSEError_def)
  have o: "relayStream (rq_ctxerr r 0) b [] 0 = (out, a, fin, k) \<Longrightarrow> list_all (tame True) out" for b out a fin k
    using tame_relay [of "rq_ctxerr r 0" b "[]" 0] by simp
  show ?thesis
    using hd e assms by (auto simp: streamChat_def Let_def dest: o split: prod.split sum.split)
qed

lemma prepareTurn_tame: "prepareTurn h r w = (Inl out, w1) \<Longrightarrow> list_all (tame f) out"
  by (auto simp: prepareTurn_def prepare_session_def Let_def dest!: parseIncoming_error
      split: option.splits sum.splits body_error.splits if_splits prod.splits)

lemma polite_Chat: "polite (Chat h)"
proof (rule politeI)
  fix r w
  obtain x w1 where p: "prepareTurn h r (snd (now w)) = (x, w1)" by fastforce
  have c: "list_all (tame f) (fst (completeChat h r p w))" for f p w
    by (simp add: completeChat_def Let_def split: prod.split sum.split list.split)
  have s: "list_all (tame (rq_flusher r)) (fst (streamChat h r p w))" for p w
    using tame_stream [of r h p w] by (cases "rq_flusher r") (simp_all add: streamChat_def)
  show "exit_of (Chat h r w) = Returned"
    using p Chat_rejected [of h r w _ w1] Chat_accepted [of h r w _ w1] by (cases x) simp_all
  show "list_all (tame (rq_flusher r)) (calls_of (Chat h r w))"
  proof (cases x)
    case (Inl out)
    with p Chat_rejected [of h r w out w1] prepareTurn_tame [of h r "snd (now w)" out w1] show ?thesis by simp
  next
    case (Inr t)
    with p Chat_accepted [of h r w t w1] c s show ?thesis by (simp add: run_turn_def)
  qed
qed

interpretation app: service "app_router L al cfg lg :: ('l, 'a) app_scheme Router" for L al cfg lg
proof
  fix pat and h :: "(ctx, ('l, 'a) app_scheme) handler"
  assume r: "(pat, h) \<in> set (rt_mux (app_router L al cfg lg))"
  have "polite (login_route L al cfg)"
    unfolding login_route_def Let_def by (intro polite_PerIP polite_Login)
  moreover have "polite (chat_route L cfg lg)"
    unfolding chat_route_def Let_def by (intro polite_RequireCredential polite_PerKey polite_Chat)
  ultimately show "polite h"
    using r by (auto simp: app_table key_routes_def intro: polite_health polite_keys polite_RequireAdmin)
qed

section \<open>Every request is answered, identified and logged\<close>

text \<open>C20: every request to the service, whatever it asks for, is answered without a panic and with its
  request id. As the last thing that happens it leaves one summary line, provided the logger's level lets it
  through: an error line for a 5xx, a warning for a 4xx, else an info line, with the method, the path, the status
  that was sent and the size of the body that was sent (on a \<open>HEAD\<close>, of the body that was written and kept back).\<close>

theorem every_request_is_answered:
  "\<exists>i r' t w2 out w'. handed lg r w = (i, r', t, w2) \<and>
    BuildHandler L al stack cfg lg r w = (out, Returned, w') \<and>
    sent_header out HeaderRequestID = [i] \<and>
    (let before = world_of (answered stack (app_router L al cfg lg) r w);
         level = (if 500 \<le> status_of out then LevelError else if 400 \<le> status_of out then LevelWarn else LevelInfo);
         size = (if rq_method r = ''HEAD'' \<and> bodyAllowed (status_of out) then length (body_of out) else length (sent_body r out));
         line = \<lparr>l_level = level, l_msg = ''request'',
           l_attrs = lg_attrs lg @ [(''request_id'', LStr i), (''method'', LStr (rq_method r)), (''path'', LStr (rq_path r)),
             (''status'', LInt (status_of out)), (''duration_ms'', LInt (trunc_div (fst (now before) - t) 1000000)),
             (''bytes'', LInt (int size))]\<rparr>
     in w' = (snd (now before))\<lparr>logs := logs before @
          (if level_rank level < level_rank (lg_level lg) then [] else [line])\<rparr>)"
proof (rule app.service_answers [of L al cfg lg r w stack])
  fix i r' t w2
  let ?x = "Router_Handler stack (app_router L al cfg lg) r w"
  let ?before = "world_of (answered stack (app_router L al cfg lg) r w)"
  assume h: "handed (rt_logger (app_router L al cfg lg)) r w = (i, r', t, w2)"
    and a: "exit_of ?x = Returned" "sent_header (calls_of ?x) HeaderRequestID = [i]"
    and v: "world_of ?x = log_summary (request_logger (rt_logger (app_router L al cfg lg)) i) r t (calls_of ?x) ?before"
  have l: "logs (snd (now ?before)) = logs ?before" by (simp add: now_def Let_def)
  show ?thesis
    by (rule exI [of _ i], rule exI [of _ r'], rule exI [of _ t], rule exI [of _ w2], rule exI [of _ "calls_of ?x"],
        rule exI [of _ "world_of ?x"])
      (use h a v in \<open>auto simp: BuildHandler_def prod_eq_iff exit_of_def calls_of_def world_of_def log_summary_def LogAttrs_def
        log_line_def request_logger_def Logger_With_def summary_def summary_level_def sent_body_def Let_def l [unfolded world_of_def]\<close>)
qed

text \<open>C32: the allowlist alone decides which origins may read answers with credentials: the grant names
  the caller's origin when it is listed, and there is none otherwise. A preflight is answered 204
  by the chain and runs no route.\<close>

theorem cors_allowlist:
  "(let out = calls_of (BuildHandler L al stack cfg lg r w);
        origin = header_get r ''Origin'';
        listed = (origin \<noteq> [] \<and> origin \<in> set (cfg_CORSAllowedOrigins cfg))
    in sent_header out ''Access-Control-Allow-Origin'' = (if listed then [origin] else []) \<and>
       sent_header out ''Access-Control-Allow-Credentials'' = (if listed then [''true''] else []) \<and>
       (if isPreflight r then status_of out = 204 \<and> body_of out = [] \<and>
          world_of (answered stack (app_router L al cfg lg) r w) = snd (snd (snd (handed lg r w)))
        else status_of out = status_of (calls_of (answered stack (app_router L al cfg lg) r w))))"
proof -
  let ?rt = "app_router L al cfg lg"
  have s: "status_of [WriteHeader 204] = 204" "body_of [WriteHeader 204] = []"
    by (simp_all add: status_of_def body_of_def wire_run_def wire_header_def wire0_def)
  have p: "isPreflight r \<Longrightarrow> answered stack ?rt r w = ([WriteHeader 204], Returned, snd (snd (snd (handed lg r w))))"
    by (simp add: answered_def split: prod.split)
  show ?thesis
    using app.service_grants [where L = L and al = al and cfg = cfg and lg = lg and r = r and w = w and stack = stack]
    by (rule_tac r = r and w = w and stack = stack and L = L and al = al and cfg = cfg and lg = lg in app.service_answers)
      (auto simp: BuildHandler_def p s Let_def)
qed

section \<open>Requests without credentials\<close>

text \<open>
  The tables are as before and every outbound request was a bare \<open>GET\<close>, as the health probe
  makes it: no body, no header, so not the upstream key.
\<close>

definition bare_get :: "http_out \<Rightarrow> bool" where
  "bare_get q \<longleftrightarrow> out_method q = ''GET'' \<and> out_headers q = [] \<and> out_body q = []"

definition tables :: "'a usage_db_scheme \<Rightarrow> User list \<times> APIKey list \<times> conversation_row list \<times> StoredMessage list \<times> usage_row list \<times> task list" where
  "tables w = (users w, api_keys w, conversations w, messages w, gateway_usage w, tasks w)"

definition harmless :: "'a usage_db_scheme \<Rightarrow> 'a usage_db_scheme \<Rightarrow> bool" where
  "harmless w w' \<longleftrightarrow> tables w' = tables w \<and> (\<exists>qs. net_log w' = net_log w @ qs \<and> list_all bare_get qs)"

lemma harmless_refl [simp]: "harmless w w"
  by (simp add: harmless_def)

lemma harmless_trans: "harmless a b \<Longrightarrow> harmless b c \<Longrightarrow> harmless a c"
  unfolding harmless_def by (metis append_assoc list_all_append)

lemma harmlessI: "tables w' = tables w \<Longrightarrow> net_log w' = net_log w \<Longrightarrow> harmless w w'"
  by (simp add: harmless_def)

lemma harmless_steps:
  "harmless w (w\<lparr>outcomes := os\<rparr>)" "harmless w (snd (now w))" "harmless w (snd (rand_read n w))" "harmless w (LogAttrs lg lvl m as w)"
  by (auto intro!: harmlessI simp: tables_def now_def rand_read_def LogAttrs_def log_line_def Let_def)

lemma harmless_pg_exec:
  assumes "\<And>w. harmless w (snd (stmt w))"
  shows "harmless w (snd (pg_exec stmt w))"
  by (cases stmt w rule: pg_exec_cases) (auto intro: assms harmless_steps harmless_trans)

lemma harmless_GetByEmail: "harmless w (snd (user_GetByEmail e w))"
  unfolding user_GetByEmail_def user_getOne_world by (rule harmless_pg_exec) (simp split: option.split)

lemma harmless_newRequestID: "harmless w (snd (newRequestID w))"
proof -
  obtain x w1 where x: "rand_read 16 w = (x, w1)" by fastforce
  then have "harmless w w1" using harmless_steps(3) [where n = 16 and w = w] by simp
  with x show ?thesis
    using harmless_trans [OF _ harmless_steps(2) [of w1], of w]
    by (cases x) (auto simp: newRequestID_def split: prod.split)
qed

lemma harmless_handed: "handed lg r w = (i, r', t, w2) \<Longrightarrow> harmless w w2"
proof -
  assume h: "handed lg r w = (i, r', t, w2)"
  let ?w1 = "if header_get r HeaderRequestID = [] then snd (newRequestID w) else w"
  have "w2 = snd (now ?w1)"
    using h by (cases "newRequestID w") (auto simp: handed_def split: prod.splits if_splits)
  moreover have "harmless w ?w1" using harmless_newRequestID [of w] by simp
  ultimately show ?thesis using harmless_trans [OF _ harmless_steps(2)] by blast
qed

lemma harmless_probe: "harmless w (snd (NewVLLMProbe url w))"
  by (auto simp: NewVLLMProbe_def http_do_def Let_def harmless_def tables_def bare_get_def split: net_result.split)

lemma harmless_readiness: "harmless w (world_of (readinessHandler (readiness_deps cfg) r w))"
proof -
  obtain a b w1 where p: "check_postgres (readiness_deps cfg) w = (a, b, w1)" by (metis surj_pair)
  obtain c w2 where v: "check_vllm (readiness_deps cfg) w1 = (c, w2)" by (metis surj_pair)
  have "harmless w (snd (pool_Ping w))" unfolding pool_Ping_def by (rule harmless_pg_exec) simp
  with p have "harmless w w1"
    by (auto simp: check_postgres_def readiness_deps_def split: prod.splits sum.splits)
  moreover have "harmless w1 w2"
    using v harmless_probe [of w1 "cfg_VLLMURL cfg"] by (auto simp: check_vllm_def readiness_deps_def split: prod.splits sum.splits)
  ultimately show ?thesis using harmless_trans by (simp add: readinessHandler_def p v)
qed

lemma harmless_Login: "harmless w (world_of (Login al (NewLoginHandler user_GetByEmail i s) r w))"
proof (cases "decode_login (rq_body r)")
  case (Some q)
  obtain x w1 where g: "user_GetByEmail (lr_Email q) w = (x, w1)" by fastforce
  then have "harmless w w1" using harmless_GetByEmail [of w "lr_Email q"] by simp
  then have "harmless w w1 \<and> harmless w (snd (now w1))" using harmless_trans harmless_steps(2) by blast
  with Some g show ?thesis
    by (auto simp: Login_def NewLoginHandler_def Let_def split: sum.split prod.split)
qed (simp add: Login_def)

lemma harmless_limited:
  assumes "\<And>s w. harmless w (putS s w)" "\<And>w. harmless w (world_of (h r w))"
  shows "harmless w (world_of (limited L getS putS k h r w))"
proof -
  obtain ok s w1 where a: "allow L k (getS w) w = (ok, s, w1)" by (metis surj_pair)
  then have "w1 = snd (now (snd (now w)))" by (auto simp: allow_def split: prod.splits)
  then have "harmless w w1" using harmless_steps(2) harmless_trans by blast
  then have "harmless w (putS s w1)" using assms(1) harmless_trans by blast
  moreover have "harmless w (world_of (h r (putS s w1)))" using calculation assms(2) harmless_trans by blast
  ultimately show ?thesis by (simp add: limited_def a Let_def)
qed

lemma harmless_login_route: "harmless w (world_of (login_route L al cfg r w))"
  unfolding login_route_def Let_def PerIP_def
  by (auto simp: passthrough_def harmlessI tables_def intro!: harmless_limited harmless_Login)

text \<open>The guards, for a request that passes neither.\<close>

definition anonymous :: "jwt \<Rightarrow> Issuer \<Rightarrow> APIKey list \<Rightarrow> 'c request \<Rightarrow> bool" where
  "anonymous j i ks r \<longleftrightarrow> (\<forall>t. session_of j i r t = None) \<and> \<not> list_ex (authentic ks r) ks"

lemma harmless_RequireAdmin:
  assumes "anonymous j i ks r"
  shows "harmless w (world_of (RequireAdmin j (admin_NewAuthenticator i) h r w))"
proof -
  obtain x w1 where "admin_authenticate j (admin_NewAuthenticator i) r w = (x, w1)" by fastforce
  then show ?thesis
    using authenticate_session [of j i r w] assms harmless_steps(2) [of w] by (auto simp: RequireAdmin_def anonymous_def)
qed

lemma harmless_RequireCredential:
  assumes "anonymous j i (api_keys w) r"
  shows "harmless w (world_of (RequireCredential (NewAuthenticator repo_credentialStore) h r w))"
proof -
  let ?a = "NewAuthenticator repo_credentialStore"
  obtain x w1 where g: "gw_authenticate ?a r w = (x, w1)" by fastforce
  have "harmless w w1" using authenticate_world [of r w] g harmless_steps(1) by auto
  moreover have "x \<noteq> Inr cr" for cr
  proof
    assume "x = Inr cr"
    with g repo_cs.authenticate_sound [of ?a r w cr w1] obtain k where "authentic (api_keys w) r k" by auto
    with assms show False by (auto simp: anonymous_def list_ex_iff authentic_def)
  qed
  ultimately show ?thesis using g by (cases x) (auto simp: RequireCredential_def)
qed

lemma harmless_routes:
  assumes "(pat, h) \<in> set (rt_mux (app_router L al cfg lg))" "anonymous (al_jwt al) (app_issuer cfg) (api_keys w) r"
  shows "harmless w (world_of (h r w))"
  using assms
  by (auto simp: app_table key_routes_def versionHandler_def livenessHandler_def harmless_readiness harmless_login_route
      chat_route_def Let_def intro: harmless_RequireAdmin harmless_RequireCredential)

text \<open>
  What the service does to the world between the routes is harmless. So whatever relation holds of
  harmless changes and of the changes of the routes a request can reach holds of the request.
\<close>

definition same_caller :: "ctx request \<Rightarrow> ctx request \<Rightarrow> bool" where
  "same_caller r r' \<longleftrightarrow> header_get r' = header_get r \<and> rq_cookie r' = rq_cookie r"

lemma same_caller_facts:
  assumes "same_caller r r'"
  shows "session_of j q r' t = session_of j q r t" "authentic ks r' = authentic ks r" "anonymous j q ks r' = anonymous j q ks r"
proof -
  have hd: "header_get r' = header_get r" "rq_cookie r' = rq_cookie r" using assms by (simp_all add: same_caller_def)
  have tok: "tokenFromRequest r' = tokenFromRequest r" by (simp only: tokenFromRequest_def hd)
  show se: "session_of j q r' t = session_of j q r t" for t by (simp only: session_of_def tok)
  show au: "authentic ks r' = authentic ks r"
    by (rule ext) (simp only: authentic_def presented_key_def presented_secret_def hd)
  show "anonymous j q ks r' = anonymous j q ks r" by (simp only: anonymous_def se au)
qed

locale extends_harmless =
  fixes R :: "('l, 'a) app_scheme \<Rightarrow> ('l, 'a) app_scheme \<Rightarrow> bool"
  assumes of_harmless: "harmless w w' \<Longrightarrow> R w w'"
    and R_trans: "R w w' \<Longrightarrow> R w' w'' \<Longrightarrow> R w w''"
begin

lemma BuildHandler_R:
  assumes routes: "\<And>pat h r' w2. (pat, h) \<in> set (rt_mux (app_router L al cfg lg)) \<Longrightarrow> same_caller r r' \<Longrightarrow> harmless w w2 \<Longrightarrow>
      R w2 (world_of (h r' w2))"
  shows "R w (world_of (BuildHandler L al stack cfg lg r w))"
proof -
  let ?rt = "app_router L al cfg lg"
  obtain i r' t w2 where h: "handed lg r w = (i, r', t, w2)" by (metis surj_pair)
  obtain cs ex w3 where a: "answered stack ?rt r w = (cs, ex, w3)" by (metis surj_pair)
  obtain out ex' w' where x: "Router_Handler stack ?rt r w = (out, ex', w')" by (metis surj_pair)
  have h': "handed (rt_logger ?rt) r w = (i, r', t, w2)" using h by simp
  note aa = app.routes_answer [OF h' a]
  note cr = chain_response [OF h' a aa(3) x]
  have w2: "harmless w w2" by (rule harmless_handed [OF h])
  have caller: "same_caller r (with_values vs r')" for vs
    unfolding same_caller_def by (subst (1 2) handed_request(1) [OF h]) (auto simp: with_values_def rewrapped_def header_get_def)
  have "R w2 w3"
  proof (cases "isPreflight r")
    case False
    have "R w2 (world_of (ServeMux (rt_mux ?rt) r' w2))"
    proof (cases rule: ServeMux_cases [of "rt_mux ?rt" r' w2])
      case (routed pat f vs)
      then show ?thesis using routes [OF routed(1) caller w2] by simp
    qed (simp add: of_harmless)
    moreover have "exit_of (ServeMux (rt_mux ?rt) r' w2) = Returned"
      using app.routes_polite [of _ _ L al cfg lg] by (cases rule: ServeMux_cases [of "rt_mux ?rt" r' w2]) (auto simp: polite_def)
    ultimately show ?thesis
      using a False by (cases "ServeMux (rt_mux ?rt) r' w2") (simp add: answered_def h recovered_def)
  qed (use a in \<open>simp add: answered_def h of_harmless\<close>)
  moreover have "harmless w3 w'"
    using cr(4) harmless_trans [OF harmless_steps(2) harmless_steps(4)] by (auto simp: log_summary_def)
  ultimately have "R w w'" using R_trans [OF R_trans [OF of_harmless [OF w2]] of_harmless] by blast
  then show ?thesis by (simp add: BuildHandler_def x)
qed

end

interpretation no_harm: extends_harmless "harmless :: ('l, 'a) app_scheme \<Rightarrow> ('l, 'a) app_scheme \<Rightarrow> bool"
  by unfold_locales (assumption, rule harmless_trans)

lemma anonymous_request:
  fixes w :: "('l, 'a) app_scheme"
  assumes "anonymous (al_jwt al) (app_issuer cfg) (api_keys w) r"
  shows "harmless w (world_of (BuildHandler L al stack cfg lg r w))"
proof (rule no_harm.BuildHandler_R)
  fix pat r' and h :: "(ctx, ('l, 'a) app_scheme) handler" and w2
  assume h: "(pat, h) \<in> set (rt_mux (app_router L al cfg lg))" "same_caller r r'" "harmless w w2"
  have "api_keys w2 = api_keys w" using h(3) by (simp add: harmless_def tables_def)
  then show "harmless w2 (world_of (h r' w2))"
    using harmless_routes [OF h(1)] assms same_caller_facts(3) [OF h(2)] by simp
qed

text \<open>C3: a request that carries neither a session nor the credentials of an active row changes no
  table, starts no audit and makes no call to the model, whatever its path, method, headers and
  body: the only outbound request it can cause is the probe of the health check, without the key.\<close>

theorem anonymous_is_harmless:
  fixes w :: "('l, 'a) app_scheme"
  assumes "anonymous (al_jwt al) (app_issuer cfg) (api_keys w) r"
  shows "harmless w (world_of (BuildHandler L al stack cfg lg r w))"
  using assms by (rule anonymous_request)

definition sample_config :: Config where
  "sample_config = Config0\<lparr>cfg_JWTSecret := ''jwt-secret'', cfg_VLLMURL := ''http://v''\<rparr>"

definition sample_rate_lib :: "unit rate_lib" where
  "sample_rate_lib = \<lparr>rl_New = (\<lambda>_ _. ()), rl_Allow = (\<lambda>l _. (True, l)), rl_Limit = (\<lambda>_. 0), rl_Burst = (\<lambda>_. 0), rl_TokensAt = (\<lambda>_ _. 0)\<rparr>"

definition app_world :: "unit app" where
  "app_world = usage_db.extend admin_world \<lparr>aw_login = newLimiterSet \<lparr>RequestsPerMinute = 0, Burst = 0\<rparr>,
     aw_gateway = newLimiterSet \<lparr>RequestsPerMinute = 0, Burst = 0\<rparr>\<rparr>"

theorem anonymous_is_harmless_witness:
  "tables (world_of (BuildHandler sample_rate_lib toy_libs ''stack'' sample_config sample_logger
     ((sample_request sample_body)\<lparr>rq_header := (\<lambda>_. [])\<rparr>) app_world)) = tables app_world"
proof -
  let ?r = "(sample_request sample_body)\<lparr>rq_header := (\<lambda>_. [])\<rparr>"
  have t: "TrimSpace [] = []" by code_simp
  have "presented_key ?r = []" by (simp add: presented_key_def header_get_def t)
  moreover have "tokenFromRequest ?r = []" by (simp add: tokenFromRequest_def header_get_def sample_request_def Let_def)
  ultimately have "anonymous (al_jwt toy_libs) (app_issuer sample_config) (api_keys app_world) ?r"
    by (simp add: anonymous_def session_of_def authentic_def list_ex_iff)
  from anonymous_is_harmless [OF this] show ?thesis by (simp add: harmless_def)
qed

section \<open>From the service to its routes\<close>

text \<open>C21: what is proved of a route holds of the service. A request that matches the pattern of a route, on a
  clean path and not a preflight, is answered with the status and the body of that route's handler, and whatever
  the handler does to the world is what happens, apart from the request id before and the summary line after.
  It does not matter which other routes there are, or in what order they were registered.\<close>

theorem requests_reach_their_route:
  assumes "(pat, h) \<in> set (rt_mux (app_router L al cfg lg))" "match_pattern pat (rq_method r) (rq_escaped r) = Some vs"
    and "cleanPath (rq_escaped r) = rq_escaped r" "\<not> isPreflight r" "handed lg r w = (i, r', t, w2)"
  shows "status_of (calls_of (BuildHandler L al stack cfg lg r w)) = status_of (calls_of (h (with_values vs r') w2)) \<and>
    body_of (calls_of (BuildHandler L al stack cfg lg r w)) = body_of (calls_of (h (with_values vs r') w2)) \<and>
    world_of (BuildHandler L al stack cfg lg r w) =
      log_summary (request_logger lg i) r t (calls_of (BuildHandler L al stack cfg lg r w)) (world_of (h (with_values vs r') w2))"
proof -
  let ?rt = "app_router L al cfg lg"
  have r': "rq_method r' = rq_method r" "rq_escaped r' = rq_escaped r"
    by (subst handed_request(1) [OF assms(5)], simp add: rewrapped_def)+
  have "cleanPath ''*'' \<noteq> ''*''" by code_simp
  then have "rq_escaped r \<noteq> ''*''" using assms(3) by auto
  moreover have "mux_find (rt_mux ?rt) (rq_method r) (rq_escaped r) = Some (h, vs)"
    by (rule app_mux_find [OF assms(1,2)])
  ultimately have "ServeMux (rt_mux ?rt) r' w2 = h (with_values vs r') w2"
    using assms(3) r' by (simp add: ServeMux_def mux_path_def)
  moreover have "exit_of (h (with_values vs r') w2) = Returned" using app.routes_polite [OF assms(1)] by (simp add: polite_def)
  then obtain cs w3 where "h (with_values vs r') w2 = (cs, Returned, w3)" by (cases "h (with_values vs r') w2") simp
  ultimately have "answered stack ?rt r w = h (with_values vs r') w2"
    using assms(4,5) by (simp add: answered_def recovered_def)
  then show ?thesis
    using assms(5) by (rule_tac r = r and w = w and stack = stack and L = L and al = al and cfg = cfg and lg = lg in app.service_answers)
      (simp add: BuildHandler_def)
qed

definition version_request :: "ctx request" where
  "version_request = (sample_request [])\<lparr>rq_method := ''GET'', rq_path := ''/version'', rq_escaped := ''/version''\<rparr>"

theorem requests_reach_their_route_witness:
  "status_of (calls_of (BuildHandler sample_rate_lib toy_libs ''stack'' sample_config sample_logger version_request app_world)) = 200"
proof -
  let ?rt = "app_router sample_rate_lib toy_libs sample_config sample_logger :: (unit, unit) app_scheme Router"
  obtain i r' t w2 where h: "handed sample_logger version_request app_world = (i, r', t, w2)" by (metis surj_pair)
  have "(''GET /version'', versionHandler) \<in> set (rt_mux ?rt)" by (simp add: app_table)
  moreover have "match_pattern ''GET /version'' (rq_method version_request) (rq_escaped version_request) = Some []"
    "cleanPath (rq_escaped version_request) = rq_escaped version_request" "\<not> isPreflight version_request"
    by (simp_all add: version_request_def isPreflight_def) code_simp+
  ultimately show ?thesis
    using requests_reach_their_route [OF _ _ _ _ h, where stack = "''stack''"] by (simp add: versionHandler_def)
qed

end
