(* ===== verification/System.thy ===== *)
theory System
  imports Integrity App_Properties
begin

text \<open>
  The running system: any number of requests to the service, the goroutines they leave behind,
  and the command that makes accounts, in any order, with anything happening to the clock, the
  network and the schedule of faults in between. What holds of the database through all of it.
\<close>

section \<open>A chat turn\<close>

lemma lawful_Resolve: "lawful w (snd (Resolve (db_core n) a s m w))"
proof -
  have "snd (Resolve (db_core n) a s m w) =
      (if s = [] then snd (conv_CreateConversation a m w) else snd (conv_GetConversation a s w))"
    by (auto simp: Resolve_def split: prod.splits sum.splits)
  then show ?thesis by (simp add: lawful_methods)
qed

lemma lawful_PersistExchange:
  assumes "\<forall>m \<in> set us. turn_role (Role m)" "turn_role (Role a)"
  shows "lawful w (snd (PersistExchange (db_core n) c us a w))"
proof -
  obtain r1 w1 where l: "conv_LoadHistory (cv_ID c) w = (r1, w1)" by fastforce
  then have w1: "lawful w w1" using lawful_methods(11) [of w "cv_ID c"] by simp
  show ?thesis
  proof (cases r1)
    case (Inl e)
    with l w1 show ?thesis by (simp add: PersistExchange_def)
  next
    case (Inr ms)
    let ?ns = "map toNewMessage (dropOverlap (toMessages ms) us) @ [toNewMessage a]"
    have "\<forall>m \<in> set ?ns. turn_role (nm_Role m)"
      using assms set_dropOverlap [of "toMessages ms" us] by (auto simp: toNewMessage_def)
    then have "lawful w1 (snd (conv_AppendMessages (cv_ID c) ?ns w1))" by (rule lawful_AppendMessages)
    then show ?thesis using l Inr lawful_trans [OF w1] by (simp add: PersistExchange_def Let_def)
  qed
qed

lemma lawful_prepareTurn: "prepareTurn (db_handler n c lg) r w = (x, w') \<Longrightarrow> lawful w w'"
proof (cases "\<exists>cred req inc. CredentialFromContext (rq_ctx r) = Some cred
    \<and> decode_request (parse_float w) (rq_body r) = Inr req \<and> parseIncoming req = Inr inc")
  case False
  assume "prepareTurn (db_handler n c lg) r w = (x, w')"
  then have "w' = w"
    using False by (auto simp: prepareTurn_def split: option.splits sum.splits body_error.splits)
  then show ?thesis by simp
next
  case True
  assume p: "prepareTurn (db_handler n c lg) r w = (x, w')"
  from True obtain cred req inc where eq: "CredentialFromContext (rq_ctx r) = Some cred"
    "decode_request (parse_float w) (rq_body r) = Inr req" "parseIncoming req = Inr inc" by blast
  obtain y w1 where rs: "Resolve (db_core n) (crd_ID cred) (TrimSpace (rb_SessionID req)) (TrimSpace (rb_Model req)) w = (y, w1)"
    by fastforce
  have w1: "lawful w w1" using lawful_Resolve [of w n] rs by (metis snd_conv)
  have "w' = snd (prepare_session (db_handler n c lg) cred req inc w)"
    using p by (simp add: prepareTurn_def eq)
  also have "\<dots> \<in> {w, w1} \<union> {snd (AssembleContext (db_core n) q k inc w1) | q k. True}"
    using prepare_session_world [of "db_handler n c lg" cred req w y w1 inc] rs by simp
  finally have "w' = w \<or> w' = w1 \<or> (\<exists>k. w' = snd (conv_LoadHistory k w1))"
    by (auto simp: AssembleContext_world)
  then show ?thesis using w1 lawful_trans [OF w1 lawful_methods(11)] by auto
qed

lemma bookkeeping_data: "bookkeeping u v \<Longrightarrow> data v = data u"
proof -
  assume "bookkeeping u v"
  then have e: "v = u\<lparr>clock := clock v, ticks := ticks v, logs := logs v, tasks := tasks v\<rparr>" by (simp add: bookkeeping_def)
  show ?thesis by (subst e) (simp add: data_def)
qed

lemma quiet_data: "same_but_net u v \<Longrightarrow> data v = data u"
  by (auto simp: same_but_net_def data_def)

lemma lawful_path:
  assumes "path_after n c lg r p w v" "\<forall>m \<in> set (pt_incoming p). turn_role (Role m)"
  shows "lawful w v"
proof -
  obtain u where u: "audited n c lg r p u v"
    "u = w \<or> (\<exists>a x. Role a = RoleAssistant \<and> PersistExchange (db_core n) (pt_conv p) (pt_incoming p) a w = (x, u))"
    using assms(1) unfolding path_after_def by blast
  from u(2) have "lawful w u"
  proof
    assume "\<exists>a x. Role a = RoleAssistant \<and> PersistExchange (db_core n) (pt_conv p) (pt_incoming p) a w = (x, u)"
    then obtain a x where "Role a = RoleAssistant" "PersistExchange (db_core n) (pt_conv p) (pt_incoming p) a w = (x, u)" by blast
    then show ?thesis using lawful_PersistExchange [OF assms(2), of a w n "pt_conv p"] by (simp add: turn_role_def)
  qed simp
  then show ?thesis using lawful_trans lawful_data [OF bookkeeping_data [OF audited_bookkeeping [OF u(1)]]] by blast
qed

lemma lawful_Chat: "lawful w (world_of (Chat (db_handler n c lg) r w))"
proof (cases rule: Chat_world [of n c lg r w])
  case (rejected out w1)
  then show ?thesis using lawful_via [OF data_steps(2) lawful_prepareTurn] by simp
next
  case (accepted p w1)
  have "\<forall>m \<in> set (pt_incoming p). turn_role (Role m)"
    using accepted(1) by (rule prepareTurn_Inr) (auto dest: parseIncoming_turns)
  then have "lawful (called c r (p\<lparr>pt_start := fst (now w)\<rparr>) w1) (world_of (Chat (db_handler n c lg) r w))"
    by (intro lawful_path [OF accepted(2)]) simp
  then have "lawful w1 (world_of (Chat (db_handler n c lg) r w))"
    by (rule lawful_via [OF quiet_data [OF called_quiet]])
  then show ?thesis using lawful_via [OF data_steps(2) lawful_trans [OF lawful_prepareTurn [OF accepted(1)]]] by simp
qed

section \<open>The routes\<close>

lemma lawful_harmless: "harmless w w' \<Longrightarrow> lawful w w'"
  by (rule lawful_data) (simp add: harmless_def tables_def data_def)

lemma lawful_RequireCredential:
  assumes "\<And>r w. lawful w (world_of (h r w))"
  shows "lawful w (world_of (RequireCredential (NewAuthenticator repo_credentialStore) h r w))"
proof -
  let ?a = "NewAuthenticator repo_credentialStore"
  obtain x w1 where g: "gw_authenticate ?a r w = (x, w1)" by fastforce
  have w1: "data w1 = data w" using authenticate_world [of r w] g by auto
  show ?thesis
  proof (cases x)
    case (Inl e)
    then show ?thesis using g w1 by (auto simp: RequireCredential_def lawful_data)
  next
    case (Inr cr)
    have "data (au_touch ?a (crd_ID cr) w1) = data w" using w1 by (simp add: NewAuthenticator_def touchLastUsedAsync_def)
    then show ?thesis using g Inr lawful_via [OF _ assms] by (simp add: RequireCredential_def Let_def)
  qed
qed

lemma lawful_limited:
  assumes "\<And>s w. data (putS s w) = data w" "\<And>r w. lawful w (world_of (h r w))"
  shows "lawful w (world_of (limited L getS putS k h r w))"
proof -
  obtain ok s w1 where a: "allow L k (getS w) w = (ok, s, w1)" by (metis surj_pair)
  then have "w1 = snd (now (snd (now w)))" by (auto simp: allow_def split: prod.splits)
  then have d: "data (putS s w1) = data w" by (simp add: assms(1))
  show ?thesis using lawful_via [OF d assms(2)] lawful_data [OF d] by (simp add: limited_def a Let_def)
qed

lemma lawful_RequireAdmin:
  assumes "\<And>r w. lawful w (world_of (h r w))"
  shows "lawful w (world_of (RequireAdmin j (admin_NewAuthenticator i) h r w))"
proof -
  obtain x w1 where "admin_authenticate j (admin_NewAuthenticator i) r w = (x, w1)" by fastforce
  then show ?thesis
    using authenticate_session [of j i r w] lawful_via [OF _ assms, of w1 w] lawful_data [of w1 w] data_steps(2) [of w]
    by (auto simp: RequireAdmin_def split: option.splits)
qed

lemma Generate_data: "data (snd (Generate w)) = data w"
  by (auto simp: Generate_def randToken_def rand_read_def data_def split: option.split prod.split)

lemma lawful_keys_handlers:
  "lawful w (world_of (keys_Create (NewKeysHandler repo_keyStore) r w))" "lawful w (world_of (keys_List (NewKeysHandler repo_keyStore) r w))"
  "lawful w (world_of (keys_Update (NewKeysHandler repo_keyStore) r w))" "lawful w (world_of (keys_Revoke (NewKeysHandler repo_keyStore) r w))"
proof -
  obtain x w1 where g: "Generate w = (x, w1)" by fastforce
  then have d: "data w1 = data w" using Generate_data [of w] by simp
  have "world_of (keys_Create (NewKeysHandler repo_keyStore) r w) \<in> {w, w1} \<union> {snd (apikey_Create p w1) | p. True}"
    by (auto simp: keys_Create_def NewKeysHandler_def repo_keyStore_def g Let_def split: option.split sum.split prod.split)
      (metis snd_conv)+
  then show "lawful w (world_of (keys_Create (NewKeysHandler repo_keyStore) r w))"
    using lawful_via [OF d lawful_methods(1)] lawful_data [OF d] by auto
  show "lawful w (world_of (keys_List (NewKeysHandler repo_keyStore) r w))"
    using lawful_methods(7) [of w] by (auto simp: keys_List_def NewKeysHandler_def repo_keyStore_def split: sum.split prod.split)
  show "lawful w (world_of (keys_Revoke (NewKeysHandler repo_keyStore) r w))"
    using lawful_methods(3) [of w "rq_path_value r ''id''"]
    by (auto simp: keys_Revoke_def NewKeysHandler_def repo_keyStore_def Let_def split: sum.split prod.split)
  obtain y w2 where gb: "apikey_GetByID (rq_path_value r ''id'') w = (y, w2)" by fastforce
  then have w2: "lawful w w2" using lawful_methods(6) [of w "rq_path_value r ''id''"] by simp
  have "world_of (keys_Update (NewKeysHandler repo_keyStore) r w) \<in> {w, w2} \<union> {snd (apikey_Update i q w2) | i q. True}"
    by (auto simp: keys_Update_def NewKeysHandler_def repo_keyStore_def gb Let_def split: option.split sum.split prod.split)
      (metis snd_conv)+
  then show "lawful w (world_of (keys_Update (NewKeysHandler repo_keyStore) r w))"
    using w2 lawful_trans [OF w2 lawful_methods(2)] by auto
qed

lemma lawful_PerKey:
  assumes "\<And>s w. data (putS s w) = data w" "\<And>r w. lawful w (world_of (h r w))"
  shows "lawful w (world_of (PerKey L getS putS rl key h r w))"
  using lawful_limited [where h = h and putS = putS, OF assms] assms(2) by (auto simp: PerKey_def passthrough_def Let_def)

lemma lawful_chat_route: "lawful w (world_of (chat_route L cfg lg r w))"
  unfolding chat_route_def Let_def db_core_def [symmetric] db_handler_def [symmetric]
  by (intro lawful_RequireCredential lawful_PerKey lawful_Chat) (simp add: data_def)

lemma lawful_routes:
  assumes "(pat, h) \<in> set (rt_mux (app_router L al cfg lg))"
  shows "lawful w (world_of (h r w))"
proof -
  have "lawful w (world_of (login_route L al cfg r w))" "lawful w (world_of (readinessHandler (readiness_deps cfg) r w))"
    by (rule lawful_harmless, rule harmless_login_route, rule lawful_harmless, rule harmless_readiness)
  then show ?thesis
    using assms
    by (auto simp: app_table key_routes_def versionHandler_def livenessHandler_def intro!: lawful_RequireAdmin lawful_keys_handlers
        lawful_chat_route)
qed

interpretation law: extends_harmless "lawful :: ('l, 'a) app_scheme \<Rightarrow> ('l, 'a) app_scheme \<Rightarrow> bool"
  by unfold_locales (rule lawful_harmless, assumption, rule lawful_trans)

lemma lawful_request: "lawful w (world_of (BuildHandler L al stack cfg lg r w))"
  by (rule law.BuildHandler_R) (rule lawful_routes)

section \<open>What runs beside the requests\<close>

lemma lawful_run_task: "lawful w (run_task t w)"
proof (cases t)
  case (TaskTouch i)
  then show ?thesis by (simp add: lawful_methods)
next
  case (TaskUsage lg rec)
  obtain x w1 where u: "usage_Record rec w = (x, w1)" by fastforce
  then have w1: "lawful w w1" using lawful_methods(8) [of w rec] by simp
  show ?thesis
    using w1 lawful_trans [OF w1 lawful_data [OF data_steps(6)]] u by (cases x) (simp_all add: TaskUsage)
qed

lemma create_world:
  "snd (case p of (Inr u, w') \<Rightarrow> (Inr u, w') | (Inl e, w') \<Rightarrow> if e = E then (Inl a, w') else (Inl (f e), w')) = snd p"
  by (cases p; cases "fst p") auto

lemma lawful_account_statements:
  "lawful w (snd (user_Create email hash su w))" "lawful w (snd (user_GetByEmail email w))" "lawful w (snd (user_UpdatePassword i hash w))"
proof -
  show "lawful w (snd (user_Create email hash su w))"
    unfolding user_Create_def create_world
  proof (rule lawful_pg_exec)
    fix w :: "'a usage_db_scheme"
    let ?r = "(if \<not> text_ok w email \<or> \<not> text_ok w hash then (Inl bad_encoding, w)
          else case gen_uuid w of (i, w1) \<Rightarrow>
          case pg_now w1 of (t, w2) \<Rightarrow>
            if list_ex (\<lambda>u. u_ID u = i \<or> citext_key w2 (u_Email u) = citext_key w2 email) (users w2)
            then (Inl unique_violation, w2)
            else let u = \<lparr>u_ID = i, u_Email = email, u_PasswordHash = hash, u_IsSuperuser = su,
                          u_CreatedAt = t, u_UpdatedAt = t\<rparr>
                 in (Inr u, w2\<lparr>users := users w2 @ [u]\<rparr>)) :: (pgerr, User) result \<times> 'a usage_db_scheme"
    have "data (snd ?r) = data w \<or> (\<exists>u. data (snd ?r) = (users w @ [u], snd (data w)) \<and> (\<forall>v \<in> set (users w). u_ID v \<noteq> u_ID u))"
      by (auto simp: gen_uuid_def pg_now_def now_def Let_def data_def list_ex_iff)
    then show "lawful w (snd ?r)"
    proof
      assume "\<exists>u. data (snd ?r) = (users w @ [u], snd (data w)) \<and> (\<forall>v \<in> set (users w). u_ID v \<noteq> u_ID u)"
      then obtain u where u: "data (snd ?r) = (users w @ [u], snd (data w))" "\<forall>v \<in> set (users w). u_ID v \<noteq> u_ID u" by blast
      show ?thesis by (rule lawful_users [OF u(1)]) (use u(2) in \<open>auto simp: integrity_def\<close>)
    qed (rule lawful_data)
  qed
  show "lawful w (snd (user_GetByEmail email w))" by (rule lawful_harmless [OF harmless_GetByEmail])
  show "lawful w (snd (user_UpdatePassword i hash w))"
    unfolding user_UpdatePassword_def user_getOne_world
  proof (rule lawful_pg_exec)
    fix w :: "'a usage_db_scheme"
    let ?f = "\<lambda>j t u. if u_ID u = j then u\<lparr>u_PasswordHash := hash, u_UpdatedAt := t\<rparr> else u"
    let ?r = "(if \<not> text_ok w hash then (Inl bad_encoding, w)
       else case uuid_in w i of
         None \<Rightarrow> (Inl (uuid_error w i), w)
       | Some j \<Rightarrow> (case pg_now w of (t, w1) \<Rightarrow>
           let f = ?f j t
           in case find (\<lambda>u. u_ID u = j) (users w1) of
             None \<Rightarrow> (Inl NoRows, w1)
           | Some u \<Rightarrow> (Inr (f u), w1\<lparr>users := map f (users w1)\<rparr>))) :: (pgerr, User) result \<times> 'a usage_db_scheme"
    have "data (snd ?r) = data w \<or> (\<exists>j t. data (snd ?r) = (map (?f j t) (users w), snd (data w)))"
      by (auto simp: pg_now_def now_def Let_def data_def split: option.split)
    then show "lawful w (snd ?r)"
      by (elim disjE exE) (rule lawful_data, assumption, erule lawful_update_user, simp)
  qed
qed

lemma HashPassword_data: "data (snd (HashPassword bc pw w)) = data w"
  by (simp add: HashPassword_def rand_read_def data_def split: option.split)

lemma lawful_createSuperuser: "lawful w (snd (createSuperuser bc email pw upd w))"
proof -
  obtain x w1 where h: "HashPassword bc pw w = (x, w1)" by fastforce
  have w1: "lawful w w1" using HashPassword_data [of bc pw w] h by (simp add: lawful_data)
  show ?thesis
  proof (cases x)
    case (Inl e)
    then show ?thesis using h w1 by (simp add: createSuperuser_def)
  next
    case (Inr hash)
    obtain y w2 where c: "user_Create email hash True w1 = (y, w2)" by fastforce
    have w2: "lawful w w2" using lawful_trans [OF w1] lawful_account_statements(1) c by (metis snd_conv)
    obtain z w3 where g: "user_GetByEmail email w2 = (z, w3)" by fastforce
    have w3: "lawful w w3" using lawful_trans [OF w2] lawful_account_statements(2) g by (metis snd_conv)
    have "snd (createSuperuser bc email pw upd w) \<in> {w2, w3} \<union> {snd (user_UpdatePassword i hash w3) | i. True}"
      using h c g Inr by (auto simp: createSuperuser_def split: sum.split prod.split) (metis snd_conv)+
    then show ?thesis using w2 w3 lawful_trans [OF w3 lawful_account_statements(3)] by auto
  qed
qed

lemma db_New_data: "db_New X ctx cfg p w = (r, p', w') \<Longrightarrow> data w' = data w"
  by (rule db_New_keeps [where f = data]) simp_all

lemma lawful_su_run: "lawful w (snd (snd (su_run x args p w)))"
proof -
  obtain t w0 where n: "now w = (t, w0)" by fastforce
  then have n0: "data w0 = data w" using data_steps(2) [of w] by simp
  have db: "db_New X ctx cfg p w0 = (r, p', v) \<Longrightarrow> data v = data w" for X ctx cfg p r p' v
    using db_New_data n0 by metis
  have cs: "db_New X ctx cfg p w0 = (r, p', v) \<Longrightarrow> createSuperuser bc e q u v = (y, v') \<Longrightarrow> lawful w v'"
    for X ctx cfg p r p' v bc e q u y v'
    using lawful_via [OF db lawful_createSuperuser] by (metis snd_conv)
  show ?thesis
    by (auto simp: su_run_def n Let_def split: option.split sum.split prod.split intro: cs lawful_data [OF db])
qed

section \<open>Every run of the system\<close>

text \<open>
  The operations of the repositories, with any arguments a handler may give them. Handlers are run
  concurrently: what a request in flight does to the database is a sequence of these, with those
  of other requests between them.
\<close>

inductive repo_step :: "'a usage_db_scheme \<Rightarrow> 'a usage_db_scheme \<Rightarrow> bool" where
  repo_key_create: "repo_step w (snd (apikey_Create p w))"
| repo_key_active: "repo_step w (snd (apikey_GetActiveByKeyID kid w))"
| repo_key_get: "repo_step w (snd (apikey_GetByID i w))"
| repo_key_list: "repo_step w (snd (apikey_List w))"
| repo_key_update: "repo_step w (snd (apikey_Update i q w))"
| repo_key_revoke: "repo_step w (snd (apikey_Revoke i w))"
| repo_key_touch: "repo_step w (snd (apikey_TouchLastUsed i w))"
| repo_conv_create: "repo_step w (snd (conv_CreateConversation a m w))"
| repo_conv_get: "repo_step w (snd (conv_GetConversation a c w))"
| repo_conv_load: "repo_step w (snd (conv_LoadHistory c w))"
| repo_conv_append: "\<forall>m \<in> set ms. turn_role (nm_Role m) \<Longrightarrow> repo_step w (snd (conv_AppendMessages c ms w))"
| repo_usage: "repo_step w (snd (usage_Record rec w))"
| repo_user_create: "repo_step w (snd (user_Create email hash su w))"
| repo_user_email: "repo_step w (snd (user_GetByEmail email w))"
| repo_user_password: "repo_step w (snd (user_UpdatePassword i hash w))"

lemma lawful_repo_step: "repo_step w w' \<Longrightarrow> lawful w w'"
  by (induction rule: repo_step.induct) (rule lawful_methods lawful_account_statements lawful_AppendMessages, assumption?)+

text \<open>
  A step: a whole request, one operation of a request in flight, a goroutine that was waiting, a run
  of createsuperuser, or anything that leaves the tables alone: the clock, faults, a restart.
\<close>

inductive system_step :: "'l rate_lib \<Rightarrow> auth_libs \<Rightarrow> string \<Rightarrow> Config \<Rightarrow> Logger \<Rightarrow> ('l, 'a) app_scheme \<Rightarrow> ('l, 'a) app_scheme \<Rightarrow> bool"
  for L al stack cfg lg where
  sys_request: "system_step L al stack cfg lg w (world_of (BuildHandler L al stack cfg lg r w))"
| sys_operation: "repo_step w w' \<Longrightarrow> system_step L al stack cfg lg w w'"
| sys_task: "t \<in> set (tasks w) \<Longrightarrow> system_step L al stack cfg lg w (run_task t (w\<lparr>tasks := remove1 t (tasks w)\<rparr>))"
| sys_account: "system_step L al stack cfg lg w (snd (snd (su_run x args p w)))"
| sys_environment: "data w' = data w \<Longrightarrow> system_step L al stack cfg lg w w'"

inductive_cases system_stepE: "system_step L al stack cfg lg w w'"

lemma lawful_step: "system_step L al stack cfg lg w w' \<Longrightarrow> lawful w w'"
  by (elim system_stepE) (auto intro: lawful_request lawful_repo_step lawful_via [OF data_steps(8) lawful_run_task] lawful_su_run lawful_data)

lemma lawful_run: "(system_step L al stack cfg lg)\<^sup>*\<^sup>* w w' \<Longrightarrow> lawful w w'"
  by (induction rule: rtranclp_induct) (auto intro: lawful_trans lawful_step)

text \<open>A database as the migrations leave it has integrity.\<close>

lemma empty_integrity: "data w = ([], [], [], [], []) \<Longrightarrow> integrity w"
  by (simp add: data_def integrity_def ids_unique_def)

text \<open>C4: in every state the system can get to, whatever requests, background writes, new accounts,
  failures and restarts came before, the database has integrity; and no row is ever lost or
  rewritten: credentials keep their ids, hashes and revocations, sessions their owners, and messages and
  audit rows stay as they were written.\<close>

theorem system_integrity:
  assumes "(system_step L al stack cfg lg)\<^sup>*\<^sup>* w w'"
  shows "(integrity w \<longrightarrow> integrity w') \<and> grows w w'"
  using lawful_run [OF assms] by (simp add: lawful_def)

text \<open>C5: revocation is final for the whole service: after it, in every state the system can get to, a
  request that carries the key id of the revoked row and no session changes no table, starts no audit and
  makes no call to the model.\<close>

theorem revoked_is_locked_out:
  fixes w w' :: "('l, 'a) app_scheme"
  assumes "integrity w" "k \<in> set (api_keys w)" "ak_RevokedAt k \<noteq> None"
    and "(system_step L al stack cfg lg)\<^sup>*\<^sup>* w w'"
    and "presented_key r = ak_KeyID k" "tokenFromRequest r = []"
  shows "harmless w' (world_of (BuildHandler L al stack cfg lg r w'))"
proof (rule anonymous_request)
  have l: "integrity w'" "key_evolves (api_keys w) (api_keys w')"
    using lawful_run [OF assms(4)] assms(1) by (simp_all add: lawful_def grows_def)
  then have "\<forall>k' \<in> set (api_keys w'). \<not> active_with (ak_KeyID k) k'"
    by (intro revoked_no_active [OF _ l(2) assms(2,3)]) (simp add: integrity_def)
  then have "\<not> list_ex (authentic (api_keys w') r) (api_keys w')"
    using assms(5) by (auto simp: authentic_def list_ex_iff)
  moreover have "session_of (al_jwt al) (app_issuer cfg) r t = None" for t
    using assms(6) by (simp add: session_of_def)
  ultimately show "anonymous (al_jwt al) (app_issuer cfg) (api_keys w') r" by (simp add: anonymous_def)
qed

section \<open>Witnesses\<close>

lemma app_world_integrity: "integrity app_world"
  by (simp add: integrity_def ids_unique_def app_world_def admin_world_def sample_world_def usage_db.extend_def usage_db.truncate_def
      sample_key_def sample_message_def turn_role_def)

theorem system_integrity_witness:
  "integrity (snd (apikey_Revoke ''k1'' (world_of (BuildHandler sample_rate_lib toy_libs ''stack'' sample_config sample_logger
     (sample_request sample_body) app_world))))"
proof -
  let ?S = "system_step sample_rate_lib toy_libs ''stack'' sample_config sample_logger"
  let ?w = "world_of (BuildHandler sample_rate_lib toy_libs ''stack'' sample_config sample_logger (sample_request sample_body) app_world)"
  have "?S app_world ?w" by (rule sys_request)
  moreover have "?S ?w (snd (apikey_Revoke ''k1'' ?w))" by (rule sys_operation) (rule repo_key_revoke)
  ultimately have "?S\<^sup>*\<^sup>* app_world (snd (apikey_Revoke ''k1'' ?w))" by simp
  from system_integrity [OF this] show ?thesis using app_world_integrity by blast
qed

definition locked_world :: "unit app" where
  "locked_world = app_world\<lparr>api_keys := [sample_key\<lparr>ak_RevokedAt := Some 7\<rparr>]\<rparr>"

theorem revoked_is_locked_out_witness:
  "tables (world_of (BuildHandler sample_rate_lib toy_libs ''stack'' sample_config sample_logger (sample_request sample_body)
     (snd (apikey_TouchLastUsed ''k1'' locked_world)))) = tables (snd (apikey_TouchLastUsed ''k1'' locked_world))"
proof -
  let ?S = "system_step sample_rate_lib toy_libs ''stack'' sample_config sample_logger"
  have "?S locked_world (snd (apikey_TouchLastUsed ''k1'' locked_world))" by (rule sys_operation) (rule repo_key_touch)
  then have run: "?S\<^sup>*\<^sup>* locked_world (snd (apikey_TouchLastUsed ''k1'' locked_world))" by blast
  have "integrity locked_world"
    by (simp add: integrity_def ids_unique_def locked_world_def app_world_def admin_world_def sample_world_def usage_db.extend_def
        usage_db.truncate_def sample_key_def sample_message_def turn_role_def)
  moreover have "sample_key\<lparr>ak_RevokedAt := Some 7\<rparr> \<in> set (api_keys locked_world)" by (simp add: locked_world_def)
  moreover have "presented_key (sample_request sample_body) = ''dab_pk_a''"
    by (simp add: presented_key_def header_get_def sample_request_def HeaderKeyID_def) code_simp
  moreover have "tokenFromRequest (sample_request sample_body) = []"
    by (simp add: tokenFromRequest_def header_get_def sample_request_def Let_def)
  ultimately show ?thesis
    using revoked_is_locked_out [OF _ _ _ run, of "sample_key\<lparr>ak_RevokedAt := Some 7\<rparr>" "sample_request sample_body"]
    by (simp add: harmless_def sample_key_def)
qed

end
