(* ===== verification/Migrate.thy ===== *)
theory Migrate
  imports Runtime Go_Mux
begin

text \<open>
  \<open>backend/internal/db/migrate/migrate.go\<close>: loading, ordering, applying and rolling back the SQL
  migrations. The database is the bookkeeping table and the rest of the schema, of any type; what
  a script does to the two is Postgres' and a parameter, \<open>postgres\<close>. \<open>script_law\<close> is what its
  documentation says of the scripts the runner builds: an explicit transaction that applies all of
  its statements or none.
\<close>

record Migration =
  mg_Version :: string
  mg_Name :: string
  mg_Up :: string
  mg_Down :: string

record Status =
  st_Version :: string
  st_Name :: string
  st_Applied :: bool

datatype migrate_error =
    mig_reading
  | mig_malformed string
  | mig_reading_file string
  | mig_conflicting string string string
  | mig_missing_up string
  | mig_missing_down string
  | mig_creating_table pgerr
  | mig_reading_applied pgerr
  | mig_acquiring pgerr
  | mig_script pgerr
  | mig_applying string string migrate_error
  | mig_rolling_back string string migrate_error
  | mig_no_file string
  | mig_bad_name
  | mig_writing string

section \<open>File names\<close>

definition slug_char :: "char \<Rightarrow> bool" where
  "slug_char c \<longleftrightarrow> is_lower c \<or> is_decimal c"

text \<open>The group \<open>[a-z0-9]+(?:_[a-z0-9]+)*\<close> of \<open>filenameRE\<close>.\<close>

definition label_ok :: "string \<Rightarrow> bool" where
  "label_ok s \<longleftrightarrow> list_all (\<lambda>p. p \<noteq> [] \<and> list_all slug_char p) (SplitChar CHR ''_'' s)"

definition version_ok :: "string \<Rightarrow> bool" where
  "version_ok v \<longleftrightarrow> length v = 14 \<and> list_all is_decimal v"

definition cut_suffix :: "string \<Rightarrow> string \<Rightarrow> string option" where
  "cut_suffix s suf = (if HasSuffix s suf then Some (take (length s - length suf) s) else None)"

text \<open>\<open>filenameRE.FindStringSubmatch\<close>: version, label and direction.\<close>

definition parseFilename :: "string \<Rightarrow> (string \<times> string \<times> string) option" where
  "parseFilename name =
     (let v = take 14 name; rest = drop 14 name
      in if \<not> version_ok v \<or> \<not> HasPrefix rest ''_'' then None
         else case cut_suffix (drop 1 rest) ''.up.sql'' of
           Some label \<Rightarrow> if label_ok label then Some (v, label, ''up'') else None
         | None \<Rightarrow>
             (case cut_suffix (drop 1 rest) ''.down.sql'' of
                Some label \<Rightarrow> if label_ok label then Some (v, label, ''down'') else None
              | None \<Rightarrow> None))"

text \<open>\<open>nameRE.ReplaceAllString(s, "_")\<close>: every run of other bytes becomes one underscore.\<close>

fun squash :: "bool \<Rightarrow> string \<Rightarrow> string" where
  "squash in_run [] = []"
| "squash in_run (c # s) =
     (if slug_char c then c # squash False s
      else if in_run then squash True s
      else CHR ''_'' # squash True s)"

definition sanitizeName :: "string \<Rightarrow> string" where
  "sanitizeName name = TrimRight (dropWhile (\<lambda>c. c = CHR ''_'') (squash False (ToLower (TrimSpace name)))) ''_''"

section \<open>Scripts\<close>

definition nl :: string where "nl = [char_of_byte 10]"

definition stub :: "string \<Rightarrow> string \<Rightarrow> string" where
  "stub base dir = ''-- '' @ base @ '' ('' @ dir @ '' migration)'' @ nl @ ''-- Write the '' @ dir @ '' SQL here.'' @ nl"

definition trim_body :: "string \<Rightarrow> string" where
  "trim_body body = TrimRight (TrimSpace body) '';''"

definition wrapTx :: "string \<Rightarrow> string \<Rightarrow> string" where
  "wrapTx body bookkeeping =
     ''BEGIN;'' @ nl @ trim_body body @ '';'' @ nl @ bookkeeping @ '';'' @ nl @ ''COMMIT;''"

definition sqlString :: "string \<Rightarrow> string" where
  "sqlString s = [CHR 0x27] @ ReplaceChar CHR 0x27 [CHR 0x27, CHR 0x27] s @ [CHR 0x27]"

definition insert_row :: "Migration \<Rightarrow> string" where
  "insert_row m = ''INSERT INTO schema_migrations (version, name) VALUES ('' @ sqlString (mg_Version m) @ '', ''
     @ sqlString (mg_Name m) @ '')''"

definition delete_row :: "Migration \<Rightarrow> string" where
  "delete_row m = ''DELETE FROM schema_migrations WHERE version = '' @ sqlString (mg_Version m)"

section \<open>The database\<close>

text \<open>
  The rows of \<open>schema_migrations\<close> in the order of insertion, without \<open>applied_at\<close>, which nothing
  reads; \<open>None\<close> when there is no such table. \<open>pg_script\<close> is the run of a script over the simple
  query protocol: its error or none, and the new state.
\<close>

type_synonym 's db_state = "'s \<times> (string \<times> string) list option"

record 's postgres =
  pg_script :: "string \<Rightarrow> 's db_state \<Rightarrow> pgerr option \<times> 's db_state"

record 's mig_db = env +
  mig_schema :: 's
  mig_rows :: "(string \<times> string) list option"

text \<open>\<open>bookkeepingDDL\<close>: \<open>CREATE TABLE IF NOT EXISTS\<close>, with \<open>version\<close> its primary key.\<close>

definition bookkeepingDDL :: "('s, 'a) mig_db_scheme \<Rightarrow> (pgerr, unit) result \<times> ('s, 'a) mig_db_scheme" where
  "bookkeepingDDL w = (Inr (), w\<lparr>mig_rows := Some (case mig_rows w of None \<Rightarrow> [] | Some rs \<Rightarrow> rs)\<rparr>)"

definition ensureBookkeeping :: "('s, 'a) mig_db_scheme \<Rightarrow> (migrate_error, unit) result \<times> ('s, 'a) mig_db_scheme" where
  "ensureBookkeeping w =
     (case pg_exec bookkeepingDDL w of
        (Inl e, w1) \<Rightarrow> (Inl (mig_creating_table e), w1)
      | (Inr _, w1) \<Rightarrow> (Inr (), w1))"

definition undefined_table :: pgerr where "undefined_table = SqlState ''42P01''"

text \<open>\<open>SELECT version FROM schema_migrations ORDER BY version\<close>; versions are digits, so every
  collation orders them as bytes.\<close>

definition select_versions :: "('s, 'a) mig_db_scheme \<Rightarrow> (pgerr, string list) result \<times> ('s, 'a) mig_db_scheme" where
  "select_versions w =
     (case mig_rows w of None \<Rightarrow> (Inl undefined_table, w) | Some rs \<Rightarrow> (Inr (sort (map fst rs)), w))"

definition appliedVersions :: "('s, 'a) mig_db_scheme \<Rightarrow> (migrate_error, string list) result \<times> ('s, 'a) mig_db_scheme" where
  "appliedVersions w =
     (case pg_exec select_versions w of
        (Inl e, w1) \<Rightarrow> (Inl (mig_reading_applied e), w1)
      | (Inr vs, w1) \<Rightarrow> (Inr vs, w1))"

definition appliedSet :: "('s, 'a) mig_db_scheme \<Rightarrow> (migrate_error, string set) result \<times> ('s, 'a) mig_db_scheme" where
  "appliedSet w =
     (case appliedVersions w of
        (Inl e, w1) \<Rightarrow> (Inl e, w1)
      | (Inr vs, w1) \<Rightarrow> (Inr (set vs), w1))"

text \<open>A connection is acquired, which may fail, and then runs the whole script.\<close>

definition script_stmt :: "'s postgres \<Rightarrow> string \<Rightarrow> ('s, 'a) mig_db_scheme \<Rightarrow> (pgerr, unit) result \<times> ('s, 'a) mig_db_scheme" where
  "script_stmt P script w =
     (case pg_script P script (mig_schema w, mig_rows w) of
        (e, s, rs) \<Rightarrow> (case e of None \<Rightarrow> Inr () | Some x \<Rightarrow> Inl x, w\<lparr>mig_schema := s, mig_rows := rs\<rparr>))"

definition runScript :: "'s postgres \<Rightarrow> string \<Rightarrow> ('s, 'a) mig_db_scheme \<Rightarrow> (migrate_error, unit) result \<times> ('s, 'a) mig_db_scheme" where
  "runScript P script w =
     (case pg_exec (\<lambda>w. (Inr (), w)) w of
        (Inl e, w1) \<Rightarrow> (Inl (mig_acquiring e), w1)
      | (Inr _, w1) \<Rightarrow>
          (case pg_exec (script_stmt P script) w1 of
             (Inl e, w2) \<Rightarrow> (Inl (mig_script e), w2)
           | (Inr _, w2) \<Rightarrow> (Inr (), w2)))"

section \<open>Loading\<close>

text \<open>\<open>fs.FS\<close>: the directory's entries with whether each is a directory, and the files' bytes.\<close>

record fs =
  fs_ReadDir :: "(string \<times> bool) list option"
  fs_ReadFile :: "string \<Rightarrow> string option"

text \<open>The files of backend/migrations, as \<open>embed\<close> puts them into the binary.\<close>

definition embedded_names :: "string list" where
  "embedded_names =
     [''20260606000001_init.down.sql'', ''20260606000001_init.up.sql'',
      ''20260606000002_create_users.down.sql'', ''20260606000002_create_users.up.sql'',
      ''20260606000003_create_api_keys.down.sql'', ''20260606000003_create_api_keys.up.sql'',
      ''20260606000004_create_conversations.down.sql'', ''20260606000004_create_conversations.up.sql'',
      ''20260606000005_create_gateway_usage.down.sql'', ''20260606000005_create_gateway_usage.up.sql'']"

definition migrations_FS :: "(string \<Rightarrow> string) \<Rightarrow> fs" where
  "migrations_FS body = \<lparr>fs_ReadDir = Some (map (\<lambda>n. (n, False)) embedded_names),
     fs_ReadFile = (\<lambda>f. if f \<in> set embedded_names then Some (body f) else None)\<rparr>"

record pair =
  pr_name :: string
  pr_up :: "string option"
  pr_down :: "string option"

text \<open>The map \<open>byVer\<close>, its entries in the order they were made.\<close>

type_synonym by_version = "(string \<times> pair) list"

definition set_pair :: "string \<Rightarrow> pair \<Rightarrow> by_version \<Rightarrow> by_version" where
  "set_pair v p m = (if v \<in> fst ` set m then map (\<lambda>(u, q). (u, if u = v then p else q)) m else m @ [(v, p)])"

definition is_sql :: "string \<times> bool \<Rightarrow> bool" where
  "is_sql e \<longleftrightarrow> \<not> snd e \<and> HasSuffix (fst e) ''.sql''"

fun collect :: "fs \<Rightarrow> (string \<times> bool) list \<Rightarrow> by_version \<Rightarrow> (migrate_error, by_version) result" where
  "collect F [] m = Inr m"
| "collect F (e # es) m =
     (if \<not> is_sql e then collect F es m
      else case parseFilename (fst e) of
        None \<Rightarrow> Inl (mig_malformed (fst e))
      | Some (version, name, dir) \<Rightarrow>
          (case fs_ReadFile F (fst e) of
             None \<Rightarrow> Inl (mig_reading_file (fst e))
           | Some body \<Rightarrow>
               (let p = (case map_of m version of None \<Rightarrow> \<lparr>pr_name = name, pr_up = None, pr_down = None\<rparr> | Some p \<Rightarrow> p)
                in if pr_name p \<noteq> name then Inl (mig_conflicting version (pr_name p) name)
                   else collect F es (set_pair version
                          (if dir = ''up'' then p\<lparr>pr_up := Some body\<rparr> else p\<lparr>pr_down := Some body\<rparr>) m))))"

fun assemble_migs :: "by_version \<Rightarrow> string list \<Rightarrow> (migrate_error, Migration list) result" where
  "assemble_migs m [] = Inr []"
| "assemble_migs m (v # vs) =
     (case map_of m v of
        None \<Rightarrow> Inl (mig_missing_up v)
      | Some p \<Rightarrow>
          (case (pr_up p, pr_down p) of
             (None, _) \<Rightarrow> Inl (mig_missing_up v)
           | (_, None) \<Rightarrow> Inl (mig_missing_down v)
           | (Some u, Some d) \<Rightarrow>
               (case assemble_migs m vs of
                  Inl e \<Rightarrow> Inl e
                | Inr ms \<Rightarrow> Inr (\<lparr>mg_Version = v, mg_Name = pr_name p, mg_Up = u, mg_Down = d\<rparr> # ms))))"

definition migrate_Load :: "fs \<Rightarrow> (migrate_error, Migration list) result" where
  "migrate_Load F =
     (case fs_ReadDir F of
        None \<Rightarrow> Inl mig_reading
      | Some es \<Rightarrow>
          (case collect F es [] of
             Inl e \<Rightarrow> Inl e
           | Inr m \<Rightarrow> assemble_migs m (sort (map fst m))))"

section \<open>Up, Down and the rest\<close>

text \<open>What an operation returns: the versions it got to, and the error that stopped it, if any.\<close>

type_synonym progress = "string list \<times> migrate_error option"

fun apply_pending :: "'s postgres \<Rightarrow> string set \<Rightarrow> Migration list \<Rightarrow> string list \<Rightarrow> ('s, 'a) mig_db_scheme
    \<Rightarrow> progress \<times> ('s, 'a) mig_db_scheme" where
  "apply_pending P applied [] acc w = ((acc, None), w)"
| "apply_pending P applied (m # ms) acc w =
     (if mg_Version m \<in> applied then apply_pending P applied ms acc w
      else case runScript P (wrapTx (mg_Up m) (insert_row m)) w of
        (Inl e, w1) \<Rightarrow> ((acc, Some (mig_applying (mg_Version m) (mg_Name m) e)), w1)
      | (Inr _, w1) \<Rightarrow> apply_pending P applied ms (acc @ [mg_Version m]) w1)"

definition Up :: "'s postgres \<Rightarrow> Migration list \<Rightarrow> ('s, 'a) mig_db_scheme \<Rightarrow> progress \<times> ('s, 'a) mig_db_scheme" where
  "Up P migs w =
     (case ensureBookkeeping w of
        (Inl e, w1) \<Rightarrow> (([], Some e), w1)
      | (Inr _, w1) \<Rightarrow>
          (case appliedSet w1 of
             (Inl e, w2) \<Rightarrow> (([], Some e), w2)
           | (Inr applied, w2) \<Rightarrow> apply_pending P applied migs [] w2))"

definition Migrate :: "'s postgres \<Rightarrow> fs \<Rightarrow> ('s, 'a) mig_db_scheme \<Rightarrow> progress \<times> ('s, 'a) mig_db_scheme" where
  "Migrate P F w =
     (case migrate_Load F of
        Inl e \<Rightarrow> (([], Some e), w)
      | Inr migs \<Rightarrow> Up P migs w)"

text \<open>The loop over the applied versions from the newest on, while steps are left.\<close>

fun roll_back :: "'s postgres \<Rightarrow> Migration list \<Rightarrow> nat \<Rightarrow> string list \<Rightarrow> string list \<Rightarrow> ('s, 'a) mig_db_scheme
    \<Rightarrow> progress \<times> ('s, 'a) mig_db_scheme" where
  "roll_back P migs steps [] acc w = ((acc, None), w)"
| "roll_back P migs 0 (v # vs) acc w = ((acc, None), w)"
| "roll_back P migs (Suc steps) (v # vs) acc w =
     (case find (\<lambda>m. mg_Version m = v) (rev migs) of
        None \<Rightarrow> ((acc, Some (mig_no_file v)), w)
      | Some m \<Rightarrow>
          (case runScript P (wrapTx (mg_Down m) (delete_row m)) w of
             (Inl e, w1) \<Rightarrow> ((acc, Some (mig_rolling_back (mg_Version m) (mg_Name m) e)), w1)
           | (Inr _, w1) \<Rightarrow> roll_back P migs steps vs (acc @ [v]) w1))"

definition Down :: "'s postgres \<Rightarrow> Migration list \<Rightarrow> int \<Rightarrow> ('s, 'a) mig_db_scheme \<Rightarrow> progress \<times> ('s, 'a) mig_db_scheme" where
  "Down P migs steps0 w =
     (let steps = (if steps0 \<le> 0 then 1 else steps0)
      in case ensureBookkeeping w of
           (Inl e, w1) \<Rightarrow> (([], Some e), w1)
         | (Inr _, w1) \<Rightarrow>
             (case appliedVersions w1 of
                (Inl e, w2) \<Rightarrow> (([], Some e), w2)
              | (Inr order, w2) \<Rightarrow> roll_back P migs (nat steps) (rev order) [] w2))"

definition GetStatus :: "Migration list \<Rightarrow> ('s, 'a) mig_db_scheme \<Rightarrow> (migrate_error, Status list) result \<times> ('s, 'a) mig_db_scheme" where
  "GetStatus migs w =
     (case ensureBookkeeping w of
        (Inl e, w1) \<Rightarrow> (Inl e, w1)
      | (Inr _, w1) \<Rightarrow>
          (case appliedSet w1 of
             (Inl e, w2) \<Rightarrow> (Inl e, w2)
           | (Inr applied, w2) \<Rightarrow>
               (Inr (map (\<lambda>m. \<lparr>st_Version = mg_Version m, st_Name = mg_Name m, st_Applied = (mg_Version m \<in> applied)\<rparr>) migs), w2)))"

definition CurrentVersion :: "('s, 'a) mig_db_scheme \<Rightarrow> (migrate_error, string) result \<times> ('s, 'a) mig_db_scheme" where
  "CurrentVersion w =
     (case ensureBookkeeping w of
        (Inl e, w1) \<Rightarrow> (Inl e, w1)
      | (Inr _, w1) \<Rightarrow>
          (case appliedVersions w1 of
             (Inl e, w2) \<Rightarrow> (Inl e, w2)
           | (Inr order, w2) \<Rightarrow> (Inr (if order = [] then [] else last order), w2)))"

section \<open>Create\<close>

text \<open>The disk: the files, and whether a path can be written. \<open>dir\<close> is a clean path, as the CLI's is.\<close>

record disk =
  dk_files :: "string \<rightharpoonup> string"
  dk_writable :: "string \<Rightarrow> bool"

definition WriteFile :: "string \<Rightarrow> string \<Rightarrow> disk \<Rightarrow> disk option" where
  "WriteFile path data d = (if dk_writable d path then Some (d\<lparr>dk_files := (dk_files d)(path \<mapsto> data)\<rparr>) else None)"

definition path_Join :: "string \<Rightarrow> string \<Rightarrow> string" where
  "path_Join dir base = (if dir = [] then base else dir @ ''/'' @ base)"

definition version_layout :: string where "version_layout = ''20060102150405''"

definition migrate_Create :: "string \<Rightarrow> string \<Rightarrow> disk \<Rightarrow> 'a env_scheme
    \<Rightarrow> (migrate_error, string \<times> string) result \<times> disk \<times> 'a env_scheme" where
  "migrate_Create dir name d w =
     (let slug = sanitizeName name
      in if slug = [] then (Inl mig_bad_name, d, w)
         else case now w of (t, w1) \<Rightarrow>
           (let base = format_time w1 version_layout t @ ''_'' @ slug;
                upPath = path_Join dir (base @ ''.up.sql'');
                downPath = path_Join dir (base @ ''.down.sql'')
            in case WriteFile upPath (stub base ''up'') d of
                 None \<Rightarrow> (Inl (mig_writing upPath), d, w1)
               | Some d1 \<Rightarrow>
                   (case WriteFile downPath (stub base ''down'') d1 of
                      None \<Rightarrow> (Inl (mig_writing downPath), d1, w1)
                    | Some d2 \<Rightarrow> (Inr (upPath, downPath), d2, w1))))"

end
