(* ===== verification/Migrate_Files.thy ===== *)
theory Migrate_Files
  imports Migrate Sample
begin

text \<open>
  Migration files: the grammar of their names, the names \<open>Create\<close> makes, and what \<open>Load\<close> makes of
  a directory.
\<close>

section \<open>File names\<close>

definition file_name :: "string \<Rightarrow> string \<Rightarrow> string \<Rightarrow> string" where
  "file_name v label dir = v @ ''_'' @ label @ ''.'' @ dir @ ''.sql''"

lemma cut_suffix_Some: "cut_suffix s suf = Some t \<longleftrightarrow> s = t @ suf"
proof -
  have "length suf \<le> length s \<and> last_n (length suf) s = suf \<Longrightarrow> s = take (length s - length suf) s @ suf"
    using take_last_n [of s "length suf"] by metis
  moreover have "HasSuffix (t @ suf) suf" "take (length (t @ suf) - length suf) (t @ suf) = t"
    by (simp_all add: HasSuffix_def)
  ultimately show ?thesis by (auto simp: cut_suffix_def HasSuffix_def split: if_splits)
qed

lemma cut_suffix_None: "cut_suffix s suf = None \<longleftrightarrow> (\<forall>t. s \<noteq> t @ suf)"
  using cut_suffix_Some [of s suf] by (metis not_None_eq)

lemma up_not_down: "t @ ''.up.sql'' \<noteq> u @ ''.down.sql''"
proof
  assume "t @ ''.up.sql'' = u @ ''.down.sql''"
  then have "rev (t @ ''.up.sql'') = rev (u @ ''.down.sql'')" by (rule arg_cong)
  then show False by simp
qed

lemma parseFilename_iff:
  "parseFilename f = Some (v, label, dir) \<longleftrightarrow>
     f = file_name v label dir \<and> version_ok v \<and> label_ok label \<and> (dir = ''up'' \<or> dir = ''down'')"
proof
  assume p: "parseFilename f = Some (v, label, dir)"
  then have v: "version_ok v" "v = take 14 f" and h: "HasPrefix (drop 14 f) ''_''"
    by (auto simp: parseFilename_def Let_def split: if_splits option.splits)
  from h obtain rest where r: "drop 14 f = CHR ''_'' # rest" by (cases "drop 14 f") (auto simp: HasPrefix_def)
  then have f: "f = v @ CHR ''_'' # rest" using v(2) by (metis append_take_drop_id)
  show "f = file_name v label dir \<and> version_ok v \<and> label_ok label \<and> (dir = ''up'' \<or> dir = ''down'')"
  proof -
    have "(rest = label @ ''.up.sql'' \<and> dir = ''up'' \<or> rest = label @ ''.down.sql'' \<and> dir = ''down'') \<and> label_ok label"
      using p v(1) unfolding parseFilename_def Let_def v(2) [symmetric] r
      by (auto simp: cut_suffix_Some split: if_splits option.splits)
    then show ?thesis using v(1) f by (auto simp: file_name_def)
  qed
next
  assume f: "f = file_name v label dir \<and> version_ok v \<and> label_ok label \<and> (dir = ''up'' \<or> dir = ''down'')"
  then have l: "length v = 14" by (simp add: version_ok_def)
  have t: "take 14 f = v" "drop 14 f = ''_'' @ label @ ''.'' @ dir @ ''.sql''" using f l by (simp_all add: file_name_def)
  have c: "cut_suffix (label @ ''.up.sql'') ''.up.sql'' = Some label" "cut_suffix (label @ ''.down.sql'') ''.down.sql'' = Some label"
    "cut_suffix (label @ ''.down.sql'') ''.up.sql'' = None"
    using up_not_down by (simp_all only: cut_suffix_Some cut_suffix_None) metis+
  show "parseFilename f = Some (v, label, dir)"
  proof -
    have "version_ok v" "label_ok label" "dir = ''up'' \<or> dir = ''down''" using f by blast+
    then show ?thesis unfolding parseFilename_def Let_def t by (elim disjE) (simp_all add: HasPrefix_def c)
  qed
qed

subsection \<open>Labels\<close>

text \<open>No two underscores in a row.\<close>

fun single_bars :: "string \<Rightarrow> bool" where
  "single_bars (x # y # s) \<longleftrightarrow> \<not> (x = CHR ''_'' \<and> y = CHR ''_'') \<and> single_bars (y # s)"
| "single_bars [x] \<longleftrightarrow> True"
| "single_bars [] \<longleftrightarrow> True"

lemma single_bars_append: "single_bars (a @ b) \<Longrightarrow> single_bars a \<and> single_bars b"
proof (induction a rule: single_bars.induct)
  case (1 x y s)
  then show ?case by simp
next
  case (2 x)
  then show ?case by (cases b) auto
qed simp

lemma slug_not_bar [simp]: "\<not> slug_char CHR ''_''"
  by (simp add: slug_char_def is_lower_def is_decimal_def byte_of_def)

lemma label_okI:
  assumes "single_bars s" "s \<noteq> []" "hd s \<noteq> CHR ''_''" "last s \<noteq> CHR ''_''" "\<forall>c \<in> set s. slug_char c \<or> c = CHR ''_''"
  shows "label_ok s"
  using assms unfolding label_ok_def
proof (induction "length s" arbitrary: s rule: less_induct)
  case less
  then obtain x t where s: "s = x # t" and x: "x \<noteq> CHR ''_''" "slug_char x" by (cases s) auto
  show ?case
  proof (cases t)
    case Nil
    with s x show ?thesis by simp
  next
    case (Cons y u)
    show ?thesis
    proof (cases "y = CHR ''_''")
      case True
      then have u: "u \<noteq> []" "hd u \<noteq> CHR ''_''" using less.prems(1,4) s Cons by (cases u; auto)+
      moreover have "single_bars u" using less.prems(1) s Cons by (cases u) auto
      ultimately have "list_all (\<lambda>p. p \<noteq> [] \<and> list_all slug_char p) (SplitChar CHR ''_'' u)"
        using less.prems s Cons by (intro less.hyps) auto
      with s Cons True x show ?thesis by simp
    next
      case False
      have "list_all (\<lambda>p. p \<noteq> [] \<and> list_all slug_char p) (SplitChar CHR ''_'' t)"
        using less.prems s Cons False by (intro less.hyps) auto
      with s x show ?thesis by (auto split: list.split)
    qed
  qed
qed

lemma squash_shape:
  "single_bars (squash r s) \<and> (r \<longrightarrow> squash r s = [] \<or> hd (squash r s) \<noteq> CHR ''_'') \<and>
   (\<forall>c \<in> set (squash r s). slug_char c \<or> c = CHR ''_'')"
proof (induction s arbitrary: r)
  case (Cons c s)
  have "single_bars (c # squash False s)" if "slug_char c"
    using Cons [of False] that by (cases "squash False s") auto
  moreover have "single_bars (CHR ''_'' # squash True s)"
    using Cons [of True] by (cases "squash True s") auto
  ultimately show ?case using Cons [of True] Cons [of False] by auto
qed simp

text \<open>A sanitized name is a label or empty.\<close>

lemma sanitizeName_label: "sanitizeName name \<noteq> [] \<Longrightarrow> label_ok (sanitizeName name)"
proof -
  let ?q = "squash False (ToLower (TrimSpace name))"
  let ?d = "dropWhile (\<lambda>c. c = CHR ''_'') ?q"
  let ?t = "sanitizeName name"
  assume ne: "?t \<noteq> []"
  have t: "?t = TrimRight ?d ''_''" by (simp add: sanitizeName_def)
  obtain z where z: "?d = ?t @ z"
    unfolding t TrimRight_def by (metis rev_append rev_rev_ident takeWhile_dropWhile_id)
  obtain y where y: "?q = y @ ?d" by (metis takeWhile_dropWhile_id)
  have "single_bars ?d" using squash_shape [of False] single_bars_append [of y ?d] y by metis
  then have b: "single_bars ?t" using single_bars_append [of ?t z] z by simp
  have "?d \<noteq> []" using z ne by auto
  then have "hd ?d \<noteq> CHR ''_''" using hd_dropWhile [of "\<lambda>c. c = CHR ''_''" ?q] by auto
  then have h: "hd ?t \<noteq> CHR ''_''" using z ne by (metis hd_append2)
  have l: "last ?t \<noteq> CHR ''_''" using TrimRight_last [of ?d "''_''"] ne by (simp add: t)
  have "set ?t \<subseteq> set ?q" using y z by (metis Un_upper1 Un_upper2 order_trans set_append)
  then have "\<forall>c \<in> set ?t. slug_char c \<or> c = CHR ''_''" using squash_shape [of False "ToLower (TrimSpace name)"] by blast
  with b ne h l show ?thesis by (intro label_okI)
qed

text \<open>The two files \<open>Create\<close> makes are read back by \<open>Load\<close>'s parser as the two directions of one
  migration, with the version of the clock and the name as it was sanitized.\<close>

theorem created_files_parse:
  assumes "migrate_Create dir name d w = (Inr (up, down), d', w')" "version_ok (format_time (snd (now w)) version_layout (fst (now w)))"
  shows "\<exists>f g. up = path_Join dir f \<and> down = path_Join dir g \<and>
    parseFilename f = Some (format_time (snd (now w)) version_layout (fst (now w)), sanitizeName name, ''up'') \<and>
    parseFilename g = Some (format_time (snd (now w)) version_layout (fst (now w)), sanitizeName name, ''down'') \<and>
    dk_files d' up \<noteq> None \<and> dk_files d' down \<noteq> None"
proof -
  let ?v = "format_time (snd (now w)) version_layout (fst (now w))"
  let ?s = "sanitizeName name"
  have s: "label_ok ?s"
    using assms(1) by (intro sanitizeName_label) (auto simp: migrate_Create_def Let_def)
  have "up = path_Join dir (file_name ?v ?s ''up'') \<and> down = path_Join dir (file_name ?v ?s ''down'') \<and>
      dk_files d' up \<noteq> None \<and> dk_files d' down \<noteq> None"
    using assms(1)
    by (auto simp: migrate_Create_def Let_def WriteFile_def file_name_def split: if_splits prod.splits option.splits)
  moreover have "parseFilename (file_name ?v ?s ''up'') = Some (?v, ?s, ''up'')" "parseFilename (file_name ?v ?s ''down'') = Some (?v, ?s, ''down'')"
    using s assms(2) by (simp_all add: parseFilename_iff)
  ultimately show ?thesis by blast
qed

definition dated_world :: usage_db where
  "dated_world = sample_world\<lparr>format_time := (\<lambda>_ _. ''20260606000001'')\<rparr>"

definition empty_disk :: disk where
  "empty_disk = \<lparr>dk_files = (\<lambda>_. None), dk_writable = (\<lambda>_. True)\<rparr>"

theorem created_files_parse_witness:
  "\<exists>f. fst (migrate_Create ''migrations'' ''Add users!'' empty_disk dated_world) =
      Inr (path_Join ''migrations'' f, path_Join ''migrations'' ''20260606000001_add_users.down.sql'') \<and>
    parseFilename f = Some (''20260606000001'', ''add_users'', ''up'')"
proof -
  have n: "format_time (snd (now dated_world)) = (\<lambda>_ _. ''20260606000001'')" by (simp add: now_def dated_world_def Let_def)
  have s: "sanitizeName ''Add users!'' = ''add_users''" by code_simp
  have v: "version_ok ''20260606000001''" by code_simp
  obtain t w1 where t: "now dated_world = (t, w1)" by fastforce
  then have "format_time w1 = (\<lambda>_ _. ''20260606000001'')" using n by simp
  with t s obtain d' where c: "migrate_Create ''migrations'' ''Add users!'' empty_disk dated_world =
      (Inr (path_Join ''migrations'' ''20260606000001_add_users.up.sql'', path_Join ''migrations'' ''20260606000001_add_users.down.sql''), d', w1)"
    by (simp add: migrate_Create_def Let_def WriteFile_def empty_disk_def)
  from created_files_parse [OF c] n v s
  have "\<exists>f. path_Join ''migrations'' ''20260606000001_add_users.up.sql'' = path_Join ''migrations'' f \<and>
      parseFilename f = Some (''20260606000001'', ''add_users'', ''up'')" by auto
  then show ?thesis by (auto simp: c)
qed

section \<open>Loading\<close>

text \<open>
  What the map of the loader says of the files \<open>fs\<close> read so far: versions are its keys, every
  file is in it and everything in it comes from a file.
\<close>

definition half :: "pair \<Rightarrow> string \<Rightarrow> string option" where
  "half p dir = (if dir = ''up'' then pr_up p else if dir = ''down'' then pr_down p else None)"

definition collected :: "fs \<Rightarrow> string set \<Rightarrow> by_version \<Rightarrow> bool" where
  "collected F fs m \<longleftrightarrow> distinct (map fst m) \<and> (\<forall>v p. (v, p) \<in> set m \<longrightarrow> version_ok v \<and> label_ok (pr_name p)) \<and>
     (\<forall>v p dir b. (v, p) \<in> set m \<longrightarrow> half p dir = Some b \<longrightarrow> file_name v (pr_name p) dir \<in> fs \<and>
        fs_ReadFile F (file_name v (pr_name p) dir) = Some b) \<and>
     (\<forall>f \<in> fs. \<exists>v p dir. (v, p) \<in> set m \<and> f = file_name v (pr_name p) dir \<and> half p dir \<noteq> None)"

lemma set_pair_set:
  assumes "distinct (map fst m)"
  shows "distinct (map fst (set_pair v p m))" "set (set_pair v p m) = {(u, q) \<in> set m. u \<noteq> v} \<union> {(v, p)}"
proof -
  have "map fst (map (\<lambda>(u, q). (u, if u = v then p else q)) m) = map fst m" by (induction m) auto
  then have "map fst (set_pair v p m) = map fst m \<or> v \<notin> fst ` set m \<and> map fst (set_pair v p m) = map fst m @ [v]"
    by (simp only: set_pair_def split: if_split) simp
  then show "distinct (map fst (set_pair v p m))" using assms by auto
  show "set (set_pair v p m) = {(u, q) \<in> set m. u \<noteq> v} \<union> {(v, p)}"
  proof (cases "v \<in> fst ` set m")
    case True
    let ?f = "\<lambda>(u, q). (u, if u = v then p else q)"
    obtain b where b: "(v, b) \<in> set m" using True by auto
    have "(v, p) \<in> ?f ` set m" by (rule image_eqI [of _ _ "(v, b)"]) (use b in auto)
    moreover have "?f ` set m \<subseteq> {(v, p)} \<union> ?f ` {(u, q) \<in> set m. u \<noteq> v}" by (auto split: if_splits)
    ultimately have "?f ` set m = {(v, p)} \<union> ?f ` {(u, q) \<in> set m. u \<noteq> v}" by blast
    moreover have "?f ` {(u, q) \<in> set m. u \<noteq> v} = {(u, q) \<in> set m. u \<noteq> v}" by force
    ultimately show ?thesis using True by (simp add: set_pair_def)
  next
    case False
    then show ?thesis by (force simp: set_pair_def)
  qed
qed

lemma collect_step:
  assumes c: "collected F fs m" and n: "parseFilename f = Some (v, name, dir)" and b: "fs_ReadFile F f = Some b"
    and p: "p = (case map_of m v of None \<Rightarrow> \<lparr>pr_name = name, pr_up = None, pr_down = None\<rparr> | Some p \<Rightarrow> p)" "pr_name p = name"
  shows "collected F (insert f fs) (set_pair v (if dir = ''up'' then p\<lparr>pr_up := Some b\<rparr> else p\<lparr>pr_down := Some b\<rparr>) m)"
proof -
  let ?p = "if dir = ''up'' then p\<lparr>pr_up := Some b\<rparr> else p\<lparr>pr_down := Some b\<rparr>"
  have f: "f = file_name v name dir" "version_ok v" "label_ok name" "dir = ''up'' \<or> dir = ''down''"
    using n by (simp_all add: parseFilename_iff)
  have d: "distinct (map fst m)" using c by (simp add: collected_def)
  note sp = set_pair_set [OF d, of v ?p]
  have nm: "pr_name ?p = name" using p(2) by simp
  have hp: "half ?p e = (if e = dir then Some b else half p e)" for e
    using f(4) by (auto simp: half_def)
  have old: "(v, p) \<in> set m \<or> (\<forall>e. half p e = None) \<and> v \<notin> fst ` set m"
  proof (cases "map_of m v")
    case None
    have "p = \<lparr>pr_name = name, pr_up = None, pr_down = None\<rparr>" using p(1) unfolding None by simp
    moreover have "v \<notin> fst ` set m" using None by (simp add: map_of_eq_None_iff)
    ultimately show ?thesis by (simp add: half_def)
  next
    case (Some q)
    then show ?thesis using p(1) map_of_SomeD [of m v q] by simp
  qed
  have uniq: "q = p" if "(v, q) \<in> set m" for q
  proof -
    have "v \<in> fst ` set m" using that by force
    then have "(v, p) \<in> set m" using old by blast
    then show ?thesis by (rule eq_key_imp_eq_value [OF d that])
  qed
  show ?thesis
    unfolding collected_def
  proof (intro conjI allI impI ballI)
    show "distinct (map fst (set_pair v ?p m))" by (rule sp(1))
  next
    fix u q assume "(u, q) \<in> set (set_pair v ?p m)"
    then show "version_ok u" "label_ok (pr_name q)" using c f(2,3) nm by (auto simp: sp(2) collected_def)
  next
    fix u q e x assume a: "(u, q) \<in> set (set_pair v ?p m)" "half q e = Some x"
    have "file_name u (pr_name q) e \<in> insert f fs \<and> fs_ReadFile F (file_name u (pr_name q) e) = Some x"
    proof (cases "u = v \<and> q = ?p")
      case True
      then show ?thesis
        using a(2) b f(1) c old p(2) unfolding True [THEN conjunct2] hp nm
        by (cases "e = dir") (auto simp: collected_def True)
    next
      case False
      with a(1) have "(u, q) \<in> set m" by (auto simp: sp(2))
      then show ?thesis using c a(2) unfolding collected_def by blast
    qed
    then show "file_name u (pr_name q) e \<in> insert f fs" "fs_ReadFile F (file_name u (pr_name q) e) = Some x" by blast+
  next
    fix g assume g: "g \<in> insert f fs"
    have new: "(v, ?p) \<in> set (set_pair v ?p m)" by (simp add: sp(2))
    show "\<exists>u q e. (u, q) \<in> set (set_pair v ?p m) \<and> g = file_name u (pr_name q) e \<and> half q e \<noteq> None"
    proof (cases "g = f")
      case True
      then show ?thesis using new f(1) nm hp [of dir] by (intro exI [of _ v] exI [of _ ?p] exI [of _ dir]) auto
    next
      case False
      then obtain u q e where q: "(u, q) \<in> set m" "g = file_name u (pr_name q) e" "half q e \<noteq> None"
        using g c unfolding collected_def by blast
      show ?thesis
      proof (cases "u = v")
        case True
        then have "q = p" using uniq q(1) by simp
        then have "g = file_name v (pr_name ?p) e \<and> half ?p e \<noteq> None" using q True by (simp add: hp)
        then show ?thesis using new by blast
      next
        case False
        then have "(u, q) \<in> set (set_pair v ?p m)" using q(1) by (simp add: sp(2))
        then show ?thesis using q by blast
      qed
    qed
  qed
qed

lemma collect_collected:
  "collect F es m = Inr m' \<Longrightarrow> collected F fs m \<Longrightarrow> collected F (fs \<union> fst ` {e \<in> set es. is_sql e}) m'"
proof (induction F es m arbitrary: fs rule: collect.induct)
  case (2 F e es m)
  show ?case
  proof (cases "is_sql e")
    case False
    have "{x \<in> set (e # es). is_sql x} = {x \<in> set es. is_sql x}" using False by auto
    then show ?thesis using 2 False by simp
  next
    case True
    then obtain v name dir b where n: "parseFilename (fst e) = Some (v, name, dir)" "fs_ReadFile F (fst e) = Some b"
      using "2.prems"(1) by (auto split: option.splits)
    let ?p = "case map_of m v of None \<Rightarrow> \<lparr>pr_name = name, pr_up = None, pr_down = None\<rparr> | Some p \<Rightarrow> p"
    let ?m = "set_pair v (if dir = ''up'' then ?p\<lparr>pr_up := Some b\<rparr> else ?p\<lparr>pr_down := Some b\<rparr>) m"
    have ok: "pr_name ?p = name" "collect F es ?m = Inr m'"
      using "2.prems"(1) True n by (auto simp: Let_def split: if_splits)
    have "{x \<in> set (e # es). is_sql x} = insert e {x \<in> set es. is_sql x}" using True by auto
    then show ?thesis
      using "2.IH"(2) [OF _ n(1) refl refl n(2) refl _ ok(2) collect_step [OF "2.prems"(2) n refl ok(1)]] True ok(1) by simp
  qed
qed simp

lemma assemble_migs_Inr:
  "assemble_migs m vs = Inr ms \<Longrightarrow> map mg_Version ms = vs \<and>
   (\<forall>k \<in> set ms. \<exists>p. map_of m (mg_Version k) = Some p \<and> mg_Name k = pr_name p \<and> pr_up p = Some (mg_Up k) \<and> pr_down p = Some (mg_Down k))"
  by (induction m vs arbitrary: ms rule: assemble_migs.induct) (auto split: option.splits sum.splits)

text \<open>C34: a directory that loads is exactly its migrations: they are strictly ordered by version, whatever
  the order of the entries, every SQL file of the directory is one half of one of them, and both
  halves of each are files whose bytes it has.\<close>

theorem load_is_exact:
  assumes "migrate_Load F = Inr migs" "fs_ReadDir F = Some es"
  shows "sorted_wrt (<) (map mg_Version migs) \<and>
    fst ` {e \<in> set es. is_sql e} = (\<Union>m \<in> set migs. {file_name (mg_Version m) (mg_Name m) ''up'', file_name (mg_Version m) (mg_Name m) ''down''}) \<and>
    list_all (\<lambda>m. version_ok (mg_Version m) \<and> label_ok (mg_Name m) \<and>
      fs_ReadFile F (file_name (mg_Version m) (mg_Name m) ''up'') = Some (mg_Up m) \<and>
      fs_ReadFile F (file_name (mg_Version m) (mg_Name m) ''down'') = Some (mg_Down m)) migs"
proof -
  let ?fs = "fst ` {e \<in> set es. is_sql e}"
  obtain m where c: "collect F es [] = Inr m" and a: "assemble_migs m (sort (map fst m)) = Inr migs"
    using assms by (auto simp: migrate_Load_def split: sum.splits)
  have "collected F {} []" by (simp add: collected_def)
  from collect_collected [OF c this] have m: "collected F ?fs m" by simp
  then have d: "distinct (map fst m)" by (simp add: collected_def)
  note am = assemble_migs_Inr [OF a]
  have s: "sorted_wrt (<) (map mg_Version migs)"
    using am [THEN conjunct1] d by (simp add: strict_sorted_iff)
  have k: "(mg_Version k, \<lparr>pr_name = mg_Name k, pr_up = Some (mg_Up k), pr_down = Some (mg_Down k)\<rparr>) \<in> set m" if kk: "k \<in> set migs" for k
  proof -
    obtain p where p: "map_of m (mg_Version k) = Some p" "mg_Name k = pr_name p" "pr_up p = Some (mg_Up k)" "pr_down p = Some (mg_Down k)"
      using am [THEN conjunct2, THEN bspec, OF kk] by (elim exE conjE) (rule that)
    have "p = \<lparr>pr_name = pr_name p, pr_up = pr_up p, pr_down = pr_down p\<rparr>" by simp
    then have "p = \<lparr>pr_name = mg_Name k, pr_up = Some (mg_Up k), pr_down = Some (mg_Down k)\<rparr>"
      unfolding p(2) [symmetric] p(3,4) .
    then show ?thesis using map_of_SomeD [OF p(1)] by simp
  qed
  have h: "half \<lparr>pr_name = n, pr_up = Some u, pr_down = Some w\<rparr> ''up'' = Some u"
    "half \<lparr>pr_name = n, pr_up = Some u, pr_down = Some w\<rparr> ''down'' = Some w" for n u w by (simp_all add: half_def)
  have mv: "version_ok v \<and> label_ok (pr_name p)" if "(v, p) \<in> set m" for v p
    using m that unfolding collected_def by blast
  have mh: "file_name v (pr_name p) dir \<in> ?fs \<and> fs_ReadFile F (file_name v (pr_name p) dir) = Some b"
    if "(v, p) \<in> set m" "half p dir = Some b" for v p dir b
    using m that unfolding collected_def by blast
  have files: "file_name (mg_Version k) (mg_Name k) ''up'' \<in> ?fs \<and> file_name (mg_Version k) (mg_Name k) ''down'' \<in> ?fs \<and>
      version_ok (mg_Version k) \<and> label_ok (mg_Name k) \<and>
      fs_ReadFile F (file_name (mg_Version k) (mg_Name k) ''up'') = Some (mg_Up k) \<and>
      fs_ReadFile F (file_name (mg_Version k) (mg_Name k) ''down'') = Some (mg_Down k)" if "k \<in> set migs" for k
    using mv [OF k [OF that]] mh [OF k [OF that] h(1)] mh [OF k [OF that] h(2)] by simp
  have "\<exists>k \<in> set migs. f = file_name (mg_Version k) (mg_Name k) ''up'' \<or> f = file_name (mg_Version k) (mg_Name k) ''down''" if ff: "f \<in> ?fs" for f
  proof -
    obtain v p dir where v: "(v, p) \<in> set m" "f = file_name v (pr_name p) dir" "half p dir \<noteq> None"
      using m ff unfolding collected_def by blast
    have "v \<in> set (map mg_Version migs)" using am v(1) by (simp add: image_iff) force
    then obtain k where kk: "k \<in> set migs" "mg_Version k = v" by auto
    then have "p = \<lparr>pr_name = mg_Name k, pr_up = Some (mg_Up k), pr_down = Some (mg_Down k)\<rparr>"
      using k [OF kk(1)] v(1) d by (auto dest: eq_key_imp_eq_value)
    with v kk show ?thesis by (intro bexI [OF _ kk(1)]) (auto simp: half_def split: if_splits)
  qed
  with files s show ?thesis by (auto simp: list_all_iff)
qed

lemma embedded_load:
  "migrate_Load (migrations_FS (\<lambda>f. f)) = Inr (map (\<lambda>(v, n). \<lparr>mg_Version = v, mg_Name = n, mg_Up = file_name v n ''up'',
     mg_Down = file_name v n ''down''\<rparr>)
     [(''20260606000001'', ''init''), (''20260606000002'', ''create_users''), (''20260606000003'', ''create_api_keys''),
      (''20260606000004'', ''create_conversations''), (''20260606000005'', ''create_gateway_usage'')])"
  by code_simp

theorem load_is_exact_witness:
  "sorted_wrt (<) [''20260606000001'', ''20260606000002'', ''20260606000003'', ''20260606000004'', ''20260606000005'']"
proof -
  have "fs_ReadDir (migrations_FS (\<lambda>f. f)) = Some (map (\<lambda>n. (n, False)) embedded_names)" by (simp add: migrations_FS_def)
  from load_is_exact [OF embedded_load this] show ?thesis by simp
qed

end
