(* ===== verification/Migrate_Properties.thy ===== *)
theory Migrate_Properties
  imports Migrate_Files
begin

text \<open>
  What the migration runner guarantees, whatever Postgres does with the SQL as long as a script of
  an explicit transaction takes effect as a whole or not at all: the database stays on the
  boundary between two migrations, the bookkeeping table says which, a run that was cut off
  resumes, and \<open>Down\<close> undoes \<open>Up\<close>.
\<close>

section \<open>What scripts do\<close>

definition row_of :: "Migration \<Rightarrow> string \<times> string" where
  "row_of m = (mg_Version m, mg_Name m)"

text \<open>
  \<open>eff body\<close> is the effect of the statements of a body, or the error of the first that fails.
  The law is about migrations whose bodies have no transaction control, leave the bookkeeping
  table alone, and end outside a comment and a literal.
\<close>

definition script_law :: "'s postgres \<Rightarrow> (string \<Rightarrow> 's \<Rightarrow> (pgerr, 's) result) \<Rightarrow> Migration list \<Rightarrow> bool" where
  "script_law P eff migs \<longleftrightarrow> (\<forall>m \<in> set migs. \<forall>s rs.
     pg_script P (wrapTx (mg_Up m) (insert_row m)) (s, Some rs) =
       (case eff (trim_body (mg_Up m)) s of
          Inl e \<Rightarrow> (Some e, s, Some rs)
        | Inr s' \<Rightarrow> if mg_Version m \<in> fst ` set rs then (Some unique_violation, s, Some rs)
                    else (None, s', Some (rs @ [row_of m]))) \<and>
     pg_script P (wrapTx (mg_Down m) (delete_row m)) (s, Some rs) =
       (case eff (trim_body (mg_Down m)) s of
          Inl e \<Rightarrow> (Some e, s, Some rs)
        | Inr s' \<Rightarrow> (None, s', Some (filter (\<lambda>r. fst r \<noteq> mg_Version m) rs))))"

text \<open>The schema after a list of migrations, if each of them succeeds.\<close>

fun replay :: "(string \<Rightarrow> 's \<Rightarrow> (pgerr, 's) result) \<Rightarrow> Migration list \<Rightarrow> 's \<Rightarrow> 's option" where
  "replay eff [] s = Some s"
| "replay eff (m # ms) s = (case eff (trim_body (mg_Up m)) s of Inl _ \<Rightarrow> None | Inr s' \<Rightarrow> replay eff ms s')"

lemma replay_append: "replay eff (ms @ ns) s = (case replay eff ms s of None \<Rightarrow> None | Some s' \<Rightarrow> replay eff ns s')"
  by (induction ms arbitrary: s) (auto split: sum.split)

definition recorded_rows :: "('s, 'a) mig_db_scheme \<Rightarrow> (string \<times> string) list" where
  "recorded_rows w = (case mig_rows w of None \<Rightarrow> [] | Some rs \<Rightarrow> rs)"

definition pending :: "Migration list \<Rightarrow> ('s, 'a) mig_db_scheme \<Rightarrow> Migration list" where
  "pending migs w = filter (\<lambda>m. mg_Version m \<notin> fst ` set (recorded_rows w)) migs"

definition on_boundary :: "('s, 'a) mig_db_scheme \<Rightarrow> 's \<times> (string \<times> string) list option" where
  "on_boundary w = (mig_schema w, mig_rows w)"

lemma on_boundary_outcomes [simp]: "on_boundary (w\<lparr>outcomes := os\<rparr>) = on_boundary w"
  by (simp add: on_boundary_def)

lemma pg_exec_id: "on_boundary (snd (pg_exec (\<lambda>w. (Inr (), w)) w)) = on_boundary w"
  by (rule pg_exec_keeps [where f = on_boundary]) simp_all

lemma runScript_cases:
  fixes w :: "('s, 'a) mig_db_scheme"
  assumes "runScript P script w = (x, w')"
  obtains (not_run) e where "x = Inl e" "on_boundary w' = on_boundary w"
    | (run) e where "(e, on_boundary w') = pg_script P script (on_boundary w)" "x = Inr () \<Longrightarrow> e = None"
proof -
  obtain y w1 where a: "pg_exec (\<lambda>w. (Inr (), w)) w = (y, w1)" by fastforce
  have b1: "on_boundary w1 = on_boundary w" using pg_exec_id [of w] by (simp add: a)
  show thesis
  proof (cases y)
    case (Inl e)
    then show thesis using assms a b1 not_run by (auto simp: runScript_def)
  next
    case (Inr u)
    obtain z w2 where b: "pg_exec (script_stmt P script) w1 = (z, w2)" by fastforce
    have w2: "w' = w2" "x = (case z of Inl e \<Rightarrow> Inl (mig_script e) | Inr _ \<Rightarrow> Inr ())"
      using assms by (auto simp: runScript_def a Inr b split: sum.splits)
    have st: "(case fst (script_stmt P script v) of Inl e \<Rightarrow> Some e | Inr _ \<Rightarrow> None, on_boundary (snd (script_stmt P script v)))
        = pg_script P script (on_boundary v)" for v :: "('s, 'a) mig_db_scheme"
      by (simp add: script_stmt_def on_boundary_def split: prod.split option.split)
    show thesis
    proof (cases "script_stmt P script :: ('s, 'a) mig_db_scheme \<Rightarrow> _" w1 rule: pg_exec_cases)
      case (run v)
      then have "on_boundary v = on_boundary w" using b1 by auto
      moreover have "script_stmt P script v = (z, w2)" using run(1) b by simp
      ultimately show thesis
        using st [of v] w2 by (intro that(2) [of "case z of Inl e \<Rightarrow> Some e | Inr _ \<Rightarrow> None"]) (auto split: sum.splits)
    next
      case (lost os)
      then show thesis using b b1 w2 not_run by auto
    next
      case (unacked v)
      then have "on_boundary v = on_boundary w" using b1 by auto
      then show thesis
        using st [of v] unacked(1) b w2 by (intro that(2)) auto
    qed
  qed
qed

text \<open>One migration forward: it takes effect with its row, or nothing does; success means it did.\<close>

lemma runScript_up:
  assumes "script_law P eff migs" "m \<in> set migs" "mig_rows w = Some rs" "mg_Version m \<notin> fst ` set rs"
    "runScript P (wrapTx (mg_Up m) (insert_row m)) w = (x, w')"
  shows "(\<exists>s'. eff (trim_body (mg_Up m)) (mig_schema w) = Inr s' \<and> mig_schema w' = s' \<and> mig_rows w' = Some (rs @ [row_of m])) \<or>
    (x \<noteq> Inr () \<and> on_boundary w' = on_boundary w)"
  using assms(5)
proof (cases rule: runScript_cases)
  case (run e)
  moreover have "pg_script P (wrapTx (mg_Up m) (insert_row m)) (on_boundary w) =
      (case eff (trim_body (mg_Up m)) (mig_schema w) of Inl e \<Rightarrow> (Some e, mig_schema w, Some rs)
       | Inr s' \<Rightarrow> (None, s', Some (rs @ [row_of m])))"
    using assms(1-4) by (simp add: script_law_def on_boundary_def split: sum.split)
  ultimately show ?thesis
    using assms(3) by (cases "eff (trim_body (mg_Up m)) (mig_schema w)") (auto simp: on_boundary_def)
qed simp

lemma runScript_down:
  assumes "script_law P eff migs" "m \<in> set migs" "mig_rows w = Some rs"
    "runScript P (wrapTx (mg_Down m) (delete_row m)) w = (x, w')"
  shows "(\<exists>s'. eff (trim_body (mg_Down m)) (mig_schema w) = Inr s' \<and> mig_schema w' = s' \<and>
      mig_rows w' = Some (filter (\<lambda>r. fst r \<noteq> mg_Version m) rs)) \<or> (x \<noteq> Inr () \<and> on_boundary w' = on_boundary w)"
  using assms(4)
proof (cases rule: runScript_cases)
  case (run e)
  moreover have "pg_script P (wrapTx (mg_Down m) (delete_row m)) (on_boundary w) =
      (case eff (trim_body (mg_Down m)) (mig_schema w) of Inl e \<Rightarrow> (Some e, mig_schema w, Some rs)
       | Inr s' \<Rightarrow> (None, s', Some (filter (\<lambda>r. fst r \<noteq> mg_Version m) rs)))"
    using assms(1-3) by (simp add: script_law_def on_boundary_def split: sum.split)
  ultimately show ?thesis
    using assms(3) by (cases "eff (trim_body (mg_Down m)) (mig_schema w)") (auto simp: on_boundary_def)
qed simp

text \<open>With every round trip delivered, the operations by equations.\<close>

lemma run_healthy:
  assumes "outcomes w = []"
  shows "ensureBookkeeping w = (Inr (), w\<lparr>mig_rows := Some (recorded_rows w)\<rparr>)"
    "appliedVersions w = (case mig_rows w of None \<Rightarrow> (Inl (mig_reading_applied undefined_table), w) | Some rs \<Rightarrow> (Inr (sort (map fst rs)), w))"
    "runScript P script w = (case pg_script P script (mig_schema w, mig_rows w) of
       (e, s, rs) \<Rightarrow> (case e of None \<Rightarrow> Inr () | Some x \<Rightarrow> Inl (mig_script x), w\<lparr>mig_schema := s, mig_rows := rs\<rparr>))"
  using assms
  by (simp_all add: ensureBookkeeping_def bookkeepingDDL_def appliedVersions_def select_versions_def runScript_def script_stmt_def
      recorded_rows_def pg_exec_def next_outcome_def split: prod.split option.split)

lemma runScript_up_healthy:
  assumes "script_law P eff migs" "m \<in> set migs" "mig_rows w = Some rs" "mg_Version m \<notin> fst ` set rs"
    "eff (trim_body (mg_Up m)) (mig_schema w) = Inr s" "healthy w"
  shows "runScript P (wrapTx (mg_Up m) (insert_row m)) w = (Inr (), w\<lparr>mig_schema := s, mig_rows := Some (rs @ [row_of m])\<rparr>)"
  using assms by (simp add: run_healthy healthy_def script_law_def)

lemma runScript_healthy: "healthy w \<Longrightarrow> healthy (snd (runScript P script w))"
  by (simp add: run_healthy healthy_def split: prod.split)

section \<open>Up\<close>

text \<open>
  The outcome of a run of the pending list \<open>ms\<close>: the migrations \<open>new\<close>, a prefix of it, have taken
  effect, in order and with their rows; those reported are them, less the last when its
  acknowledgement was lost.
\<close>

definition advanced :: "(string \<Rightarrow> 's \<Rightarrow> (pgerr, 's) result) \<Rightarrow> Migration list \<Rightarrow> ('s, 'a) mig_db_scheme
    \<Rightarrow> progress \<Rightarrow> ('s, 'a) mig_db_scheme \<Rightarrow> bool" where
  "advanced eff ms w p w' \<longleftrightarrow> (\<exists>new rest. ms = new @ rest \<and>
     recorded_rows w' = recorded_rows w @ map row_of new \<and> replay eff new (mig_schema w) = Some (mig_schema w') \<and>
     (if snd p = None then rest = [] \<and> fst p = map mg_Version new
      else \<exists>lost. map mg_Version new = fst p @ lost \<and> length lost \<le> 1))"

lemma apply_pending_advances:
  assumes "script_law P eff migs" "set ms \<subseteq> set migs" "mig_rows w = Some rs"
    "distinct (map mg_Version ms)" "\<forall>m \<in> set ms. mg_Version m \<in> applied \<longleftrightarrow> mg_Version m \<in> fst ` set rs"
    "apply_pending P applied ms acc w = ((fin, e), w')"
  shows "\<exists>vs. fin = acc @ vs \<and> advanced eff (filter (\<lambda>m. mg_Version m \<notin> applied) ms) w (vs, e) w'"
  using assms(2-6)
proof (induction ms arbitrary: w rs acc)
  case Nil
  then show ?case by (auto simp: advanced_def)
next
  case (Cons m ms)
  show ?case
  proof (cases "mg_Version m \<in> applied")
    case True
    show ?thesis
      using Cons.IH [of w rs acc] Cons.prems True by simp
  next
    case False
    obtain x w1 where r: "runScript P (wrapTx (mg_Up m) (insert_row m)) w = (x, w1)" by fastforce
    have up: "(\<exists>s'. eff (trim_body (mg_Up m)) (mig_schema w) = Inr s' \<and> mig_schema w1 = s' \<and> mig_rows w1 = Some (rs @ [row_of m])) \<or>
        (x \<noteq> Inr () \<and> on_boundary w1 = on_boundary w)"
      using Cons.prems False by (intro runScript_up [OF assms(1) _ Cons.prems(2) _ r]) auto
    show ?thesis
    proof (cases x)
      case (Inl err)
      with up Cons.prems(2,5) False show ?thesis
        by (auto simp: advanced_def recorded_rows_def on_boundary_def r intro: exI [of _ "[m]"] exI [of _ "[]"])
    next
      case (Inr u)
      with up have st: "eff (trim_body (mg_Up m)) (mig_schema w) = Inr (mig_schema w1)" "mig_rows w1 = Some (rs @ [row_of m])"
        by auto
      have "\<exists>vs. fin = (acc @ [mg_Version m]) @ vs \<and> advanced eff (filter (\<lambda>m. mg_Version m \<notin> applied) ms) w1 (vs, e) w'"
      proof (rule Cons.IH [OF _ st(2)])
        show "set ms \<subseteq> set migs" "distinct (map mg_Version ms)" using Cons.prems by simp_all
        show "\<forall>k \<in> set ms. mg_Version k \<in> applied \<longleftrightarrow> mg_Version k \<in> fst ` set (rs @ [row_of m])"
          using Cons.prems(3,4) by (auto simp: row_of_def image_iff)
        show "apply_pending P applied ms (acc @ [mg_Version m]) w1 = ((fin, e), w')"
          using Cons.prems(5) False by (simp add: r Inr)
      qed
      then obtain vs new rest where v: "fin = acc @ mg_Version m # vs" "filter (\<lambda>m. mg_Version m \<notin> applied) ms = new @ rest"
        "recorded_rows w' = recorded_rows w1 @ map row_of new" "replay eff new (mig_schema w1) = Some (mig_schema w')"
        "if e = None then rest = [] \<and> vs = map mg_Version new else \<exists>lost. map mg_Version new = vs @ lost \<and> length lost \<le> 1"
        unfolding advanced_def fst_conv snd_conv append.simps append_assoc by blast
      have "advanced eff (filter (\<lambda>m. mg_Version m \<notin> applied) (m # ms)) w (mg_Version m # vs, e) w'"
        unfolding advanced_def using v st Cons.prems(2) False
        by (intro exI [of _ "m # new"] exI [of _ rest]) (auto simp: recorded_rows_def split: if_splits)
      with v(1) show ?thesis by auto
    qed
  qed
qed

lemma ensureBookkeeping_cases:
  fixes w :: "('s, 'a) mig_db_scheme"
  obtains (failed) e w1 where "ensureBookkeeping w = (Inl e, w1)" "recorded_rows w1 = recorded_rows w" "mig_schema w1 = mig_schema w"
    | (ok) w1 where "ensureBookkeeping w = (Inr (), w1)" "mig_rows w1 = Some (recorded_rows w)" "mig_schema w1 = mig_schema w"
proof (cases "bookkeepingDDL :: ('s, 'a) mig_db_scheme \<Rightarrow> _" w rule: pg_exec_cases)
  case (run v)
  then show thesis using ok [of "snd (bookkeepingDDL v)"]
    by (auto simp: ensureBookkeeping_def bookkeepingDDL_def recorded_rows_def)
next
  case (lost os)
  then show thesis using failed [of "mig_creating_table ConnErr" "w\<lparr>outcomes := os\<rparr>"]
    by (simp add: ensureBookkeeping_def recorded_rows_def)
next
  case (unacked v)
  then show thesis using failed [of "mig_creating_table ConnErr" "snd (bookkeepingDDL v)"]
    by (auto simp: ensureBookkeeping_def bookkeepingDDL_def recorded_rows_def)
qed

lemma appliedVersions_result:
  fixes w :: "('s, 'a) mig_db_scheme"
  assumes "mig_rows w = Some rs" "appliedVersions w = (x, w1)"
  shows "on_boundary w1 = on_boundary w" "x = Inr vs \<Longrightarrow> vs = sort (map fst rs)"
proof -
  have sel: "select_versions v = (Inr (sort (map fst rs)), v)" if "on_boundary v = on_boundary w" for v :: "('s, 'a) mig_db_scheme"
    using that assms(1) by (simp add: select_versions_def on_boundary_def)
  have av: "appliedVersions w = (case pg_exec select_versions w of (Inl e, w1) \<Rightarrow> (Inl (mig_reading_applied e), w1) | (Inr vs, w1) \<Rightarrow> (Inr vs, w1))"
    by (simp add: appliedVersions_def)
  show "on_boundary w1 = on_boundary w" "x = Inr vs \<Longrightarrow> vs = sort (map fst rs)"
    using assms(2) sel [of "w\<lparr>outcomes := os\<rparr>" for os] sel [of w]
    by (cases "select_versions :: ('s, 'a) mig_db_scheme \<Rightarrow> _" w rule: pg_exec_cases; auto simp: av)+
qed

lemma advanced_none:
  "recorded_rows w' = recorded_rows w \<Longrightarrow> mig_schema w' = mig_schema w \<Longrightarrow> advanced eff ms w ([], Some e) w'"
  unfolding advanced_def by (intro exI [of _ "[]"] exI [of _ ms]) simp

lemma Up_advances:
  assumes "script_law P eff migs" "distinct (map mg_Version migs)"
    "Up P migs w = (p, w')"
  shows "advanced eff (pending migs w) w p w'"
proof (cases rule: ensureBookkeeping_cases [of w])
  case (failed e w1)
  then show ?thesis using assms(3) by (auto simp: Up_def intro: advanced_none)
next
  case (ok w1)
  obtain x w2 where av: "appliedVersions w1 = (x, w2)" by fastforce
  note ar = appliedVersions_result [OF ok(2) av]
  let ?rs = "recorded_rows w"
  have w2: "mig_rows w2 = Some ?rs" "mig_schema w2 = mig_schema w" using ar(1) ok by (simp_all add: on_boundary_def)
  show ?thesis
  proof (cases x)
    case (Inl e)
    moreover have "recorded_rows w2 = ?rs" by (simp add: recorded_rows_def [of w2] w2)
    ultimately show ?thesis using ok assms(3) av w2(2)
      by (auto simp: Up_def appliedSet_def intro: advanced_none)
  next
    case (Inr vs)
    then have "apply_pending P (fst ` set ?rs) migs [] w2 = ((fst p, snd p), w')"
      using assms(3) ok(1) av ar(2) by (simp add: Up_def appliedSet_def)
    from apply_pending_advances [OF assms(1) subset_refl w2(1) assms(2) _ this]
    have "advanced eff (pending migs w) w2 p w'" by (auto simp: pending_def)
    then show ?thesis using w2 by (simp add: advanced_def recorded_rows_def [of w2])
  qed
qed

text \<open>C11: whatever fails during \<open>Up\<close>, a script, a connection, or the answer to a script that ran, the
  database is on the boundary between two migrations: a prefix of the pending ones has taken
  effect, in order, and the bookkeeping table has exactly their rows in addition. The reported
  versions are those, less at most the last; without an error nothing is pending any more.\<close>

theorem up_stays_on_boundary:
  assumes "script_law P eff migs" "distinct (map mg_Version migs)"
    "Up P migs w = (p, w')"
  shows "advanced eff (pending migs w) w p w'"
  using assms by (rule Up_advances)

lemma pending_after:
  assumes "recorded_rows v = recorded_rows w @ map row_of ns"
  shows "pending migs v = filter (\<lambda>m. mg_Version m \<notin> mg_Version ` set ns) (pending migs w)"
proof -
  have "fst ` set (recorded_rows v) = fst ` set (recorded_rows w) \<union> mg_Version ` set ns"
    by (simp add: assms image_Un image_image row_of_def)
  then show ?thesis by (auto simp: pending_def intro!: filter_cong)
qed

text \<open>When every round trip arrives and the pending migrations succeed, a run completes.\<close>

lemma apply_pending_completes:
  assumes "script_law P eff migs" "set ms \<subseteq> set migs" "mig_rows w = Some rs" "healthy w"
    "distinct (map mg_Version ms)" "\<forall>m \<in> set ms. mg_Version m \<in> applied \<longleftrightarrow> mg_Version m \<in> fst ` set rs"
    "replay eff (filter (\<lambda>m. mg_Version m \<notin> applied) ms) (mig_schema w) \<noteq> None"
  shows "snd (fst (apply_pending P applied ms acc w)) = None"
  using assms(2-7)
proof (induction ms arbitrary: w rs acc)
  case (Cons m ms)
  show ?case
  proof (cases "mg_Version m \<in> applied")
    case True
    then show ?thesis using Cons.IH [of w rs acc] Cons.prems by simp
  next
    case False
    then obtain s where s: "eff (trim_body (mg_Up m)) (mig_schema w) = Inr s"
      "replay eff (filter (\<lambda>m. mg_Version m \<notin> applied) ms) s \<noteq> None"
      using Cons.prems(6) by (auto split: sum.splits)
    let ?w = "w\<lparr>mig_schema := s, mig_rows := Some (rs @ [row_of m])\<rparr>"
    have "runScript P (wrapTx (mg_Up m) (insert_row m)) w = (Inr (), ?w)"
      using Cons.prems False s(1) by (intro runScript_up_healthy [OF assms(1)]) auto
    moreover have "snd (fst (apply_pending P applied ms (acc @ [mg_Version m]) ?w)) = None"
    proof (rule Cons.IH)
      show "\<forall>k \<in> set ms. mg_Version k \<in> applied \<longleftrightarrow> mg_Version k \<in> fst ` set (rs @ [row_of m])"
        using Cons.prems(4,5) by (auto simp: row_of_def image_iff)
    qed (use Cons.prems s(2) in \<open>simp_all add: healthy_def\<close>)
    ultimately show ?thesis using False by simp
  qed
qed simp

lemma Up_completes:
  assumes "script_law P eff migs" "distinct (map mg_Version migs)" "healthy w"
    "replay eff (pending migs w) (mig_schema w) \<noteq> None"
  shows "snd (fst (Up P migs w)) = None"
proof -
  let ?v = "w\<lparr>mig_rows := Some (recorded_rows w)\<rparr>"
  have r: "mig_rows ?v = Some (recorded_rows w)" "healthy ?v" using assms(3) by (simp_all add: healthy_def)
  have "snd (fst (apply_pending P (fst ` set (recorded_rows w)) migs [] ?v)) = None"
    using assms(4) by (intro apply_pending_completes [OF assms(1) subset_refl r assms(2)]) (simp_all add: pending_def)
  then show ?thesis
    using assms(3) r(2) by (simp add: Up_def appliedSet_def run_healthy healthy_def)
qed

text \<open>C26: a run that was cut off, wherever and for whatever reason, is completed by the next run that
  meets no failure, as long as the pending migrations can succeed at all: that run returns without an error, applies
  exactly the migrations the first one had not, and leaves the schema and the bookkeeping that one undisturbed
  run from the start would have left, with nothing pending.\<close>

theorem up_resumes:
  assumes "script_law P eff migs" "distinct (map mg_Version migs)"
    "Up P migs w = (p, w1)" "on_boundary v = on_boundary w1" "healthy v"
    "replay eff (pending migs w) (mig_schema w) = Some s"
  shows "\<exists>new rest lost w2. pending migs w = new @ rest \<and> map mg_Version new = fst p @ lost \<and> length lost \<le> 1 \<and>
    Up P migs v = ((map mg_Version rest, None), w2) \<and> mig_schema w2 = s \<and>
    recorded_rows w2 = recorded_rows w @ map row_of (pending migs w) \<and> pending migs w2 = []"
proof -
  from Up_advances [OF assms(1-3)] obtain new rest where n: "pending migs w = new @ rest"
    "recorded_rows w1 = recorded_rows w @ map row_of new" "replay eff new (mig_schema w) = Some (mig_schema w1)"
    and "if snd p = None then rest = [] \<and> fst p = map mg_Version new else \<exists>lost. map mg_Version new = fst p @ lost \<and> length lost \<le> 1"
    unfolding advanced_def by blast
  then obtain lost where l: "map mg_Version new = fst p @ lost" "length lost \<le> 1" by (auto split: if_splits)
  have v: "recorded_rows v = recorded_rows w1" "mig_schema v = mig_schema w1"
    using assms(4) by (simp_all add: on_boundary_def recorded_rows_def)
  have d: "distinct (map mg_Version (new @ rest))"
    using assms(2) unfolding n(1) [symmetric] pending_def by (simp add: distinct_map_filter)
  have "pending migs v = filter (\<lambda>m. mg_Version m \<notin> mg_Version ` set new) (pending migs w)"
    using n(2) v(1) by (intro pending_after) simp
  also have "\<dots> = rest"
    using d by (auto simp: n(1) filter_empty_conv filter_id_conv)
  finally have r: "pending migs v = rest" .
  have s: "replay eff rest (mig_schema v) = Some s"
    using assms(6) n(3) by (simp add: n(1) replay_append v(2))
  obtain q w2 where u: "Up P migs v = (q, w2)" by fastforce
  have q: "snd q = None" using Up_completes [OF assms(1,2,5)] s by (simp add: r u)
  from Up_advances [OF assms(1,2) u] q
  have f: "fst q = map mg_Version rest" "recorded_rows w2 = recorded_rows v @ map row_of rest"
    "replay eff rest (mig_schema v) = Some (mig_schema w2)"
    unfolding advanced_def r by auto
  have "pending migs w2 = filter (\<lambda>m. mg_Version m \<notin> mg_Version ` set rest) (pending migs v)"
    by (rule pending_after [OF f(2)])
  also have "\<dots> = []" by (auto simp: r filter_empty_conv)
  finally have "pending migs w2 = []" .
  then show ?thesis
    using n l u q f s v(1)
    by (intro exI [of _ new] exI [of _ rest] exI [of _ lost] exI [of _ w2]) (simp add: prod_eq_iff)
qed

section \<open>A database for the witnesses\<close>

text \<open>Its schema is a number; the up body of its one migration adds one, the down body takes it back.\<close>

definition plus_one :: Migration where
  "plus_one = \<lparr>mg_Version = ''20260606000001'', mg_Name = ''init'', mg_Up = ''+;'', mg_Down = ''-;''\<rparr>"

definition count_eff :: "string \<Rightarrow> int \<Rightarrow> (pgerr, int) result" where
  "count_eff b s = (if b = ''+'' then Inr (s + 1) else if b = ''-'' then Inr (s - 1) else Inl ConnErr)"

definition count_pg :: "int postgres" where
  "count_pg = \<lparr>pg_script = (\<lambda>script (s, t). case t of None \<Rightarrow> (Some ConnErr, s, None)
     | Some rs \<Rightarrow>
         if script = wrapTx (mg_Up plus_one) (insert_row plus_one) then
           (if mg_Version plus_one \<in> fst ` set rs then (Some unique_violation, s, Some rs)
            else (None, s + 1, Some (rs @ [row_of plus_one])))
         else if script = wrapTx (mg_Down plus_one) (delete_row plus_one) then
           (None, s - 1, Some (filter (\<lambda>r. fst r \<noteq> mg_Version plus_one) rs))
         else (Some ConnErr, s, Some rs))\<rparr>"

lemma count_scripts:
  "pg_script count_pg (wrapTx (mg_Up plus_one) (insert_row plus_one)) (s, Some rs) =
    (if mg_Version plus_one \<in> fst ` set rs then (Some unique_violation, s, Some rs) else (None, s + 1, Some (rs @ [row_of plus_one])))"
  "pg_script count_pg (wrapTx (mg_Down plus_one) (delete_row plus_one)) (s, Some rs) =
    (None, s - 1, Some (filter (\<lambda>r. fst r \<noteq> mg_Version plus_one) rs))"
proof -
  have "wrapTx (mg_Down plus_one) (delete_row plus_one) \<noteq> wrapTx (mg_Up plus_one) (insert_row plus_one)" by code_simp
  then show "pg_script count_pg (wrapTx (mg_Up plus_one) (insert_row plus_one)) (s, Some rs) =
      (if mg_Version plus_one \<in> fst ` set rs then (Some unique_violation, s, Some rs) else (None, s + 1, Some (rs @ [row_of plus_one])))"
    "pg_script count_pg (wrapTx (mg_Down plus_one) (delete_row plus_one)) (s, Some rs) =
      (None, s - 1, Some (filter (\<lambda>r. fst r \<noteq> mg_Version plus_one) rs))"
    by (simp_all add: count_pg_def)
qed

lemma count_bodies: "trim_body (mg_Up plus_one) = ''+''" "trim_body (mg_Down plus_one) = ''-''"
  by code_simp+

lemma count_law: "script_law count_pg count_eff [plus_one]"
  unfolding script_law_def
proof (intro ballI)
  fix m assume "m \<in> set [plus_one]"
  then have m: "m = plus_one" by simp
  show "\<forall>s rs. pg_script count_pg (wrapTx (mg_Up m) (insert_row m)) (s, Some rs) =
       (case count_eff (trim_body (mg_Up m)) s of Inl e \<Rightarrow> (Some e, s, Some rs)
        | Inr s' \<Rightarrow> if mg_Version m \<in> fst ` set rs then (Some unique_violation, s, Some rs) else (None, s', Some (rs @ [row_of m]))) \<and>
     pg_script count_pg (wrapTx (mg_Down m) (delete_row m)) (s, Some rs) =
       (case count_eff (trim_body (mg_Down m)) s of Inl e \<Rightarrow> (Some e, s, Some rs)
        | Inr s' \<Rightarrow> (None, s', Some (filter (\<lambda>r. fst r \<noteq> mg_Version m) rs)))"
    unfolding m count_scripts count_bodies by (simp add: count_eff_def)
qed

definition count_world :: "int mig_db" where
  "count_world = env.extend (env.truncate sample_world) \<lparr>mig_schema = 7, mig_rows = None\<rparr>"

lemma count_world_facts: "outcomes count_world = []" "mig_rows count_world = None" "mig_schema count_world = 7"
  by (simp_all add: count_world_def env.extend_def env.truncate_def sample_world_def)

lemma count_up:
  "Up count_pg [plus_one] count_world =
    (([''20260606000001''], None), count_world\<lparr>mig_rows := Some [row_of plus_one], mig_schema := 8\<rparr>)"
proof -
  have v: "mg_Version plus_one = ''20260606000001''" by (simp add: plus_one_def)
  show ?thesis
    by (simp add: Up_def appliedSet_def run_healthy count_world_facts recorded_rows_def count_scripts) (simp add: v)
qed

theorem up_stays_on_boundary_witness:
  "advanced count_eff [plus_one] (count_world\<lparr>outcomes := [Delivered, Delivered, Delivered, Unacked]\<rparr>)
     (fst (Up count_pg [plus_one] (count_world\<lparr>outcomes := [Delivered, Delivered, Delivered, Unacked]\<rparr>)))
     (snd (Up count_pg [plus_one] (count_world\<lparr>outcomes := [Delivered, Delivered, Delivered, Unacked]\<rparr>)))"
proof -
  let ?w = "count_world\<lparr>outcomes := [Delivered, Delivered, Delivered, Unacked]\<rparr>"
  have "pending [plus_one] ?w = [plus_one]" by (simp add: pending_def recorded_rows_def count_world_facts)
  with up_stays_on_boundary [OF count_law _ surjective_pairing, of ?w] show ?thesis by simp
qed

definition count_done :: "int mig_db" where
  "count_done = count_world\<lparr>mig_rows := Some [row_of plus_one], mig_schema := 8\<rparr>"

text \<open>A run whose one script took effect but was not acknowledged, and the run after it.\<close>

definition count_unacked :: "int mig_db" where
  "count_unacked = count_world\<lparr>outcomes := [Delivered, Delivered, Delivered, Unacked]\<rparr>"

lemma count_interrupted:
  "\<exists>w1. Up count_pg [plus_one] count_unacked = (([], Some (mig_applying ''20260606000001'' ''init'' (mig_script ConnErr))), w1)
     \<and> on_boundary count_done = on_boundary w1"
proof -
  have v: "mg_Version plus_one = ''20260606000001''" "mg_Name plus_one = ''init''" by (simp_all add: plus_one_def)
  show ?thesis
    by (simp add: Up_def appliedSet_def ensureBookkeeping_def appliedVersions_def runScript_def pg_exec_def next_outcome_def
        bookkeepingDDL_def select_versions_def script_stmt_def count_scripts count_unacked_def count_done_def count_world_facts
        on_boundary_def) (simp add: v)
qed

theorem up_resumes_witness:
  "\<exists>w2. Up count_pg [plus_one] count_done = (([], None), w2) \<and> mig_schema w2 = 8 \<and> pending [plus_one] w2 = []"
proof -
  obtain w1 where u: "Up count_pg [plus_one] count_unacked = (([], Some (mig_applying ''20260606000001'' ''init'' (mig_script ConnErr))), w1)"
    "on_boundary count_done = on_boundary w1"
    using count_interrupted by blast
  have w: "pending [plus_one] count_unacked = [plus_one]" "mig_schema count_unacked = 7"
    by (simp_all add: count_unacked_def pending_def recorded_rows_def count_world_facts)
  have "replay count_eff (pending [plus_one] count_unacked) (mig_schema count_unacked) = Some 8"
    by (simp add: w count_eff_def count_bodies)
  moreover have "healthy count_done" by (simp add: healthy_def count_done_def count_world_facts)
  ultimately obtain new rest w2 where n: "[plus_one] = new @ rest" "Up count_pg [plus_one] count_done = ((map mg_Version rest, None), w2)"
    "mig_schema w2 = 8" "pending [plus_one] w2 = []"
    using up_resumes [OF count_law _ u] w by auto
  have "Up count_pg [plus_one] count_done = (([], None), count_done)"
    by (simp add: Up_def appliedSet_def run_healthy count_done_def count_world_facts recorded_rows_def row_of_def)
  with n show ?thesis by auto
qed

section \<open>Down\<close>

lemma find_version:
  assumes "distinct (map mg_Version migs)" "m \<in> set migs"
  shows "find (\<lambda>k. mg_Version k = mg_Version m) (rev migs) = Some m"
proof (cases "find (\<lambda>k. mg_Version k = mg_Version m) (rev migs)")
  case None
  then show ?thesis using assms(2) find_NoneD [of _ "rev migs" m] by auto
next
  case (Some k)
  then have "k \<in> set migs" "mg_Version k = mg_Version m" using find_SomeD [of _ "rev migs" k] by auto
  then show ?thesis using assms Some by (metis inj_onD distinct_map)
qed

lemma roll_back_undoes:
  assumes "script_law P eff migs" "distinct (map mg_Version migs)"
    "\<And>m s s'. m \<in> set migs \<Longrightarrow> eff (trim_body (mg_Up m)) s = Inr s' \<Longrightarrow> eff (trim_body (mg_Down m)) s' = Inr s"
    "set ns \<subseteq> set migs" "distinct (map mg_Version ns)" "\<forall>m \<in> set ns. mg_Version m \<notin> fst ` set rs"
    "mig_rows w = Some (rs @ map row_of ns)" "replay eff ns s0 = Some (mig_schema w)"
    "roll_back P migs (length ns) (rev (map mg_Version ns) @ older) acc w = ((us, None), w')"
  shows "us = acc @ rev (map mg_Version ns) \<and> mig_schema w' = s0 \<and> mig_rows w' = Some rs"
  using assms(4-9)
proof (induction ns arbitrary: w acc rule: rev_induct)
  case Nil
  then show ?case by (cases older) auto
next
  case (snoc m ns)
  have m: "m \<in> set migs" "find (\<lambda>k. mg_Version k = mg_Version m) (rev migs) = Some m"
    using snoc.prems(1) find_version [OF assms(2)] by auto
  obtain x w1 where r: "runScript P (wrapTx (mg_Down m) (delete_row m)) w = (x, w1)" by fastforce
  have x: "x = Inr ()" using snoc.prems(6) by (cases x) (simp_all add: m(2) r)
  have "\<exists>s'. eff (trim_body (mg_Down m)) (mig_schema w) = Inr s' \<and> mig_schema w1 = s' \<and>
      mig_rows w1 = Some (filter (\<lambda>r. fst r \<noteq> mg_Version m) (rs @ map row_of (ns @ [m])))"
    using runScript_down [OF assms(1) m(1) snoc.prems(4) r] x by auto
  moreover have "filter (\<lambda>r. fst r \<noteq> mg_Version m) (rs @ map row_of (ns @ [m])) = rs @ map row_of ns"
  proof -
    have "mg_Version m \<notin> mg_Version ` set ns" using snoc.prems(2) by simp
    then have nv: "\<forall>k \<in> set ns. mg_Version k \<noteq> mg_Version m" by (metis imageI)
    have "filter (\<lambda>r. fst r \<noteq> mg_Version m) rs = rs" using snoc.prems(3) by (force simp: filter_id_conv)
    moreover have "filter (\<lambda>r. fst r \<noteq> mg_Version m) (map row_of ns) = map row_of ns"
      using nv by (simp add: filter_id_conv row_of_def)
    ultimately show ?thesis by (simp add: row_of_def [of m])
  qed
  moreover obtain s1 where s1: "replay eff ns s0 = Some s1" "eff (trim_body (mg_Up m)) s1 = Inr (mig_schema w)"
    using snoc.prems(5) by (auto simp: replay_append split: option.splits sum.splits)
  ultimately have w1: "mig_rows w1 = Some (rs @ map row_of ns)" "mig_schema w1 = s1"
    using assms(3) [OF m(1) s1(2)] by auto
  have "us = (acc @ [mg_Version m]) @ rev (map mg_Version ns) \<and> mig_schema w' = s0 \<and> mig_rows w' = Some rs"
    using snoc.prems s1(1) x by (intro snoc.IH [OF _ _ _ w1(1)]) (simp_all add: m(2) r w1(2))
  then show ?case by simp
qed

text \<open>C25: rolling back as many migrations as a run applied undoes that run, when each down body undoes
  its up body and nothing on record is newer: schema and bookkeeping are what they were before.\<close>

theorem down_reverts_up:
  assumes "script_law P eff migs"
    "sorted (map mg_Version migs)" "distinct (map mg_Version migs)"
    "\<And>m s s'. m \<in> set migs \<Longrightarrow> eff (trim_body (mg_Up m)) s = Inr s' \<Longrightarrow> eff (trim_body (mg_Down m)) s' = Inr s"
    "\<forall>r \<in> set (recorded_rows w). \<forall>m \<in> set (pending migs w). fst r < mg_Version m"
    "Up P migs w = ((vs, None), w1)" "vs \<noteq> []" "Down P migs (int (length vs)) w1 = ((us, None), w2)"
  shows "us = rev vs \<and> mig_schema w2 = mig_schema w \<and> recorded_rows w2 = recorded_rows w"
proof -
  let ?rs = "recorded_rows w" and ?new = "pending migs w"
  from Up_advances [OF assms(1,3,6)]
  have n: "recorded_rows w1 = ?rs @ map row_of ?new" "replay eff ?new (mig_schema w) = Some (mig_schema w1)" "vs = map mg_Version ?new"
    unfolding advanced_def by auto
  obtain w3 where e: "ensureBookkeeping w1 = (Inr (), w3)" "mig_rows w3 = Some (recorded_rows w1)" "mig_schema w3 = mig_schema w1"
    using assms(8) by (cases rule: ensureBookkeeping_cases [of w1]) (auto simp: Down_def Let_def)
  obtain x w4 where av: "appliedVersions w3 = (x, w4)" by fastforce
  obtain ord where ord: "x = Inr ord" using assms(8) e(1) av by (cases x) (auto simp: Down_def Let_def)
  note ar = appliedVersions_result [OF e(2) av]
  have w4: "mig_rows w4 = Some (?rs @ map row_of ?new)" "mig_schema w4 = mig_schema w1"
    using ar(1) e n(1) by (simp_all add: on_boundary_def)
  have sn: "sorted (map mg_Version ?new)" "distinct (map mg_Version ?new)" "set ?new \<subseteq> set migs"
    using assms(2,3) by (auto simp: pending_def sorted_filter distinct_map_filter)
  have "ord = sort_key (\<lambda>v. v) (map fst ?rs @ map mg_Version ?new)"
    using ar(2) [OF ord] n(1) by (simp add: row_of_def comp_def)
  also have "\<dots> = sort_key (\<lambda>v. v) (map fst ?rs) @ map mg_Version ?new"
    by (rule sort_key_append_above) (use assms(5) sn(1) in auto)
  finally have o: "rev ord = rev (map mg_Version ?new) @ rev (sort (map fst ?rs))" by simp
  have rb: "roll_back P migs (length ?new) (rev (map mg_Version ?new) @ rev (sort (map fst ?rs))) [] w4 = ((us, None), w2)"
    using assms(7,8) e(1) av ord by (simp add: Down_def Let_def n(3) o [symmetric])
  have "us = [] @ rev (map mg_Version ?new) \<and> mig_schema w2 = mig_schema w \<and> mig_rows w2 = Some ?rs"
    by (rule roll_back_undoes [OF assms(1,3,4) sn(3,2) _ w4(1) _ rb])
      (use n(2) w4(2) in \<open>auto simp: pending_def\<close>)
  then show ?thesis using n(3) by (simp add: recorded_rows_def)
qed

theorem down_reverts_up_witness:
  "\<exists>w2. Down count_pg [plus_one] 1 count_done = (([''20260606000001''], None), w2) \<and> mig_schema w2 = 7 \<and> recorded_rows w2 = []"
proof -
  have v: "mg_Version plus_one = ''20260606000001''" by (simp add: plus_one_def)
  obtain w2 where d: "Down count_pg [plus_one] 1 count_done = (([''20260606000001''], None), w2)"
    by (simp add: Down_def run_healthy count_done_def count_world_facts recorded_rows_def row_of_def numeral_eq_Suc count_scripts v)
  have e: "count_eff (trim_body (mg_Up m)) s = Inr s' \<Longrightarrow> count_eff (trim_body (mg_Down m)) s' = Inr s" if "m \<in> set [plus_one]" for m s s'
    using that by (auto simp: count_eff_def count_bodies)
  have "mig_schema w2 = mig_schema count_world \<and> recorded_rows w2 = recorded_rows count_world"
  proof (rule down_reverts_up [OF count_law _ _ e _ count_up [folded count_done_def], THEN conjunct2])
    show "Down count_pg [plus_one] (int (length [''20260606000001''])) count_done = (([''20260606000001''], None), w2)"
      using d by simp
    show "\<forall>r \<in> set (recorded_rows count_world). \<forall>m \<in> set (pending [plus_one] count_world). fst r < mg_Version m"
      by (simp add: recorded_rows_def count_world_facts)
  qed simp_all
  then show ?thesis using d by (simp add: count_world_facts recorded_rows_def)
qed

end
