(* ===== verification/Migrate_Concurrent.thy ===== *)
theory Migrate_Concurrent
  imports Migrate_Properties
begin

text \<open>
  Several processes that run \<open>Up\<close> on one database at once, as the replicas of a server started
  with \<open>AUTO_MIGRATE\<close> do. \<open>up_step\<close> is \<open>Up\<close> cut into its round trips; the processes take
  them in any order. Postgres serialises the scripts: each is a transaction that writes its
  version under the table's primary key, so the second of two that race is made to wait and then fails.
\<close>

section \<open>Up, one round trip at a time\<close>

text \<open>
  Where a process is: before \<open>ensureBookkeeping\<close>, before \<open>appliedSet\<close>, in the loop with the set it
  has read, the migrations that are left and the versions it has applied, or returned.
\<close>

datatype up_phase =
    up_start
  | up_read
  | up_loop "string set" "Migration list" "string list"
  | up_done progress

fun up_step :: "'s postgres \<Rightarrow> Migration list \<Rightarrow> up_phase \<times> ('s, 'a) mig_db_scheme \<Rightarrow> up_phase \<times> ('s, 'a) mig_db_scheme" where
  "up_step P migs (up_start, w) =
     (case ensureBookkeeping w of
        (Inl e, w1) \<Rightarrow> (up_done ([], Some e), w1)
      | (Inr _, w1) \<Rightarrow> (up_read, w1))"
| "up_step P migs (up_read, w) =
     (case appliedSet w of
        (Inl e, w1) \<Rightarrow> (up_done ([], Some e), w1)
      | (Inr applied, w1) \<Rightarrow> (up_loop applied migs [], w1))"
| "up_step P migs (up_loop applied [] acc, w) = (up_done (acc, None), w)"
| "up_step P migs (up_loop applied (m # ms) acc, w) =
     (if mg_Version m \<in> applied then (up_loop applied ms acc, w)
      else case runScript P (wrapTx (mg_Up m) (insert_row m)) w of
        (Inl e, w1) \<Rightarrow> (up_done (acc, Some (mig_applying (mg_Version m) (mg_Name m) e)), w1)
      | (Inr _, w1) \<Rightarrow> (up_loop applied ms (acc @ [mg_Version m]), w1))"
| "up_step P migs (up_done p, w) = (up_done p, w)"

lemma up_done_stays: "(up_step P migs ^^ n) (up_done p, w) = (up_done p, w)"
  by (induction n) simp_all

lemma up_loop_runs:
  "(up_step P migs ^^ Suc (length ms)) (up_loop applied ms acc, w) =
    (case apply_pending P applied ms acc w of (p, w') \<Rightarrow> (up_done p, w'))"
proof (induction ms arbitrary: acc w)
  case (Cons m ms)
  then show ?case
    by (simp add: funpow_swap1 up_done_stays del: funpow.simps(2) split: prod.split sum.split)
      (simp add: funpow_Suc_right up_done_stays del: funpow.simps(2) split: prod.split sum.split)
qed simp

text \<open>A process left alone does what \<open>Up\<close> does, and returns within three steps more than there are
  migrations.\<close>

theorem up_steps_are_up:
  fixes w :: "('s, 'a) mig_db_scheme"
  shows "(up_step P migs ^^ (length migs + 3)) (up_start, w) = (case Up P migs w of (p, w') \<Rightarrow> (up_done p, w'))"
proof -
  have loop: "(up_step P migs ^^ length migs) (up_step P migs (up_loop applied migs [], v)) =
      (case apply_pending P applied migs [] v of (p, v') \<Rightarrow> (up_done p, v'))" for applied and v :: "('s, 'a) mig_db_scheme"
    using up_loop_runs [where P = P and migs = migs and ms = migs and applied = applied and acc = "[]" and w = v]
    by (simp add: funpow_Suc_right del: funpow.simps(2))
  show ?thesis
    by (simp add: numeral_eq_Suc funpow_Suc_right up_done_stays Up_def loop del: funpow.simps(2) split: sum.split)
      (simp add: loop up_done_stays split: prod.split sum.split)
qed

text \<open>Whatever the others do to the database in between, a process returns within as many steps of its own.\<close>

fun up_rank :: "Migration list \<Rightarrow> up_phase \<Rightarrow> nat" where
  "up_rank migs up_start = length migs + 3"
| "up_rank migs up_read = length migs + 2"
| "up_rank migs (up_loop applied ms acc) = length ms + 1"
| "up_rank migs (up_done p) = 0"

lemma up_step_rank: "up_rank migs ph \<noteq> 0 \<Longrightarrow> up_rank migs (fst (up_step P migs (ph, w))) < up_rank migs ph"
  by (cases "(P, migs, (ph, w))" rule: up_step.cases) (auto split: prod.split sum.split)

section \<open>The processes together\<close>

text \<open>The processes and the database they share; \<open>replicas\<close> relates a state to those it can get to.\<close>

inductive replicas :: "'s postgres \<Rightarrow> Migration list \<Rightarrow> up_phase list \<times> ('s, 'a) mig_db_scheme
    \<Rightarrow> up_phase list \<times> ('s, 'a) mig_db_scheme \<Rightarrow> bool" for P migs c where
  replicas_start: "replicas P migs c c"
| replicas_step: "replicas P migs c (ps, w) \<Longrightarrow> i < length ps \<Longrightarrow> up_step P migs (ps ! i, w) = (ph, w') \<Longrightarrow>
    replicas P migs c (ps[i := ph], w')"

text \<open>The first \<open>n\<close> of the migrations that were pending in \<open>w0\<close> have taken effect, and nothing else has.\<close>

definition at_migration :: "(string \<Rightarrow> 's \<Rightarrow> (pgerr, 's) result) \<Rightarrow> Migration list \<Rightarrow> ('s, 'a) mig_db_scheme
    \<Rightarrow> nat \<Rightarrow> ('s, 'a) mig_db_scheme \<Rightarrow> bool" where
  "at_migration eff pend w0 n w \<longleftrightarrow> n \<le> length pend \<and>
     recorded_rows w = recorded_rows w0 @ map row_of (take n pend) \<and>
     replay eff (take n pend) (mig_schema w0) = Some (mig_schema w)"

text \<open>What is left to a process in the loop is what was pending from some point on that is behind it.\<close>

definition todo :: "string set \<Rightarrow> Migration list \<Rightarrow> Migration list" where
  "todo applied ms = filter (\<lambda>m. mg_Version m \<notin> applied) ms"

fun phase_ok :: "Migration list \<Rightarrow> nat \<Rightarrow> bool \<Rightarrow> up_phase \<Rightarrow> bool" where
  "phase_ok pend n table up_start \<longleftrightarrow> True"
| "phase_ok pend n table up_read \<longleftrightarrow> table"
| "phase_ok pend n table (up_loop applied ms acc) \<longleftrightarrow> table \<and> (\<exists>k \<le> n. todo applied ms = drop k pend)"
| "phase_ok pend n table (up_done p) \<longleftrightarrow> snd p = None \<longrightarrow> n = length pend"

text \<open>A process that nobody has overtaken.\<close>

fun leads :: "Migration list \<Rightarrow> nat \<Rightarrow> up_phase \<Rightarrow> bool" where
  "leads pend n (up_loop applied ms acc) \<longleftrightarrow> todo applied ms = drop n pend"
| "leads pend n (up_done p) \<longleftrightarrow> snd p = None"
| "leads pend n _ \<longleftrightarrow> True"

lemma phase_ok_later:
  "phase_ok pend n t ph \<Longrightarrow> n \<le> n' \<Longrightarrow> n' \<le> length pend \<Longrightarrow> (t \<Longrightarrow> t') \<Longrightarrow> phase_ok pend n' t' ph"
  by (cases ph) (auto intro: order_trans)

lemma todo_simps [simp]:
  "todo applied [] = []"
  "todo applied (m # ms) = (if mg_Version m \<in> applied then todo applied ms else m # todo applied ms)"
  by (simp_all add: todo_def)

text \<open>A script whose version is on record already: it fails and changes nothing.\<close>

lemma runScript_conflict:
  assumes "script_law P eff migs" "m \<in> set migs" "mig_rows w = Some rs" "mg_Version m \<in> fst ` set rs"
    "runScript P (wrapTx (mg_Up m) (insert_row m)) w = (x, w')"
  shows "x \<noteq> Inr () \<and> on_boundary w' = on_boundary w"
  using assms(5)
proof (cases rule: runScript_cases)
  case (run e)
  moreover obtain y where "pg_script P (wrapTx (mg_Up m) (insert_row m)) (on_boundary w) = (Some y, on_boundary w)"
    using assms(1-4) by (cases "eff (trim_body (mg_Up m)) (mig_schema w)") (auto simp: script_law_def on_boundary_def)
  ultimately show ?thesis by auto
qed simp

lemma at_migration_boundary:
  "at_migration eff pend w0 n w \<Longrightarrow> recorded_rows w' = recorded_rows w \<Longrightarrow> mig_schema w' = mig_schema w \<Longrightarrow>
    at_migration eff pend w0 n w'"
  by (simp add: at_migration_def)

lemma drop_pending:
  assumes "distinct (map mg_Version migs)" "at_migration eff (pending migs w0) w0 n w"
  shows "todo (fst ` set (recorded_rows w)) migs = drop n (pending migs w0)"
proof -
  let ?pend = "pending migs w0"
  have d: "distinct (map mg_Version (take n ?pend @ drop n ?pend))"
    unfolding append_take_drop_id using assms(1) by (simp add: pending_def distinct_map_filter)
  have "todo (fst ` set (recorded_rows w)) migs = pending migs w" by (simp add: todo_def pending_def)
  also have "\<dots> = filter (\<lambda>m. mg_Version m \<notin> mg_Version ` set (take n ?pend)) ?pend"
    using assms(2) by (intro pending_after) (simp add: at_migration_def)
  also have "\<dots> = filter (\<lambda>m. mg_Version m \<notin> mg_Version ` set (take n ?pend)) (take n ?pend @ drop n ?pend)"
    by simp
  also have "\<dots> = drop n ?pend"
    using d by (auto simp: filter_empty_conv filter_id_conv simp del: append_take_drop_id)
  finally show ?thesis .
qed

text \<open>
  One step of one process: the database moves on by at most one migration; the process is all
  right where it gets to; a process that led leads still, if nothing fails, and one that moves the database leads.
\<close>

lemma ensureBookkeeping_keeps:
  fixes w :: "('s, 'a) mig_db_scheme"
  shows "recorded_rows (snd (ensureBookkeeping w)) = recorded_rows w" "mig_schema (snd (ensureBookkeeping w)) = mig_schema w"
    "mig_rows w \<noteq> None \<Longrightarrow> mig_rows (snd (ensureBookkeeping w)) \<noteq> None"
  by (cases "bookkeepingDDL :: ('s, 'a) mig_db_scheme \<Rightarrow> _" w rule: pg_exec_cases;
      auto simp: ensureBookkeeping_def bookkeepingDDL_def recorded_rows_def split: option.splits)+

lemma ensureBookkeeping_ok: "ensureBookkeeping w = (Inr (), w') \<Longrightarrow> mig_rows w' \<noteq> None"
  by (cases rule: ensureBookkeeping_cases [of w]) auto

lemma appliedSet_steps:
  assumes "mig_rows w \<noteq> None" "appliedSet w = (x, w')"
  shows "on_boundary w' = on_boundary w" "x = Inr a \<Longrightarrow> a = fst ` set (recorded_rows w)" "healthy w \<Longrightarrow> \<exists>a. x = Inr a \<and> w' = w"
proof -
  obtain rs where rs: "mig_rows w = Some rs" using assms(1) by auto
  obtain y w1 where av: "appliedVersions w = (y, w1)" by fastforce
  note r = appliedVersions_result [OF rs av]
  have x: "w' = w1" "x = (case y of Inl e \<Rightarrow> Inl e | Inr vs \<Rightarrow> Inr (set vs))"
    using assms(2) by (auto simp: appliedSet_def av split: sum.splits)
  show "on_boundary w' = on_boundary w" using r(1) x(1) by simp
  show "x = Inr a \<Longrightarrow> a = fst ` set (recorded_rows w)"
    using r(2) x(2) by (cases y) (simp_all add: recorded_rows_def rs)
  show "healthy w \<Longrightarrow> \<exists>a. x = Inr a \<and> w' = w"
    using av x by (auto simp: healthy_def run_healthy rs)
qed

lemma on_boundary_at: "on_boundary w' = on_boundary w \<Longrightarrow> at_migration eff pend w0 n w \<Longrightarrow>
    at_migration eff pend w0 n w' \<and> (mig_rows w' \<noteq> None \<longleftrightarrow> mig_rows w \<noteq> None)"
  by (auto simp: on_boundary_def at_migration_def recorded_rows_def)

text \<open>
  One step of one process. The database moves on by at most one migration. Wherever the process gets
  to is all right; when nothing fails, it is a process that leads if it did, or if it moved the database.
\<close>

definition step_ok :: "(string \<Rightarrow> 's \<Rightarrow> (pgerr, 's) result) \<Rightarrow> Migration list \<Rightarrow> ('s, 'a) mig_db_scheme \<Rightarrow> nat
    \<Rightarrow> up_phase \<times> ('s, 'a) mig_db_scheme \<Rightarrow> up_phase \<times> ('s, 'a) mig_db_scheme \<Rightarrow> bool" where
  "step_ok eff pend w0 n c c' \<longleftrightarrow> (\<exists>n'. n \<le> n' \<and> at_migration eff pend w0 n' (snd c') \<and>
     (mig_rows (snd c) \<noteq> None \<longrightarrow> mig_rows (snd c') \<noteq> None) \<and> phase_ok pend n' (mig_rows (snd c') \<noteq> None) (fst c') \<and>
     (healthy (snd c) \<longrightarrow> replay eff pend (mig_schema w0) \<noteq> None \<longrightarrow> healthy (snd c') \<and>
        (leads pend n (fst c) \<or> n' \<noteq> n \<longrightarrow> leads pend n' (fst c'))))"

lemma step_okI:
  assumes "at_migration eff pend w0 n' w'" "n \<le> n'" "mig_rows w \<noteq> None \<Longrightarrow> mig_rows w' \<noteq> None"
    "phase_ok pend n' (mig_rows w' \<noteq> None) ph'"
    "healthy w \<Longrightarrow> replay eff pend (mig_schema w0) \<noteq> None \<Longrightarrow> healthy w'"
    "healthy w \<Longrightarrow> replay eff pend (mig_schema w0) \<noteq> None \<Longrightarrow> leads pend n ph \<or> n' \<noteq> n \<Longrightarrow> leads pend n' ph'"
  shows "step_ok eff pend w0 n (ph, w) (ph', w')"
  using assms by (auto simp: step_ok_def)

lemma up_step_start:
  assumes "at_migration eff pend w0 n w" "up_step P migs (up_start, w) = (ph', w')"
  shows "step_ok eff pend w0 n (up_start, w) (ph', w')"
proof -
  obtain x w1 where e: "ensureBookkeeping w = (x, w1)" by fastforce
  have c: "w' = w1" "ph' = (case x of Inl e \<Rightarrow> up_done ([], Some e) | Inr _ \<Rightarrow> up_read)"
    using assms(2) by (auto simp: e split: sum.splits)
  note k = ensureBookkeeping_keeps [of w, unfolded e snd_conv]
  have h: "x = Inr () \<and> healthy w1" if "healthy w"
    using that e by (auto simp: healthy_def run_healthy)
  show ?thesis
  proof (rule step_okI)
    show "at_migration eff pend w0 n w'" using assms(1) k(1,2) c(1) by (simp add: at_migration_def)
    show "phase_ok pend n (mig_rows w' \<noteq> None) ph'"
      using ensureBookkeeping_ok e c by (cases x) auto
  qed (use k(3) h c in auto)
qed

lemma up_step_read:
  assumes "distinct (map mg_Version migs)" "at_migration eff (pending migs w0) w0 n w" "mig_rows w \<noteq> None"
    "up_step P migs (up_read, w) = (ph', w')"
  shows "step_ok eff (pending migs w0) w0 n (up_read, w) (ph', w')"
proof -
  obtain x w1 where e: "appliedSet w = (x, w1)" by fastforce
  have c: "w' = w1" "ph' = (case x of Inl e \<Rightarrow> up_done ([], Some e) | Inr a \<Rightarrow> up_loop a migs [])"
    using assms(4) by (auto simp: e split: sum.splits)
  note k = appliedSet_steps [OF assms(3) e] and b = on_boundary_at [OF appliedSet_steps(1) [OF assms(3) e] assms(2)]
  have t: "todo a migs = drop n (pending migs w0)" if "x = Inr a" for a
    using drop_pending [OF assms(1,2)] k(2) [OF that] by simp
  show ?thesis
  proof (rule step_okI)
    show "at_migration eff (pending migs w0) w0 n w'" using b c(1) by simp
    show "phase_ok (pending migs w0) n (mig_rows w' \<noteq> None) ph'"
      using t b assms(3) c by (cases x) auto
    show "leads (pending migs w0) n ph'" if h: "healthy w"
    proof -
      obtain a where "x = Inr a" using k(3) [OF h] by (elim exE conjE)
      then show ?thesis using t c(2) by simp
    qed
    show "healthy w'" if h: "healthy w" using k(3) [OF h] h c(1) by auto
  qed (use b assms(3) c(1) in simp_all)
qed

lemma nth_pending:
  assumes "distinct (map mg_Version migs)" "at_migration eff (pending migs w0) w0 n w" "drop k (pending migs w0) = m # ms"
  shows "m \<in> set migs" "k < n \<Longrightarrow> mg_Version m \<in> fst ` set (recorded_rows w)"
    "k = n \<Longrightarrow> mg_Version m \<notin> fst ` set (recorded_rows w)" "k = n \<Longrightarrow> take (Suc n) (pending migs w0) = take n (pending migs w0) @ [m]"
    "k < length (pending migs w0)" "ms = drop (Suc k) (pending migs w0)"
proof -
  let ?pend = "pending migs w0"
  show k: "k < length ?pend" using assms(3) by (metis drop_all list.distinct(1) not_le_imp_less)
  then have m: "m = ?pend ! k" "ms = drop (Suc k) ?pend" using assms(3) Cons_nth_drop_Suc [of k ?pend] by simp_all
  then show "ms = drop (Suc k) ?pend" by simp
  have "m \<in> set ?pend" using m(1) k by simp
  then show "m \<in> set migs" by (simp add: pending_def)
  have r: "recorded_rows w = recorded_rows w0 @ map row_of (take n ?pend)" using assms(2) by (simp add: at_migration_def)
  show "mg_Version m \<in> fst ` set (recorded_rows w)" if "k < n"
  proof -
    have "m \<in> set (take n ?pend)" using that k m(1) by (auto simp: in_set_conv_nth intro!: exI [of _ k])
    then have "mg_Version m \<in> mg_Version ` set (take n ?pend)" by (rule imageI)
    then show ?thesis by (simp add: r image_Un image_image row_of_def)
  qed
  show "mg_Version m \<notin> fst ` set (recorded_rows w)" if "k = n"
  proof -
    have "m \<in> set (todo (fst ` set (recorded_rows w)) migs)"
      using drop_pending [OF assms(1,2)] assms(3) that by simp
    then show ?thesis by (simp add: todo_def)
  qed
  show "take (Suc n) ?pend = take n ?pend @ [m]" if "k = n"
    using that k m(1) by (simp add: take_Suc_conv_app_nth)
qed

lemma at_migration_Suc:
  assumes "at_migration eff pend w0 n w" "take (Suc n) pend = take n pend @ [m]" "n < length pend"
    "eff (trim_body (mg_Up m)) (mig_schema w) = Inr (mig_schema w')" "mig_rows w' = Some (recorded_rows w @ [row_of m])"
  shows "at_migration eff pend w0 (Suc n) w'"
  using assms by (simp add: at_migration_def recorded_rows_def [of w'] replay_append)

lemma eff_succeeds:
  assumes "at_migration eff pend w0 n w" "take (Suc n) pend = take n pend @ [m]" "replay eff pend (mig_schema w0) \<noteq> None"
  obtains s where "eff (trim_body (mg_Up m)) (mig_schema w) = Inr s"
proof -
  have "pend = take n pend @ [m] @ drop (Suc n) pend"
    using append_take_drop_id [of "Suc n" pend] unfolding assms(2) by simp
  then have "replay eff (take n pend @ [m] @ drop (Suc n) pend) (mig_schema w0) \<noteq> None" using assms(3) by simp
  then show thesis
    using assms(1) that by (cases "eff (trim_body (mg_Up m)) (mig_schema w)") (simp_all add: replay_append at_migration_def)
qed

lemma up_step_script:
  assumes law: "script_law P eff migs" and d: "distinct (map mg_Version migs)"
    and at: "at_migration eff (pending migs w0) w0 n w" and rows: "mig_rows w \<noteq> None"
    and k: "k \<le> n" "todo applied (m # ms) = drop k (pending migs w0)" and new: "mg_Version m \<notin> applied"
    and st: "up_step P migs (up_loop applied (m # ms) acc, w) = (ph', w')"
  shows "step_ok eff (pending migs w0) w0 n (up_loop applied (m # ms) acc, w) (ph', w')"
proof -
  let ?pend = "pending migs w0"
  have dr: "drop k ?pend = m # todo applied ms" using k(2) new by simp
  note nth = nth_pending [OF d at dr]
  have rs: "mig_rows w = Some (recorded_rows w)" using rows by (auto simp: recorded_rows_def)
  obtain x w1 where r: "runScript P (wrapTx (mg_Up m) (insert_row m)) w = (x, w1)" by fastforce
  have c: "w' = w1" "ph' = (case x of Inl e \<Rightarrow> up_done (acc, Some (mig_applying (mg_Version m) (mg_Name m) e))
      | Inr _ \<Rightarrow> up_loop applied ms (acc @ [mg_Version m]))"
    using st new r by (auto split: sum.splits)
  have h: "healthy w'" if "healthy w" using runScript_healthy [OF that] r c(1) by (metis snd_conv)
  have stays: "step_ok eff ?pend w0 n (up_loop applied (m # ms) acc, w) (ph', w')"
    if b: "x \<noteq> Inr ()" "on_boundary w' = on_boundary w"
      and nl: "healthy w \<Longrightarrow> replay eff ?pend (mig_schema w0) \<noteq> None \<Longrightarrow> \<not> leads ?pend n (up_loop applied (m # ms) acc)"
  proof (rule step_okI)
    show "at_migration eff ?pend w0 n w'" using on_boundary_at [OF b(2) at] by simp
    show "phase_ok ?pend n (mig_rows w' \<noteq> None) ph'" using b(1) c(2) by (cases x) auto
    show "leads ?pend n ph'" if "healthy w" "replay eff ?pend (mig_schema w0) \<noteq> None"
        "leads ?pend n (up_loop applied (m # ms) acc) \<or> n \<noteq> n"
      using nl [OF that(1,2)] that(3) by simp
  qed (use h b(2) rows in \<open>auto simp: on_boundary_def\<close>)
  show ?thesis
  proof (cases "k < n")
    case True
    have "x \<noteq> Inr () \<and> on_boundary w1 = on_boundary w"
      by (rule runScript_conflict [OF law nth(1) rs nth(2) [OF True] r])
    moreover have "\<not> leads ?pend n (up_loop applied (m # ms) acc)"
    proof
      assume "leads ?pend n (up_loop applied (m # ms) acc)"
      then have "drop n ?pend = drop k ?pend" using k(2) by simp
      then have "length ?pend - n = length ?pend - k" by (metis length_drop)
      moreover have "n \<le> length ?pend" using at by (simp add: at_migration_def)
      ultimately show False using True by linarith
    qed
    ultimately show ?thesis using stays c(1) by blast
  next
    case False
    then have kn: "k = n" using k(1) by simp
    note fresh = nth(3) [OF kn] and ext = nth(4) [OF kn]
    from runScript_up [OF law nth(1) rs fresh r] show ?thesis
    proof
      assume "\<exists>s'. eff (trim_body (mg_Up m)) (mig_schema w) = Inr s' \<and> mig_schema w1 = s' \<and> mig_rows w1 = Some (recorded_rows w @ [row_of m])"
      then have e: "eff (trim_body (mg_Up m)) (mig_schema w) = Inr (mig_schema w')" "mig_rows w' = Some (recorded_rows w @ [row_of m])"
        using c(1) by auto
      show ?thesis
      proof (rule step_okI)
        show "at_migration eff ?pend w0 (Suc n) w'" by (rule at_migration_Suc [OF at ext _ e]) (use nth(5) kn in simp)
        show "phase_ok ?pend (Suc n) (mig_rows w' \<noteq> None) ph'"
          using c(2) e(2) nth(6) kn by (cases x) auto
        show "leads ?pend (Suc n) ph'" if "healthy w"
          using runScript_up_healthy [where P = P, OF law nth(1) rs fresh e(1) that] r c(2) nth(6) kn by simp
      qed (use h e(2) in simp_all)
    next
      assume b: "x \<noteq> Inr () \<and> on_boundary w1 = on_boundary w"
      show ?thesis
      proof (rule stays)
        show "x \<noteq> Inr ()" "on_boundary w' = on_boundary w" using b c(1) by simp_all
        assume hw: "healthy w" and rp: "replay eff ?pend (mig_schema w0) \<noteq> None"
        obtain s where "eff (trim_body (mg_Up m)) (mig_schema w) = Inr s" using eff_succeeds [OF at ext rp] .
        then have "x = Inr ()" using runScript_up_healthy [where P = P, OF law nth(1) rs fresh _ hw] r by simp
        then show "\<not> leads ?pend n (up_loop applied (m # ms) acc)" using b by simp
      qed
    qed
  qed
qed

lemma up_step_ok:
  assumes law: "script_law P eff migs" and d: "distinct (map mg_Version migs)"
    and at: "at_migration eff (pending migs w0) w0 n w" and ok: "phase_ok (pending migs w0) n (mig_rows w \<noteq> None) ph"
    and st: "up_step P migs (ph, w) = (ph', w')"
  shows "step_ok eff (pending migs w0) w0 n (ph, w) (ph', w')"
proof (cases ph)
  case up_start
  then show ?thesis using up_step_start [OF at] st by simp
next
  case up_read
  then show ?thesis using up_step_read [OF d at] st ok by simp
next
  case (up_loop applied ms acc)
  then obtain k where k: "mig_rows w \<noteq> None" "k \<le> n" "todo applied ms = drop k (pending migs w0)" using ok by auto
  show ?thesis
  proof (cases ms)
    case Nil
    then have "n = length (pending migs w0)" using k(2,3) at by (simp add: at_migration_def)
    then show ?thesis using st at Nil up_loop by (intro step_okI) auto
  next
    case (Cons m ms')
    show ?thesis
    proof (cases "mg_Version m \<in> applied")
      case True
      then show ?thesis using st at Cons up_loop k by (intro step_okI) auto
    next
      case False
      show ?thesis
        using up_step_script [OF law d at k(1,2) _ False] k(3) st unfolding up_loop Cons by simp
    qed
  qed
next
  case (up_done p)
  then show ?thesis using st at ok by (intro step_okI) auto
qed

section \<open>The invariant\<close>

definition replicas_inv :: "(string \<Rightarrow> 's \<Rightarrow> (pgerr, 's) result) \<Rightarrow> Migration list \<Rightarrow> ('s, 'a) mig_db_scheme
    \<Rightarrow> up_phase list \<times> ('s, 'a) mig_db_scheme \<Rightarrow> bool" where
  "replicas_inv eff pend w0 c \<longleftrightarrow> (\<exists>n. at_migration eff pend w0 n (snd c) \<and>
     (\<forall>ph \<in> set (fst c). phase_ok pend n (mig_rows (snd c) \<noteq> None) ph) \<and>
     (healthy w0 \<longrightarrow> replay eff pend (mig_schema w0) \<noteq> None \<longrightarrow> healthy (snd c) \<and> (\<exists>ph \<in> set (fst c). leads pend n ph)))"

lemma replicas_inv_start: "replicas_inv eff (pending migs w) w (replicate (Suc r) up_start, w)"
proof -
  have "at_migration eff (pending migs w) w 0 w" by (simp add: at_migration_def)
  moreover have "\<forall>ph \<in> set (replicate (Suc r) up_start). ph = up_start" by auto
  ultimately show ?thesis unfolding replicas_inv_def by (intro exI [of _ 0]) auto
qed

lemma replicas_inv_step:
  assumes law: "script_law P eff migs" and d: "distinct (map mg_Version migs)"
    and inv: "replicas_inv eff (pending migs w0) w0 (ps, w)" and i: "i < length ps"
    and st: "up_step P migs (ps ! i, w) = (ph', w')"
  shows "replicas_inv eff (pending migs w0) w0 (ps[i := ph'], w')"
proof -
  let ?pend = "pending migs w0"
  let ?fine = "healthy w0 \<and> replay eff ?pend (mig_schema w0) \<noteq> None"
  from inv obtain n where n: "at_migration eff ?pend w0 n w" "\<forall>ph \<in> set ps. phase_ok ?pend n (mig_rows w \<noteq> None) ph"
    "?fine \<Longrightarrow> healthy w" "?fine \<Longrightarrow> \<exists>ph \<in> set ps. leads ?pend n ph"
    unfolding replicas_inv_def by auto
  have "phase_ok ?pend n (mig_rows w \<noteq> None) (ps ! i)" using n(2) i by simp
  from up_step_ok [OF law d n(1) this st] obtain n' where n': "n \<le> n'" "at_migration eff ?pend w0 n' w'"
    "mig_rows w \<noteq> None \<longrightarrow> mig_rows w' \<noteq> None" "phase_ok ?pend n' (mig_rows w' \<noteq> None) ph'"
    "healthy w \<and> replay eff ?pend (mig_schema w0) \<noteq> None \<Longrightarrow> healthy w'"
    "healthy w \<and> replay eff ?pend (mig_schema w0) \<noteq> None \<Longrightarrow> leads ?pend n (ps ! i) \<or> n' \<noteq> n \<Longrightarrow> leads ?pend n' ph'"
    unfolding step_ok_def by auto
  have "phase_ok ?pend n' (mig_rows w' \<noteq> None) ph" if "ph \<in> set (ps[i := ph'])" for ph
  proof -
    from that have "ph = ph' \<or> ph \<in> set ps" using set_update_subset_insert [of ps i ph'] by auto
    then show ?thesis
    proof
      assume "ph \<in> set ps"
      with n(2) have "phase_ok ?pend n (mig_rows w \<noteq> None) ph" by simp
      then show ?thesis by (rule phase_ok_later) (use n' in \<open>auto simp: at_migration_def\<close>)
    qed (use n'(4) in simp)
  qed
  moreover have "\<exists>ph \<in> set (ps[i := ph']). leads ?pend n' ph" if f: ?fine
  proof (cases "leads ?pend n (ps ! i) \<or> n' \<noteq> n")
    case True
    then have "leads ?pend n' ph'" using n'(6) n(3) f by simp
    then show ?thesis using set_update_memI [OF i] by blast
  next
    case False
    obtain j where j: "j < length ps" "leads ?pend n (ps ! j)" using n(4) [OF f] by (auto simp: in_set_conv_nth)
    then have "j \<noteq> i" using False by blast
    then have "ps ! j \<in> set (ps[i := ph'])" using j(1) by (metis length_list_update nth_list_update_neq nth_mem)
    then show ?thesis using j(2) False by auto
  qed
  ultimately show ?thesis using n'(2,5) n(3) unfolding replicas_inv_def by auto
qed

lemma replicas_reach:
  assumes "script_law P eff migs" "distinct (map mg_Version migs)" "replicas P migs c c'"
    and "replicas_inv eff (pending migs w0) w0 c"
  shows "replicas_inv eff (pending migs w0) w0 c'"
  using assms(3,4) by induction (auto intro: replicas_inv_step [OF assms(1,2)])

section \<open>What a group of processes does\<close>

lemma at_migration_all:
  assumes "at_migration eff (pending migs w0) w0 (length (pending migs w0)) w"
  shows "pending migs w = []"
  using pending_after [of w w0 "pending migs w0" migs] assms by (simp add: at_migration_def filter_empty_conv)

text \<open>C12: however many processes run \<open>Up\<close> on a database at once, and wherever each of them is stopped,
  the database is on the boundary between two migrations: a prefix of those that were pending has taken effect, each
  once and in order, with their rows. When one has returned without an error, all of them have.\<close>

theorem replicas_stay_on_boundary:
  assumes "script_law P eff migs" "distinct (map mg_Version migs)"
    and "replicas P migs (replicate (Suc r) up_start, w0) (ps, w)"
  shows "\<exists>n. at_migration eff (pending migs w0) w0 n w \<and> (up_done (vs, None) \<in> set ps \<longrightarrow> pending migs w = [])"
proof -
  have "replicas_inv eff (pending migs w0) w0 (ps, w)"
    by (rule replicas_reach [OF assms replicas_inv_start])
  then obtain n where n: "at_migration eff (pending migs w0) w0 n w" "\<forall>ph \<in> set ps. phase_ok (pending migs w0) n (mig_rows w \<noteq> None) ph"
    unfolding replicas_inv_def by auto
  have "pending migs w = []" if "up_done (vs, None) \<in> set ps"
    using n(2) [THEN bspec, OF that] n(1) by (intro at_migration_all) simp
  then show ?thesis using n(1) by blast
qed

text \<open>C27: one of them gets through: when no round trip fails and the pending migrations apply one after the
  other, and all processes have returned, one has returned without an error and nothing is pending. That they
  all return, each within \<open>length migs + 3\<close> steps of its own, is \<open>up_step_rank\<close>.\<close>

theorem replicas_one_finishes:
  assumes "script_law P eff migs" "distinct (map mg_Version migs)"
    and "replicas P migs (replicate (Suc r) up_start, w0) (ps, w)"
    and "healthy w0" "replay eff (pending migs w0) (mig_schema w0) \<noteq> None" "list_all (\<lambda>ph. \<exists>p. ph = up_done p) ps"
  shows "(\<exists>vs. up_done (vs, None) \<in> set ps) \<and> pending migs w = []"
proof -
  have "replicas_inv eff (pending migs w0) w0 (ps, w)"
    by (rule replicas_reach [OF assms(1-3) replicas_inv_start])
  then obtain n ph where n: "at_migration eff (pending migs w0) w0 n w" "\<forall>ph \<in> set ps. phase_ok (pending migs w0) n (mig_rows w \<noteq> None) ph"
    "ph \<in> set ps" "leads (pending migs w0) n ph"
    using assms(4,5) unfolding replicas_inv_def by auto
  from assms(6) n(3) obtain p where "ph = up_done p" by (auto simp: list_all_iff)
  with n(4) have p: "up_done (fst p, None) = ph" by (cases p) simp
  then have "pending migs w = []"
    using n(2) [THEN bspec, OF n(3)] n(1) by (intro at_migration_all) auto
  then show ?thesis using p n(3) by metis
qed

section \<open>A race\<close>

text \<open>Two processes that have both read the table before either has applied its one migration.\<close>

definition race_world :: "int mig_db" where
  "race_world = count_world\<lparr>mig_rows := Some []\<rparr>"

definition race_won :: up_phase where "race_won = up_done ([''20260606000001''], None)"

definition race_lost :: up_phase where
  "race_lost = up_done ([], Some (mig_applying ''20260606000001'' ''init'' (mig_script unique_violation)))"

lemma race_reads:
  "up_step count_pg [plus_one] (up_start, count_world) = (up_read, race_world)"
  "up_step count_pg [plus_one] (up_start, race_world) = (up_read, race_world)"
  "up_step count_pg [plus_one] (up_read, race_world) = (up_loop {} [plus_one] [], race_world)"
  by (simp_all add: run_healthy count_world_facts race_world_def recorded_rows_def appliedSet_def)

lemma race_scripts:
  "up_step count_pg [plus_one] (up_loop {} [plus_one] [], race_world) = (up_loop {} [] [''20260606000001''], count_done)"
  "up_step count_pg [plus_one] (up_loop {} [] [''20260606000001''], count_done) = (race_won, count_done)"
  "up_step count_pg [plus_one] (up_loop {} [plus_one] [], count_done) = (race_lost, count_done)"
proof -
  have v: "mg_Version plus_one = ''20260606000001''" "mg_Name plus_one = ''init''" by (simp_all add: plus_one_def)
  show "up_step count_pg [plus_one] (up_loop {} [plus_one] [], race_world) = (up_loop {} [] [''20260606000001''], count_done)"
    by (simp add: run_healthy count_world_facts race_world_def count_done_def count_scripts) (simp add: v)
  show "up_step count_pg [plus_one] (up_loop {} [plus_one] [], count_done) = (race_lost, count_done)"
    by (simp add: run_healthy count_world_facts count_done_def count_scripts row_of_def) (simp add: v race_lost_def)
qed (simp add: race_won_def)

lemma race_reached:
  "replicas count_pg [plus_one] (replicate (Suc 1) up_start, count_world) ([race_won, race_lost], count_done)"
proof -
  let ?R = "replicas count_pg [plus_one] (replicate (Suc 1) up_start, count_world)"
  note go = replicas_step [where P = count_pg and migs = "[plus_one]" and c = "(replicate (Suc 1) up_start, count_world)"]
  have "?R ([up_start, up_start], count_world)" using replicas_start [of count_pg "[plus_one]" "([up_start, up_start], count_world)"] by (simp add: numeral_2_eq_2)
  then have "?R ([up_read, up_start], race_world)" using go [of "[up_start, up_start]" _ 0] race_reads(1) by fastforce
  then have "?R ([up_read, up_read], race_world)" using go [of "[up_read, up_start]" _ 1] race_reads(2) by fastforce
  then have "?R ([up_loop {} [plus_one] [], up_read], race_world)" using go [of "[up_read, up_read]" _ 0] race_reads(3) by fastforce
  then have "?R ([up_loop {} [plus_one] [], up_loop {} [plus_one] []], race_world)" using go [of "[up_loop {} [plus_one] [], up_read]" _ 1] race_reads(3) by fastforce
  then have "?R ([up_loop {} [] [''20260606000001''], up_loop {} [plus_one] []], count_done)" using go [of "[up_loop {} [plus_one] [], up_loop {} [plus_one] []]" _ 0] race_scripts(1) by fastforce
  then have "?R ([up_loop {} [] [''20260606000001''], race_lost], count_done)" using go [of "[up_loop {} [] [''20260606000001''], up_loop {} [plus_one] []]" _ 1] race_scripts(3) by fastforce
  then show ?thesis using go [of "[up_loop {} [] [''20260606000001''], race_lost]" _ 0] race_scripts(2) by fastforce
qed

theorem replicas_stay_on_boundary_witness: "pending [plus_one] count_done = []"
  using replicas_stay_on_boundary [OF count_law _ race_reached, of "[''20260606000001'']"] by (simp add: race_won_def)

theorem replicas_one_finishes_witness: "\<exists>vs. up_done (vs, None) \<in> set [race_won, race_lost]"
proof -
  have "pending [plus_one] count_world = [plus_one]" by (simp add: pending_def recorded_rows_def count_world_facts)
  then have "replay count_eff (pending [plus_one] count_world) (mig_schema count_world) \<noteq> None"
    by (simp add: count_eff_def count_bodies)
  then show ?thesis
    using replicas_one_finishes [OF count_law _ race_reached] by (simp add: healthy_def count_world_facts race_won_def race_lost_def)
qed

end
