(* ===== verification/Server.thy ===== *)
theory Server
  imports App Migrate Db_Pool
begin

text \<open>
  \<open>backend/cmd/server/main.go\<close>. \<open>run\<close> is a function up to the point where the listener is bound;
  from there on \<open>runServer\<close> is a step relation: its goroutine, the one that serves, the requests
  in flight, the signal and the grace timer interleave in any order.
\<close>

section \<open>run\<close>

datatype startup_error =
    su_bad_config "config_error list"
  | su_database db_error
  | su_migrations migrate_error
  | su_listen string

text \<open>
  What the process gets from outside: its environment, the libraries, the migrations of the
  binary, whether an address can be bound, and the text of a panic's stack.
\<close>

record ('s, 'l) launch =
  lx_getenv :: environ
  lx_frac :: "nat \<Rightarrow> nat \<Rightarrow> nat \<Rightarrow> nat"
  lx_pgx :: pgx
  lx_postgres :: "'s postgres"
  lx_fs :: fs
  lx_listen :: "string \<Rightarrow> bool"
  lx_rate :: "'l rate_lib"
  lx_auth :: auth_libs
  lx_stack :: string

text \<open>The arguments of \<open>runServer\<close>.\<close>

record 'h serving =
  sg_addr :: string
  sg_server :: "'h http_Server"
  sg_grace :: int
  sg_logger :: Logger

definition server_run :: "('s, 'l) launch \<Rightarrow> proc \<Rightarrow> ('s, 'a) mig_db_scheme
    \<Rightarrow> (startup_error, (ctx, ('l, 'b) app_scheme) handler serving) result \<times> proc \<times> ('s, 'a) mig_db_scheme" where
  "server_run x p w =
     (case Load (lx_frac x) (lx_getenv x) of
        Inl es \<Rightarrow> (Inl (su_bad_config es), p, w)
      | Inr cfg \<Rightarrow>
      (let logger = log_New cfg;
           w0 = LogAttrs logger LevelInfo ''starting'' [(''service'', LStr ''dab-ai-gateway''), (''version'', LStr version_String),
                  (''env'', LStr (cfg_Env cfg))] w
       in case db_New (lx_pgx x) None cfg p w0 of
        (Inl e, p1, w1) \<Rightarrow> (Inl (su_database e), p1, w1)
      | (Inr _, p1, w1) \<Rightarrow>
      (case (if cfg_AutoMigrate cfg then
               (case Migrate (lx_postgres x) (lx_fs x) w1 of
                  ((_, Some e), w2) \<Rightarrow> (Some e, w2)
                | ((applied, None), w2) \<Rightarrow>
                    (None, LogAttrs logger LevelInfo ''migrations applied'' [(''count'', LInt (int (length applied)))] w2))
             else (None, w1)) of
        (Some e, w2) \<Rightarrow> (Inl (su_migrations e), pool_Close p1, w2)
      | (None, w2) \<Rightarrow>
      (let addr = (if cfg_ListenAddr cfg = [] then '':8080'' else cfg_ListenAddr cfg)
       in if \<not> lx_listen x addr then (Inl (su_listen addr), pool_Close p1, w2)
          else (Inr \<lparr>sg_addr = addr, sg_server = server_New cfg (BuildHandler (lx_rate x) (lx_auth x) (lx_stack x) cfg logger),
                     sg_grace = cfg_ShutdownGrace cfg, sg_logger = logger\<rparr>, p1, w2)))))"

section \<open>runServer\<close>

datatype serve_error = ErrServerClosed | serve_failed

text \<open>What \<open>runServer\<close> returns: nil, the error of \<open>Serve\<close>, or that of \<open>Shutdown\<close> past its grace.\<close>

datatype exit_error = ExitNil | ExitServe | ExitGrace

text \<open>
  Where its goroutine is: in the \<open>select\<close>, in \<open>Shutdown\<close>, waiting for \<open>Serve\<close> to return, about to
  run the deferred close, returned.
\<close>

datatype point = Selecting | ShuttingDown | Awaiting exit_error | Returning exit_error | Exited exit_error

text \<open>
  The goroutine's place, the requests in flight, whether the listener accepts, what \<open>Serve\<close> has
  put into the channel, whether it has returned at all, the signal, the timer, how often the
  pool was closed and whether connections were cut.
\<close>

record srv =
  sv_pc :: point
  sv_inflight :: nat
  sv_accepting :: bool
  sv_chan :: "serve_error option"
  sv_served :: bool
  sv_signal :: bool
  sv_expired :: bool
  sv_closed :: nat
  sv_cut :: bool
  sv_log :: "(loglevel \<times> string) list"

definition srv_start :: srv where
  "srv_start = \<lparr>sv_pc = Selecting, sv_inflight = 0, sv_accepting = True, sv_chan = None, sv_served = False,
     sv_signal = False, sv_expired = False, sv_closed = 0, sv_cut = False, sv_log = [(LevelInfo, ''listening'')]\<rparr>"

definition srv_say :: "loglevel \<Rightarrow> string \<Rightarrow> srv \<Rightarrow> srv" where
  "srv_say l m s = s\<lparr>sv_log := sv_log s @ [(l, m)]\<rparr>"

text \<open>
  The world around it: requests come while the listener accepts and finish; the signal comes
  once; \<open>Serve\<close> fails by itself, or returns \<open>ErrServerClosed\<close> once shutdown has closed the
  listener; the grace passes.
\<close>

inductive world_step :: "srv \<Rightarrow> srv \<Rightarrow> bool" where
  accept: "sv_accepting s \<Longrightarrow> world_step s (s\<lparr>sv_inflight := Suc (sv_inflight s)\<rparr>)"
| finish: "sv_inflight s = Suc n \<Longrightarrow> world_step s (s\<lparr>sv_inflight := n\<rparr>)"
| signal: "\<not> sv_signal s \<Longrightarrow> world_step s (s\<lparr>sv_signal := True\<rparr>)"
| serve_fails: "sv_accepting s \<Longrightarrow> \<not> sv_served s \<Longrightarrow>
    world_step s (s\<lparr>sv_accepting := False, sv_served := True, sv_chan := Some serve_failed\<rparr>)"
| serve_closes: "\<not> sv_accepting s \<Longrightarrow> \<not> sv_served s \<Longrightarrow>
    world_step s (s\<lparr>sv_served := True, sv_chan := Some ErrServerClosed\<rparr>)"
| expires: "sv_pc s = ShuttingDown \<Longrightarrow> \<not> sv_expired s \<Longrightarrow> world_step s (s\<lparr>sv_expired := True\<rparr>)"

text \<open>
  The statements of \<open>runServer\<close>. \<open>Shutdown\<close> polls the connections: it may see the grace over before
  it has seen that the last request is gone.
\<close>

inductive runServer :: "srv \<Rightarrow> srv \<Rightarrow> bool" where
  select_serve: "sv_pc s = Selecting \<Longrightarrow> sv_chan s = Some e \<Longrightarrow>
    runServer s (s\<lparr>sv_chan := None, sv_pc := Returning (if e = ErrServerClosed then ExitNil else ExitServe)\<rparr>)"
| select_done: "sv_pc s = Selecting \<Longrightarrow> sv_signal s \<Longrightarrow>
    runServer s (srv_say LevelInfo ''shutdown signal received; draining in-flight requests''
      (s\<lparr>sv_pc := ShuttingDown, sv_accepting := False\<rparr>))"
| drained: "sv_pc s = ShuttingDown \<Longrightarrow> sv_inflight s = 0 \<Longrightarrow> runServer s (s\<lparr>sv_pc := Awaiting ExitNil\<rparr>)"
| grace_over: "sv_pc s = ShuttingDown \<Longrightarrow> sv_expired s \<Longrightarrow>
    runServer s (srv_say LevelError ''graceful shutdown exceeded grace; forcing close''
      (s\<lparr>sv_pc := Awaiting ExitGrace, sv_cut := True\<rparr>))"
| await: "sv_pc s = Awaiting r \<Longrightarrow> sv_chan s = Some e \<Longrightarrow>
    runServer s ((if r = ExitNil then srv_say LevelInfo ''shutdown complete'' else (\<lambda>s. s))
      (s\<lparr>sv_chan := None, sv_pc := Returning r\<rparr>))"
| close_pool: "sv_pc s = Returning r \<Longrightarrow> runServer s (s\<lparr>sv_closed := Suc (sv_closed s), sv_pc := Exited r\<rparr>)"

inductive srv_step :: "srv \<Rightarrow> srv \<Rightarrow> bool" where
  from_world: "world_step s t \<Longrightarrow> srv_step s t"
| from_server: "runServer s t \<Longrightarrow> srv_step s t"

inductive srv_reachable :: "srv \<Rightarrow> bool" where
  at_start: "srv_reachable srv_start"
| after_step: "srv_reachable s \<Longrightarrow> srv_step s t \<Longrightarrow> srv_reachable t"

inductive_cases world_stepE: "world_step s t"
inductive_cases runServerE: "runServer s t"
inductive_cases srv_stepE: "srv_step s t"

text \<open>\<open>main\<close>: zero after a clean shutdown, one after any error.\<close>

definition server_exit :: "startup_error option \<Rightarrow> exit_error \<Rightarrow> int" where
  "server_exit startup r = (case startup of Some _ \<Rightarrow> 1 | None \<Rightarrow> if r = ExitNil then 0 else 1)"

end
