(* ===== verification/Server_Properties.thy ===== *)
theory Server_Properties
  imports Server
begin

text \<open>
  The life of the server process: a startup that fails leaves no pool behind, the pool outlives
  the requests, and a shutdown that has begun ends, whatever the requests do, hung ones included.
\<close>

section \<open>Startup\<close>

text \<open>A startup that fails, at whatever point, has closed the pool it opened and serves nothing; one
  that succeeds holds exactly one pool, for \<open>runServer\<close> to close.\<close>

theorem startup_leaves_no_pool:
  "case server_run x p w of (r, p', w') \<Rightarrow> pr_pools p' = pr_pools p + (if is_ok r then 1 else 0)"
proof -
  obtain r p' w' where s: "server_run x p w = (r, p', w')" by (metis surj_pair)
  show ?thesis
  proof (cases "Load (lx_frac x) (lx_getenv x)")
    case (Inl es)
    then show ?thesis by (simp add: server_run_def)
  next
    case (Inr cfg)
    let ?w0 = "LogAttrs (log_New cfg) LevelInfo ''starting'' [(''service'', LStr ''dab-ai-gateway''), (''version'', LStr version_String),
                  (''env'', LStr (cfg_Env cfg))] w"
    obtain y p1 w1 where n: "db_New (lx_pgx x) None cfg p ?w0 = (y, p1, w1)" by (metis surj_pair)
    note k = db_New_pools [OF n]
    show ?thesis
    proof (cases y)
      case (Inl e)
      then show ?thesis using k by (simp add: server_run_def Inr n Let_def)
    next
      case (Inr c)
      then show ?thesis
        using k s by (auto simp: server_run_def \<open>Load (lx_frac x) (lx_getenv x) = Inr cfg\<close> n Let_def pool_Close_def
            split: prod.split option.split)
    qed
  qed
qed

section \<open>The invariant of the serving process\<close>

definition exit_of_point :: "point \<Rightarrow> exit_error option" where
  "exit_of_point q = (case q of Awaiting r \<Rightarrow> Some r | Returning r \<Rightarrow> Some r | Exited r \<Rightarrow> Some r | _ \<Rightarrow> None)"

definition srv_inv :: "srv \<Rightarrow> bool" where
  "srv_inv s \<longleftrightarrow>
     sv_closed s = (case sv_pc s of Exited _ \<Rightarrow> 1 | _ \<Rightarrow> 0) \<and>
     (sv_served s \<longrightarrow> \<not> sv_accepting s) \<and> (sv_chan s \<noteq> None \<longrightarrow> sv_served s) \<and>
     (sv_pc s = Selecting \<longrightarrow> sv_accepting s \<or> sv_chan s = Some serve_failed) \<and>
     (sv_pc s \<noteq> Selecting \<longrightarrow> \<not> sv_accepting s) \<and>
     (sv_pc s = ShuttingDown \<or> (\<exists>r. sv_pc s = Awaiting r) \<longrightarrow> sv_served s \<longrightarrow> sv_chan s \<noteq> None) \<and>
     (exit_of_point (sv_pc s) = Some ExitNil \<longrightarrow> sv_inflight s = 0) \<and>
     (exit_of_point (sv_pc s) = Some ExitGrace \<longleftrightarrow> sv_cut s)"

lemma srv_inv_start: "srv_inv srv_start"
  by (simp add: srv_inv_def srv_start_def exit_of_point_def)

lemma srv_inv_world: "world_step s t \<Longrightarrow> srv_inv s \<Longrightarrow> srv_inv t"
  by (erule world_stepE) (auto simp: srv_inv_def exit_of_point_def split: point.splits)

lemma srv_inv_server: "runServer s t \<Longrightarrow> srv_inv s \<Longrightarrow> srv_inv t"
  by (erule runServerE) (auto simp: srv_inv_def exit_of_point_def srv_say_def split: point.splits if_splits)

lemma srv_inv_reachable: "srv_reachable s \<Longrightarrow> srv_inv s"
  by (induction rule: srv_reachable.induct)
    (auto simp: srv_inv_start elim: srv_stepE intro: srv_inv_world srv_inv_server)

text \<open>C15: in every reachable state the pool has been closed at most once, and only when no request is
  in flight, or the grace ran out and connections were cut, or the listener itself failed.\<close>

theorem pool_outlives_requests:
  assumes "srv_reachable s" "sv_closed s \<noteq> 0"
  shows "sv_closed s = 1 \<and> \<not> sv_accepting s \<and>
    (\<exists>r. sv_pc s = Exited r \<and> (if r = ExitNil then sv_inflight s = 0 \<and> \<not> sv_cut s else if r = ExitGrace then sv_cut s else \<not> sv_cut s))"
proof -
  from srv_inv_reachable [OF assms(1)] have i: "srv_inv s" .
  with assms(2) obtain r where "sv_pc s = Exited r" by (auto simp: srv_inv_def split: point.splits)
  with i show ?thesis by (cases r) (auto simp: srv_inv_def exit_of_point_def)
qed

text \<open>A clean run: a request comes, the signal comes, the request finishes, the server drains and exits.\<close>

definition drained_run :: srv where
  "drained_run = srv_start\<lparr>sv_pc := Exited ExitNil, sv_accepting := False, sv_served := True, sv_signal := True, sv_closed := 1,
     sv_log := [(LevelInfo, ''listening''), (LevelInfo, ''shutdown signal received; draining in-flight requests''),
       (LevelInfo, ''shutdown complete'')]\<rparr>"

definition draining :: srv where
  "draining = srv_start\<lparr>sv_pc := ShuttingDown, sv_inflight := 1, sv_accepting := False, sv_signal := True,
     sv_log := [(LevelInfo, ''listening''), (LevelInfo, ''shutdown signal received; draining in-flight requests'')]\<rparr>"

lemma draining_reachable: "srv_reachable draining"
proof -
  let ?s1 = "srv_start\<lparr>sv_inflight := Suc (sv_inflight srv_start)\<rparr>"
  let ?s2 = "?s1\<lparr>sv_signal := True\<rparr>"
  have "srv_reachable ?s1"
    by (rule after_step [OF at_start], rule from_world, rule accept) (simp add: srv_start_def)
  then have "srv_reachable ?s2"
    by (rule after_step, intro from_world signal) (simp add: srv_start_def)
  then have "srv_reachable (srv_say LevelInfo ''shutdown signal received; draining in-flight requests''
      (?s2\<lparr>sv_pc := ShuttingDown, sv_accepting := False\<rparr>))"
    by (rule after_step, intro from_server select_done) (simp_all add: srv_start_def)
  then show ?thesis by (simp add: draining_def srv_say_def srv_start_def)
qed

lemma drained_reachable: "srv_reachable drained_run"
proof -
  let ?s1 = "draining\<lparr>sv_inflight := 0\<rparr>"
  let ?s2 = "?s1\<lparr>sv_served := True, sv_chan := Some ErrServerClosed\<rparr>"
  let ?s3 = "?s2\<lparr>sv_pc := Awaiting ExitNil\<rparr>"
  let ?s4 = "srv_say LevelInfo ''shutdown complete'' (?s3\<lparr>sv_chan := None, sv_pc := Returning ExitNil\<rparr>)"
  have "srv_reachable ?s1"
    by (rule after_step [OF draining_reachable], intro from_world finish) (simp add: draining_def)
  then have "srv_reachable ?s2"
    by (rule after_step, intro from_world serve_closes) (simp_all add: draining_def srv_start_def)
  then have "srv_reachable ?s3"
    by (rule after_step, intro from_server drained) (simp_all add: draining_def)
  then have r3: "srv_reachable ?s3" .
  have "runServer ?s3 ((if ExitNil = ExitNil then srv_say LevelInfo ''shutdown complete'' else (\<lambda>s. s))
      (?s3\<lparr>sv_chan := None, sv_pc := Returning ExitNil\<rparr>))"
    by (rule await [where e = ErrServerClosed]) simp_all
  then have "srv_reachable ?s4" using after_step [OF r3 from_server] by simp
  then have "srv_reachable (?s4\<lparr>sv_closed := Suc (sv_closed ?s4), sv_pc := Exited ExitNil\<rparr>)"
    by (rule after_step, intro from_server close_pool) (simp add: srv_say_def)
  then show ?thesis by (simp add: drained_run_def draining_def srv_say_def srv_start_def)
qed

theorem pool_outlives_requests_witness: "sv_inflight drained_run = 0 \<and> sv_closed drained_run = 1"
  using pool_outlives_requests [OF drained_reachable] by (auto simp: drained_run_def)

section \<open>Termination\<close>

definition point_rank :: "point \<Rightarrow> nat" where
  "point_rank q = (case q of Selecting \<Rightarrow> 4 | ShuttingDown \<Rightarrow> 3 | Awaiting _ \<Rightarrow> 2 | Returning _ \<Rightarrow> 1 | Exited _ \<Rightarrow> 0)"

definition remaining :: "srv \<Rightarrow> nat" where
  "remaining s = point_rank (sv_pc s) + sv_inflight s + of_bool (\<not> sv_signal s) + of_bool (\<not> sv_served s) + of_bool (\<not> sv_expired s)"

lemma step_decreases:
  assumes "srv_inv s" "sv_pc s \<noteq> Selecting" "srv_step s t"
  shows "remaining t < remaining s \<and> sv_pc t \<noteq> Selecting"
proof -
  have na: "\<not> sv_accepting s" using assms(1,2) by (simp add: srv_inv_def)
  have "remaining t < remaining s \<and> sv_pc t \<noteq> Selecting" if "world_step s t"
    using that na assms(2) by (elim world_stepE) (simp_all add: remaining_def)
  moreover have "remaining t < remaining s \<and> sv_pc t \<noteq> Selecting" if "runServer s t"
    using that assms(2) by (elim runServerE) (simp_all add: remaining_def point_rank_def srv_say_def)
  ultimately show ?thesis using assms(3) by (elim srv_stepE)
qed

text \<open>
  Requests that hang: in a run of \<open>hung_step k\<close> the last \<open>k\<close> requests in flight never finish.
\<close>

definition hung_step :: "nat \<Rightarrow> srv \<Rightarrow> srv \<Rightarrow> bool" where
  "hung_step k s t \<longleftrightarrow> srv_step s t \<and> (k \<le> sv_inflight t \<or> sv_inflight s \<le> sv_inflight t)"

lemma step_enabled:
  assumes "srv_inv s" "sv_pc s \<noteq> Selecting" "\<not> (\<exists>r. sv_pc s = Exited r)"
  shows "\<exists>t. hung_step k s t"
proof -
  have world: "\<exists>t. hung_step k s t" if "world_step s t" "sv_inflight t = sv_inflight s" for t
    using from_world [OF that(1)] that(2) by (auto simp: hung_step_def)
  have server: "\<exists>t. hung_step k s t" if "runServer s t" for t
  proof -
    have "sv_inflight t = sv_inflight s" using that by (elim runServerE) (auto simp: srv_say_def)
    then show ?thesis using from_server [OF that] by (auto simp: hung_step_def)
  qed
  show ?thesis
  proof (cases "sv_pc s")
    case ShuttingDown
    then show ?thesis
      using server [OF grace_over [of s]] world [OF expires [of s]] by (cases "sv_expired s") auto
  next
    case (Awaiting r)
    show ?thesis
    proof (cases "sv_served s")
      case True
      then obtain e where "sv_chan s = Some e" using assms(1) Awaiting by (auto simp: srv_inv_def)
      then show ?thesis using server [OF await [OF Awaiting]] by blast
    next
      case False
      then show ?thesis using world [OF serve_closes [of s]] assms(1,2) by (auto simp: srv_inv_def)
    qed
  next
    case (Returning r)
    then show ?thesis using server [OF close_pool] by blast
  qed (use assms in auto)
qed

text \<open>The goroutine leaves \<open>Shutdown\<close> with nil or with the grace's error only.\<close>

lemma step_keeps_exit:
  assumes "hung_step k s t" "sv_pc s \<noteq> Selecting" "exit_of_point (sv_pc s) \<noteq> Some ExitServe" "k \<le> sv_inflight s"
  shows "exit_of_point (sv_pc t) \<noteq> Some ExitServe \<and> k \<le> sv_inflight t"
proof -
  have "exit_of_point (sv_pc t) \<noteq> Some ExitServe" if "srv_step s t"
    using that assms(2,3)
    by (elim srv_stepE world_stepE runServerE) (auto simp: exit_of_point_def srv_say_def)
  with assms(1,4) show ?thesis by (auto simp: hung_step_def)
qed

text \<open>C16: once the server has left its \<open>select\<close>, every run is finite, in whatever order requests, the
  serving goroutine and the grace timer move and however many of the requests in flight never finish; a run
  can stop only where the process has returned and the pool is closed. When a request hangs in the drain,
  the end is the forced close after the grace.\<close>

theorem shutdown_terminates:
  assumes "srv_reachable s" "sv_pc s \<noteq> Selecting" "(hung_step k ^^ n) s t"
  shows "n \<le> remaining s \<and>
    (if \<exists>u. hung_step k t u then True
     else sv_closed t = 1 \<and> (\<exists>r. sv_pc t = Exited r \<and>
       (if sv_pc s = ShuttingDown \<and> 0 < k \<and> k \<le> sv_inflight s then r = ExitGrace \<and> sv_cut t else True)))"
proof -
  have "srv_reachable t \<and> sv_pc t \<noteq> Selecting \<and> n + remaining t \<le> remaining s \<and>
      (sv_pc s = ShuttingDown \<and> k \<le> sv_inflight s \<longrightarrow> exit_of_point (sv_pc t) \<noteq> Some ExitServe \<and> k \<le> sv_inflight t)"
    using assms(3)
  proof (induction n arbitrary: t)
    case 0
    then show ?case using assms(1,2) by (auto simp: exit_of_point_def)
  next
    case (Suc n)
    then obtain u where u: "(hung_step k ^^ n) s u" "hung_step k u t" by auto
    note IH = Suc.IH [OF u(1)]
    have st: "srv_step u t" using u(2) by (simp add: hung_step_def)
    show ?case
      using step_decreases [OF srv_inv_reachable _ st] after_step [OF _ st] step_keeps_exit [OF u(2)] IH by auto
  qed
  then have t: "srv_reachable t" "sv_pc t \<noteq> Selecting" "n \<le> remaining s"
    "sv_pc s = ShuttingDown \<Longrightarrow> k \<le> sv_inflight s \<Longrightarrow> exit_of_point (sv_pc t) \<noteq> Some ExitServe \<and> k \<le> sv_inflight t" by auto
  show ?thesis
  proof (cases "\<exists>u. hung_step k t u")
    case False
    note i = srv_inv_reachable [OF t(1)]
    from False obtain r where r: "sv_pc t = Exited r" using step_enabled [OF i t(2), of k] by blast
    then have "sv_closed t = 1" using i by (simp add: srv_inv_def)
    moreover have "r = ExitGrace \<and> sv_cut t" if "sv_pc s = ShuttingDown" "0 < k" "k \<le> sv_inflight s"
      using t(4) that i r by (cases r) (auto simp: srv_inv_def exit_of_point_def)
    ultimately show ?thesis using r t(3) by auto
  qed (use t in simp)
qed

text \<open>The drain of the sample state with a request that never ends: five steps, the last by force.\<close>

definition forced_run :: srv where
  "forced_run = draining\<lparr>sv_pc := Exited ExitGrace, sv_expired := True, sv_cut := True, sv_served := True, sv_closed := 1,
     sv_log := sv_log draining @ [(LevelError, ''graceful shutdown exceeded grace; forcing close'')]\<rparr>"

lemma five_steps: "P a b \<Longrightarrow> P b c \<Longrightarrow> P c d \<Longrightarrow> P d e \<Longrightarrow> P e f \<Longrightarrow> (P ^^ 5) a f"
  by (simp add: numeral_eq_Suc) (blast intro: relcomppI)

lemma forced_run_steps: "(hung_step 1 ^^ 5) draining forced_run"
proof -
  let ?s1 = "draining\<lparr>sv_expired := True\<rparr>"
  let ?s2 = "srv_say LevelError ''graceful shutdown exceeded grace; forcing close'' (?s1\<lparr>sv_pc := Awaiting ExitGrace, sv_cut := True\<rparr>)"
  let ?s3 = "?s2\<lparr>sv_served := True, sv_chan := Some ErrServerClosed\<rparr>"
  let ?s4 = "(if ExitGrace = ExitNil then srv_say LevelInfo ''shutdown complete'' else (\<lambda>s. s)) (?s3\<lparr>sv_chan := None, sv_pc := Returning ExitGrace\<rparr>)"
  let ?s5 = "?s4\<lparr>sv_closed := Suc (sv_closed ?s4), sv_pc := Exited ExitGrace\<rparr>"
  have w: "hung_step 1 s t" if "world_step s t \<or> runServer s t" "1 \<le> sv_inflight t" for s t
    using that from_world from_server by (auto simp: hung_step_def)
  have "world_step draining ?s1" by (rule expires) (simp_all add: draining_def srv_start_def)
  moreover have "runServer ?s1 ?s2" by (rule grace_over) (simp_all add: draining_def)
  moreover have "world_step ?s2 ?s3" by (rule serve_closes) (simp_all add: draining_def srv_say_def srv_start_def)
  moreover have "runServer ?s3 ?s4" by (rule await [where e = ErrServerClosed]) (simp_all add: draining_def srv_say_def)
  moreover have "runServer ?s4 ?s5" by (rule close_pool) simp
  moreover have "1 \<le> sv_inflight ?s1" "1 \<le> sv_inflight ?s2" "1 \<le> sv_inflight ?s3" "1 \<le> sv_inflight ?s4" "1 \<le> sv_inflight ?s5"
    by (simp_all add: draining_def srv_say_def)
  ultimately have "(hung_step 1 ^^ 5) draining ?s5"
    by (intro five_steps [of "hung_step 1" draining ?s1 ?s2 ?s3 ?s4 ?s5] w) simp_all
  moreover have "?s5 = forced_run" by (simp add: forced_run_def draining_def srv_say_def srv_start_def)
  ultimately show ?thesis by simp
qed

lemma forced_run_fields:
  "sv_pc forced_run = Exited ExitGrace" "sv_inflight forced_run = 1" "\<not> sv_accepting forced_run" "sv_signal forced_run"
  "sv_served forced_run"
  by (simp_all add: forced_run_def draining_def)

lemma forced_run_stuck: "\<not> (\<exists>u. hung_step 1 forced_run u)"
proof
  assume "\<exists>u. hung_step 1 forced_run u"
  then obtain u where u: "srv_step forced_run u" "1 \<le> sv_inflight u" by (auto simp: hung_step_def forced_run_fields)
  then show False
    by (elim srv_stepE world_stepE runServerE) (simp_all add: forced_run_fields)
qed

theorem shutdown_terminates_witness:
  "5 \<le> remaining draining \<and> sv_closed forced_run = 1 \<and> sv_pc forced_run = Exited ExitGrace \<and> sv_cut forced_run"
proof -
  have d: "sv_pc draining = ShuttingDown" "sv_inflight draining = 1" by (simp_all add: draining_def)
  from shutdown_terminates [OF draining_reachable _ forced_run_steps]
  show ?thesis unfolding if_not_P [OF forced_run_stuck] by (simp add: d)
qed

end
