(* ===== verification/Migrate_Cli.thy ===== *)
theory Migrate_Cli
  imports Migrate Db_Pool
begin

text \<open>
  \<open>backend/cmd/migrate/main.go\<close>: the migration command. A run ends with an exit status, the lines
  it printed and what it said on standard error; leaving through \<open>os.Exit\<close> skips the deferred
  close of the pool, whose connections end with the process.
\<close>

datatype cli_error =
    cli_usage
  | cli_unknown string
  | cli_create_usage
  | cli_config "config_error list"
  | cli_db db_error
  | cli_migrate migrate_error
  | cli_bad_steps string

definition migrationsDir :: string where "migrationsDir = ''migrations''"

record cli_env =
  cx_getenv :: environ
  cx_frac :: "nat \<Rightarrow> nat \<Rightarrow> nat \<Rightarrow> nat"
  cx_pgx :: pgx
  cx_fs :: fs
  cx_disk :: disk

text \<open>Exit status, standard error, and the state: process, disk, database.\<close>

type_synonym ('s, 'a) cli_result = "int \<times> cli_error list \<times> proc \<times> disk \<times> ('s, 'a) mig_db_scheme"

definition print_lines :: "string list \<Rightarrow> proc \<Rightarrow> proc" where
  "print_lines ls p = p\<lparr>pr_stdout := pr_stdout p @ ls\<rparr>"

definition runCreate :: "cli_env \<Rightarrow> string list \<Rightarrow> proc \<Rightarrow> ('s, 'a) mig_db_scheme \<Rightarrow> ('s, 'a) cli_result" where
  "runCreate x args p w =
     (if args = [] then (2, [cli_create_usage], p, cx_disk x, w)
      else case migrate_Create migrationsDir (Join '' '' args) (cx_disk x) w of
        (Inl e, d, w1) \<Rightarrow> (1, [cli_migrate e], p, d, w1)
      | (Inr (up, down), d, w1) \<Rightarrow> (0, [], print_lines [''created '' @ up, ''created '' @ down] p, d, w1))"

text \<open>\<open>exitOn\<close>, and the normal end of \<open>runDB\<close>, which closes the pool.\<close>

definition exitOn :: "cli_env \<Rightarrow> migrate_error \<Rightarrow> proc \<Rightarrow> ('s, 'a) mig_db_scheme \<Rightarrow> ('s, 'a) cli_result" where
  "exitOn x e p w = (1, [cli_migrate e], p, cx_disk x, w)"

definition cli_done :: "cli_env \<Rightarrow> string list \<Rightarrow> proc \<Rightarrow> ('s, 'a) mig_db_scheme \<Rightarrow> ('s, 'a) cli_result" where
  "cli_done x ls p w = (0, [], pool_Close (print_lines ls p), cx_disk x, w)"

definition progress_lines :: "string \<Rightarrow> string \<Rightarrow> string list \<Rightarrow> string list" where
  "progress_lines verb nothing vs = (if vs = [] then [nothing] else map (\<lambda>v. verb @ v) vs)"

definition cli_up :: "'s postgres \<Rightarrow> cli_env \<Rightarrow> Migration list \<Rightarrow> proc \<Rightarrow> ('s, 'a) mig_db_scheme \<Rightarrow> ('s, 'a) cli_result" where
  "cli_up P x migs p w =
     (case Up P migs w of
        ((_, Some e), w1) \<Rightarrow> exitOn x e p w1
      | ((vs, None), w1) \<Rightarrow> cli_done x (progress_lines ''applied '' ''already up to date'' vs) p w1)"

definition cli_down :: "'s postgres \<Rightarrow> cli_env \<Rightarrow> Migration list \<Rightarrow> string list \<Rightarrow> proc \<Rightarrow> ('s, 'a) mig_db_scheme \<Rightarrow> ('s, 'a) cli_result" where
  "cli_down P x migs args p w =
     (case (case args of [] \<Rightarrow> Some 1
            | a # _ \<Rightarrow> (case Atoi a of None \<Rightarrow> None | Some n \<Rightarrow> if n < 1 then None else Some n)) of
        None \<Rightarrow> (2, [cli_bad_steps (hd args)], p, cx_disk x, w)
      | Some steps \<Rightarrow>
          (case Down P migs steps w of
             ((_, Some e), w1) \<Rightarrow> exitOn x e p w1
           | ((vs, None), w1) \<Rightarrow> cli_done x (progress_lines ''reverted '' ''nothing to roll back'' vs) p w1))"

text \<open>\<open>%-7s\<close> adds nothing to the two marks.\<close>

definition status_line :: "Status \<Rightarrow> string" where
  "status_line s = (if st_Applied s then ''applied'' else ''pending'') @ '' '' @ st_Version s @ ''_'' @ st_Name s"

definition cli_status :: "cli_env \<Rightarrow> Migration list \<Rightarrow> proc \<Rightarrow> ('s, 'a) mig_db_scheme \<Rightarrow> ('s, 'a) cli_result" where
  "cli_status x migs p w =
     (case GetStatus migs w of
        (Inl e, w1) \<Rightarrow> exitOn x e p w1
      | (Inr st, w1) \<Rightarrow> cli_done x (map status_line st) p w1)"

definition cli_version :: "cli_env \<Rightarrow> proc \<Rightarrow> ('s, 'a) mig_db_scheme \<Rightarrow> ('s, 'a) cli_result" where
  "cli_version x p w =
     (case CurrentVersion w of
        (Inl e, w1) \<Rightarrow> exitOn x e p w1
      | (Inr v, w1) \<Rightarrow> cli_done x [if v = [] then ''(no migrations applied)'' else v] p w1)"

text \<open>The context's deadline is a minute.\<close>

definition runDB :: "'s postgres \<Rightarrow> cli_env \<Rightarrow> string \<Rightarrow> string list \<Rightarrow> proc \<Rightarrow> ('s, 'a) mig_db_scheme \<Rightarrow> ('s, 'a) cli_result" where
  "runDB P x cmd args p w =
     (case Load (cx_frac x) (cx_getenv x) of
        Inl es \<Rightarrow> (1, [cli_config es], p, cx_disk x, w)
      | Inr cfg \<Rightarrow>
      (case now w of (t, w0) \<Rightarrow>
      (case db_New (cx_pgx x) (Some (t + 60 * 1000000000)) cfg p w0 of
        (Inl e, p1, w1) \<Rightarrow> (1, [cli_db e], p1, cx_disk x, w1)
      | (Inr _, p1, w1) \<Rightarrow>
      (case migrate_Load (cx_fs x) of
        Inl e \<Rightarrow> exitOn x e p1 w1
      | Inr migs \<Rightarrow>
          if cmd = ''up'' then cli_up P x migs p1 w1
          else if cmd = ''down'' then cli_down P x migs args p1 w1
          else if cmd = ''status'' then cli_status x migs p1 w1
          else if cmd = ''version'' then cli_version x p1 w1
          else cli_done x [] p1 w1))))"

text \<open>\<open>main\<close>, on the arguments after the program's name.\<close>

definition migrate_main :: "'s postgres \<Rightarrow> cli_env \<Rightarrow> string list \<Rightarrow> proc \<Rightarrow> ('s, 'a) mig_db_scheme \<Rightarrow> ('s, 'a) cli_result" where
  "migrate_main P x args p w =
     (case args of
        [] \<Rightarrow> (2, [cli_usage], p, cx_disk x, w)
      | cmd # rest \<Rightarrow>
          if cmd = ''create'' then runCreate x rest p w
          else if cmd \<in> {''up'', ''down'', ''status'', ''version''} then runDB P x cmd rest p w
          else if cmd \<in> {''-h'', ''--help'', ''help''} then (0, [cli_usage], p, cx_disk x, w)
          else (2, [cli_unknown cmd, cli_usage], p, cx_disk x, w))"

end
