(* ===== verification/Superuser_Properties.thy ===== *)
theory Superuser_Properties
  imports Superuser Sample_Admin
begin

text \<open>
  What a run of createsuperuser that reports success has done: the account the email names is in
  the table with a hash of the given password, and every other account is as it was.
\<close>

section \<open>The repository's statements\<close>

lemma create_post:
  "(case p of (Inr u, w') \<Rightarrow> (Inr u, w') | (Inl e, w') \<Rightarrow> if e = unique_violation then (Inl user_ErrEmailTaken, w') else (Inl (user_wrapped e), w')) = (x, w')
   \<Longrightarrow> \<exists>y. p = (y, w') \<and> x = (case y of Inr u \<Rightarrow> Inr u | Inl e \<Rightarrow> Inl (if e = unique_violation then user_ErrEmailTaken else user_wrapped e))"
  by (cases p; cases "fst p") (auto split: if_splits)

lemma getOne_post:
  "user_getOne query w = (x, w') \<Longrightarrow> \<exists>y. pg_exec query w = (y, w') \<and> (\<forall>u. x = Inr u \<longrightarrow> y = Inr u)"
  by (auto simp: user_getOne_def split: prod.splits sum.splits if_splits)

definition user_view :: "'a users_db_scheme \<Rightarrow> User list \<times> (string \<Rightarrow> string) \<times> (string \<Rightarrow> string option)" where
  "user_view w = (users w, citext_key w, uuid_in w)"

lemma user_view_outcomes: "user_view (w\<lparr>outcomes := os\<rparr>) = user_view w"
  by (simp add: user_view_def)

lemma user_Create_view:
  assumes "user_Create email hash su w = (x, w')"
  shows "(\<forall>u. x = Inr u \<longrightarrow> users w' = users w @ [u] \<and> u_Email u = email \<and> u_PasswordHash u = hash \<and> u_IsSuperuser u = su)
    \<and> (x = Inl user_ErrEmailTaken \<longrightarrow> users w' = users w) \<and> citext_key w' = citext_key w \<and> uuid_in w' = uuid_in w"
proof -
  obtain y where y: "pg_exec (\<lambda>w.
          if \<not> text_ok w email \<or> \<not> text_ok w hash then (Inl bad_encoding, w)
          else case gen_uuid w of (i, w1) \<Rightarrow>
          case pg_now w1 of (t, w2) \<Rightarrow>
            if list_ex (\<lambda>u. u_ID u = i \<or> citext_key w2 (u_Email u) = citext_key w2 email) (users w2)
            then (Inl unique_violation, w2)
            else let u = \<lparr>u_ID = i, u_Email = email, u_PasswordHash = hash, u_IsSuperuser = su,
                          u_CreatedAt = t, u_UpdatedAt = t\<rparr>
                 in (Inr u, w2\<lparr>users := users w2 @ [u]\<rparr>)) w = (y, w')"
      and x: "x = (case y of Inr u \<Rightarrow> Inr u | Inl e \<Rightarrow> Inl (if e = unique_violation then user_ErrEmailTaken else user_wrapped e))"
    using create_post [OF assms [unfolded user_Create_def]] by blast
  define P where "P a r b \<longleftrightarrow> snd b = snd a \<and> (case r of Inr u \<Rightarrow> fst b = fst a @ [u] \<and> u_Email u = email \<and> u_PasswordHash u = hash \<and> u_IsSuperuser u = su
      | Inl (_ :: pgerr) \<Rightarrow> fst b = fst a)" for a b :: "User list \<times> (string \<Rightarrow> string) \<times> (string \<Rightarrow> string option)" and r
  have "P (user_view w) y (user_view w') \<or> (y = Inl ConnErr \<and> (user_view w' = user_view w \<or> (\<exists>x. P (user_view w) x (user_view w'))))"
    by (rule pg_exec_rule [OF y user_view_outcomes])
      (auto simp: P_def user_view_def gen_uuid_def pg_now_def now_def Let_def split: if_splits)
  then show ?thesis
    unfolding x by (auto simp: P_def user_view_def split: sum.splits if_splits)
qed

lemma user_GetByEmail_view:
  assumes "user_GetByEmail email w = (x, w')"
  shows "user_view w' = user_view w
    \<and> (\<forall>u. x = Inr u \<longrightarrow> u \<in> set (users w) \<and> citext_key w (u_Email u) = citext_key w email)"
proof -
  obtain y where y: "pg_exec (\<lambda>w. if \<not> text_ok w email then (Inl bad_encoding, w)
       else case find (\<lambda>u. citext_key w (u_Email u) = citext_key w email) (users w) of
         None \<Rightarrow> (Inl NoRows, w) | Some u \<Rightarrow> (Inr u, w)) w = (y, w')" and x: "\<forall>u. x = Inr u \<longrightarrow> y = Inr u"
    using getOne_post [OF assms [unfolded user_GetByEmail_def]] by blast
  define P where "P a r b \<longleftrightarrow> b = a \<and> (\<forall>u. r = Inr u \<longrightarrow> u \<in> set (fst a) \<and> fst (snd a) (u_Email u) = fst (snd a) email)"
    for a b :: "User list \<times> (string \<Rightarrow> string) \<times> (string \<Rightarrow> string option)" and r :: "(pgerr, User) result"
  have "P (user_view w) y (user_view w') \<or> (y = Inl ConnErr \<and> (user_view w' = user_view w \<or> (\<exists>x. P (user_view w) x (user_view w'))))"
    by (rule pg_exec_rule [OF y user_view_outcomes])
      (auto simp: P_def user_view_def find_Some_iff split: if_splits option.splits)
  then show ?thesis using x by (auto simp: P_def user_view_def)
qed

definition with_password :: "string \<Rightarrow> string \<Rightarrow> int \<Rightarrow> User \<Rightarrow> User" where
  "with_password j hash t u = (if u_ID u = j then u\<lparr>u_PasswordHash := hash, u_UpdatedAt := t\<rparr> else u)"

lemma user_UpdatePassword_view:
  assumes "user_UpdatePassword i hash w = (Inr u, w')"
  shows "citext_key w' = citext_key w \<and> (\<exists>j t v. uuid_in w i = Some j \<and> v \<in> set (users w) \<and> u_ID v = j
    \<and> u = with_password j hash t v \<and> users w' = map (with_password j hash t) (users w))"
proof -
  obtain y where y: "pg_exec (\<lambda>w. if \<not> text_ok w hash then (Inl bad_encoding, w)
       else case uuid_in w i of
         None \<Rightarrow> (Inl (uuid_error w i), w)
       | Some j \<Rightarrow> (case pg_now w of (t, w1) \<Rightarrow>
           let f = (\<lambda>u. if u_ID u = j then u\<lparr>u_PasswordHash := hash, u_UpdatedAt := t\<rparr> else u)
           in case find (\<lambda>u. u_ID u = j) (users w1) of
             None \<Rightarrow> (Inl NoRows, w1)
           | Some u \<Rightarrow> (Inr (f u), w1\<lparr>users := map f (users w1)\<rparr>))) w = (y, w')" and x: "y = Inr u"
    using getOne_post [OF assms [unfolded user_UpdatePassword_def]] by blast
  define P where "P a r b \<longleftrightarrow> (\<forall>u. r = Inr u \<longrightarrow> snd b = snd a \<and> (\<exists>j t v. snd (snd a) i = Some j \<and> v \<in> set (fst a) \<and> u_ID v = j
    \<and> u = with_password j hash t v \<and> fst b = map (with_password j hash t) (fst a)))"
    for a b :: "User list \<times> (string \<Rightarrow> string) \<times> (string \<Rightarrow> string option)" and r :: "(pgerr, User) result"
  have "P (user_view w) y (user_view w') \<or> (y = Inl ConnErr \<and> (user_view w' = user_view w \<or> (\<exists>x. P (user_view w) x (user_view w'))))"
  proof (rule pg_exec_rule [OF y user_view_outcomes])
    fix w1 x w2
    assume s: "(if \<not> text_ok w1 hash then (Inl bad_encoding, w1)
       else case uuid_in w1 i of
         None \<Rightarrow> (Inl (uuid_error w1 i), w1)
       | Some j \<Rightarrow> (case pg_now w1 of (t, w1) \<Rightarrow>
           let f = (\<lambda>u. if u_ID u = j then u\<lparr>u_PasswordHash := hash, u_UpdatedAt := t\<rparr> else u)
           in case find (\<lambda>u. u_ID u = j) (users w1) of
             None \<Rightarrow> (Inl NoRows, w1)
           | Some u \<Rightarrow> (Inr (f u), w1\<lparr>users := map f (users w1)\<rparr>))) = (x, w2)"
    show "P (user_view w1) x (user_view w2)"
    proof (cases x)
      case (Inr u)
      obtain t v1 where pn: "pg_now w1 = (t, v1)" by fastforce
      then have v1: "users v1 = users w1" "citext_key v1 = citext_key w1" "uuid_in v1 = uuid_in w1"
        by (auto simp: pg_now_def now_def Let_def)
      from s Inr obtain j where j: "uuid_in w1 i = Some j" by (auto split: if_splits option.splits)
      from s Inr j pn v1 obtain v where v: "find (\<lambda>u. u_ID u = j) (users w1) = Some v"
        by (auto split: if_splits option.splits)
      from s Inr have ok: "text_ok w1 hash" by (auto split: if_splits)
      have "u = with_password j hash t v" "w2 = v1\<lparr>users := map (with_password j hash t) (users w1)\<rparr>"
        using s by (simp_all add: Inr j pn v1 v ok Let_def with_password_def [abs_def])
      moreover have "v \<in> set (users w1)" "u_ID v = j" using v by (auto simp: find_Some_iff)
      ultimately have "uuid_in w1 i = Some j" "v \<in> set (users w1)" "u_ID v = j" "u = with_password j hash t v"
          "users w2 = map (with_password j hash t) (users w1)" "snd (user_view w2) = snd (user_view w1)"
        using j v1 by (simp_all add: user_view_def)
      then show ?thesis using Inr by (auto simp: P_def user_view_def)
    qed (simp add: P_def)
  qed
  then show ?thesis using x by (auto simp: P_def user_view_def)
qed


lemma HashPassword_view: "HashPassword bc pw w = (x, w') \<Longrightarrow> user_view w' = user_view w"
  by (auto simp: HashPassword_def rand_read_def user_view_def split: if_splits option.splits)

section \<open>A run that reports success\<close>

text \<open>C36: When createsuperuser reports success, the account its email names is in the table with a
  hash of the given password: a new superuser at the end of the table, or, with the update flag, the
  account that had the email, of which only the hash and the time of update changed; every other
  account is as it was, whatever the database answered on the way.\<close>

theorem superuser_outcome:
  fixes w :: "'a users_db_scheme"
  assumes run: "createSuperuser bc email password upd w = (Inr (u, created), w')"
    and law: "bcrypt_law bc" and inv: "users_inv w"
    and canonical: "\<forall>v\<in>set (users w). uuid_in w (u_ID v) = Some (u_ID v)"
  shows "u \<in> set (users w') \<and> citext_key w (u_Email u) = citext_key w email
      \<and> VerifyPassword bc password (u_PasswordHash u) = Inr True
      \<and> (if created then u_IsSuperuser u \<and> users w' = users w @ [u]
         else upd \<and> (\<exists>v t. v \<in> set (users w)
           \<and> u = v\<lparr>u_PasswordHash := u_PasswordHash u, u_UpdatedAt := t\<rparr>
           \<and> users w' = map (\<lambda>x. if x = v then u else x) (users w)))"
proof -
  obtain hash w1 where h: "HashPassword bc password w = (Inr hash, w1)"
    using run by (auto simp: createSuperuser_def split: prod.splits sum.splits)
  have verify: "VerifyPassword bc password hash = Inr True" by (rule VerifyPassword_HashPassword [OF law h])
  have w1: "user_view w1 = user_view w" by (rule HashPassword_view [OF h])
  obtain x w2 where c: "user_Create email hash True w1 = (x, w2)" by fastforce
  note cv = user_Create_view [OF c]
  show ?thesis
  proof (cases x)
    case (Inr v)
    then have "v = u" "created" "w2 = w'" using run by (simp_all add: createSuperuser_def h c)
    then show ?thesis using cv Inr w1 verify by (simp add: user_view_def)
  next
    case (Inl e)
    then have e: "e = user_ErrEmailTaken" and upd: "upd"
      using run by (simp_all add: createSuperuser_def h c split: if_splits)
    obtain g w3 where g: "user_GetByEmail email w2 = (g, w3)" by fastforce
    obtain ex where ex: "g = Inr ex" using run by (cases g) (simp_all add: createSuperuser_def h c Inl e upd g)
    have w2: "user_view w2 = user_view w" using cv Inl e w1 by (simp add: user_view_def)
    have gv: "user_view w3 = user_view w" "ex \<in> set (users w)" "citext_key w (u_Email ex) = citext_key w email"
      using user_GetByEmail_view [OF g] w2 ex by (simp_all add: user_view_def)
    obtain y w4 where y: "user_UpdatePassword (u_ID ex) hash w3 = (y, w4)" by fastforce
    have "y = Inr u" "\<not> created" "w4 = w'"
      using run by (cases y; simp add: createSuperuser_def h c Inl e upd g ex y)+
    with y have uv: "citext_key w' = citext_key w3 \<and> (\<exists>j t v. uuid_in w3 (u_ID ex) = Some j \<and> v \<in> set (users w3) \<and> u_ID v = j
        \<and> u = with_password j hash t v \<and> users w' = map (with_password j hash t) (users w3))"
      using user_UpdatePassword_view by blast
    have "uuid_in w3 (u_ID ex) = Some (u_ID ex)" "users w3 = users w"
      using gv canonical by (simp_all add: user_view_def)
    with uv obtain t v where v: "v \<in> set (users w)" "u_ID v = u_ID ex" "u = with_password (u_ID ex) hash t v"
        "users w' = map (with_password (u_ID ex) hash t) (users w)"
      by auto
    have ids: "y = ex" if "y \<in> set (users w)" "u_ID y = u_ID ex" for y
      using inv gv(2) that by (auto simp: users_inv_def distinct_map dest: inj_onD)
    then have "v = ex" using v by simp
    then have u: "u = ex\<lparr>u_PasswordHash := hash, u_UpdatedAt := t\<rparr>" using v(3) by (simp add: with_password_def)
    have "users w' = map (\<lambda>x. if x = ex then u else x) (users w)"
      unfolding v(4) using ids by (auto simp: with_password_def u)
    moreover from this have "u \<in> set (users w')" using gv(2) by (auto simp: image_iff)
    moreover have "u = ex\<lparr>u_PasswordHash := u_PasswordHash u, u_UpdatedAt := t\<rparr>" using u by simp
    moreover have "VerifyPassword bc password (u_PasswordHash u) = Inr True" "citext_key w (u_Email u) = citext_key w email"
      using u gv(3) verify by simp_all
    ultimately show ?thesis using upd gv(2) \<open>\<not> created\<close> by auto
  qed
qed

definition su_world :: usage_db where
  "su_world = admin_world\<lparr>rng := (\<lambda>_ n. Some (replicate n CHR ''s''))\<rparr>"

theorem superuser_outcome_witness:
  "\<exists>u w'. createSuperuser toy_bcrypt ''a@b.c'' ''new-password'' True su_world = (Inr (u, False), w')
     \<and> VerifyPassword toy_bcrypt ''new-password'' (u_PasswordHash u) = Inr True"
proof -
  let ?r = "createSuperuser toy_bcrypt ''a@b.c'' ''new-password'' True su_world"
  have inv: "users_inv su_world" by (simp add: users_inv_def su_world_def admin_world_def)
  have ids: "\<forall>v\<in>set (users su_world). uuid_in su_world (u_ID v) = Some (u_ID v)"
    by (simp add: su_world_def admin_world_def sample_world_def sample_user_def)
  have r: "map_sum (\<lambda>e. ()) snd (fst ?r) = Inr False" by code_simp
  then obtain u w' where run: "?r = (Inr (u, False), w')"
    by (cases ?r; cases "fst ?r") auto
  show ?thesis using run superuser_outcome [OF run toy_bcrypt_law inv ids] by blast
qed

end
