(* ===== verification/Dbtest.thy ===== *)
theory Dbtest
  imports Migrate_Properties Db_Pool Integrity
begin

text \<open>
  \<open>backend/internal/dbtest/dbtest.go\<close>: what the integration tests start from. \<open>Pool\<close> drops the
  schema \<open>public\<close>, makes it anew and migrates it; the schema is an option, \<open>None\<close> while there is no
  schema \<open>public\<close>, and \<open>fresh\<close> is what a new one holds. \<open>Truncate\<close> empties tables and, by
  \<open>CASCADE\<close>, those that refer to them. \<open>t.Skip\<close> and \<open>t.Fatalf\<close> end the test.
\<close>

datatype test_stop =
    ts_skip
  | ts_connecting db_error
  | ts_resetting pgerr
  | ts_migrations migrate_error
  | ts_truncate string pgerr

section \<open>Pool\<close>

definition undefined_schema :: pgerr where "undefined_schema = SqlState ''3F000''"
definition duplicate_schema :: pgerr where "duplicate_schema = SqlState ''42P06''"

text \<open>\<open>DROP SCHEMA public CASCADE\<close> takes everything in it along, \<open>schema_migrations\<close> too.\<close>

definition drop_public :: "('s option, 'a) mig_db_scheme \<Rightarrow> (pgerr, unit) result \<times> ('s option, 'a) mig_db_scheme" where
  "drop_public w =
     (case mig_schema w of
        None \<Rightarrow> (Inl undefined_schema, w)
      | Some _ \<Rightarrow> (Inr (), w\<lparr>mig_schema := None, mig_rows := None\<rparr>))"

definition create_public :: "'s \<Rightarrow> ('s option, 'a) mig_db_scheme \<Rightarrow> (pgerr, unit) result \<times> ('s option, 'a) mig_db_scheme" where
  "create_public fresh w =
     (case mig_schema w of
        Some _ \<Rightarrow> (Inl duplicate_schema, w)
      | None \<Rightarrow> (Inr (), w\<lparr>mig_schema := Some fresh\<rparr>))"

fun reset_loop :: "('w env_scheme \<Rightarrow> (pgerr, unit) result \<times> 'w env_scheme) list \<Rightarrow> 'w env_scheme \<Rightarrow> (pgerr, unit) result \<times> 'w env_scheme" where
  "reset_loop [] w = (Inr (), w)"
| "reset_loop (stmt # stmts) w =
     (case pg_exec stmt w of
        (Inl e, w1) \<Rightarrow> (Inl e, w1)
      | (Inr _, w1) \<Rightarrow> reset_loop stmts w1)"

text \<open>
  The test's libraries, the schema a new \<open>public\<close> is, and what \<open>testing.T\<close> and the process hold: the
  number of \<open>pool.Close\<close> calls registered by \<open>t.Cleanup\<close>, and the open pools.
\<close>

record 's test_env =
  te_getenv :: environ
  te_pgx :: pgx
  te_postgres :: "'s option postgres"
  te_fs :: fs
  te_fresh :: 's

type_synonym 'r test_result = "(test_stop, 'r) result"

definition dbtest_Pool :: "'s test_env \<Rightarrow> nat \<Rightarrow> proc \<Rightarrow> ('s option, 'a) mig_db_scheme
    \<Rightarrow> pool_config test_result \<times> nat \<times> proc \<times> ('s option, 'a) mig_db_scheme" where
  "dbtest_Pool x cleanups p w =
     (let dsn = te_getenv x ''DAB_TEST_DATABASE_URL''
      in if dsn = [] then (Inl ts_skip, cleanups, p, w)
      else case now w of (t, w0) \<Rightarrow>
      (case db_New (te_pgx x) (Some (t + 30 * 1000000000)) (Config0\<lparr>cfg_DatabaseURL := dsn\<rparr>) p w0 of
        (Inl e, p1, w1) \<Rightarrow> (Inl (ts_connecting e), cleanups, p1, w1)
      | (Inr pool, p1, w1) \<Rightarrow>
      (case reset_loop [drop_public, create_public (te_fresh x)] w1 of
        (Inl e, w2) \<Rightarrow> (Inl (ts_resetting e), cleanups, pool_Close p1, w2)
      | (Inr _, w2) \<Rightarrow>
      (case Migrate (te_postgres x) (te_fs x) w2 of
        ((_, Some e), w3) \<Rightarrow> (Inl (ts_migrations e), cleanups, pool_Close p1, w3)
      | ((_, None), w3) \<Rightarrow> (Inr pool, Suc cleanups, p1, w3)))))"

text \<open>The end of the test runs what \<open>t.Cleanup\<close> registered.\<close>

definition test_end :: "nat \<Rightarrow> proc \<Rightarrow> proc" where
  "test_end cleanups p = (pool_Close ^^ cleanups) p"

section \<open>Truncate\<close>

text \<open>The tables of the migrations, and which refers to which.\<close>

definition table_names :: "string list" where
  "table_names = [''users'', ''api_keys'', ''conversations'', ''messages'', ''gateway_usage'']"

definition table_refs :: "(string \<times> string) list" where
  "table_refs = [(''api_keys'', ''users''), (''conversations'', ''api_keys''), (''messages'', ''conversations''),
     (''gateway_usage'', ''api_keys''), (''gateway_usage'', ''conversations'')]"

definition referring :: "string list \<Rightarrow> string list" where
  "referring ts = ts @ map fst (filter (\<lambda>(c, p). p \<in> set ts \<and> c \<notin> set ts) table_refs)"

text \<open>The chain of references is three long. \<open>RESTART IDENTITY\<close> has nothing to do: every id is a UUID.\<close>

definition cascade :: "string \<Rightarrow> string list" where
  "cascade t = referring (referring (referring [t]))"

definition clear_tables :: "string list \<Rightarrow> 'a usage_db_scheme \<Rightarrow> 'a usage_db_scheme" where
  "clear_tables ts w =
     w\<lparr>users := (if ''users'' \<in> set ts then [] else users w),
       api_keys := (if ''api_keys'' \<in> set ts then [] else api_keys w),
       conversations := (if ''conversations'' \<in> set ts then [] else conversations w),
       messages := (if ''messages'' \<in> set ts then [] else messages w),
       gateway_usage := (if ''gateway_usage'' \<in> set ts then [] else gateway_usage w)\<rparr>"

definition truncate_table :: "string \<Rightarrow> 'a usage_db_scheme \<Rightarrow> (pgerr, unit) result \<times> 'a usage_db_scheme" where
  "truncate_table t w = (if t \<notin> set table_names then (Inl undefined_table, w) else (Inr (), clear_tables (cascade t) w))"

fun dbtest_Truncate :: "string list \<Rightarrow> 'a usage_db_scheme \<Rightarrow> unit test_result \<times> 'a usage_db_scheme" where
  "dbtest_Truncate [] w = (Inr (), w)"
| "dbtest_Truncate (t # ts) w =
     (case pg_exec (truncate_table t) w of
        (Inl e, w1) \<Rightarrow> (Inl (ts_truncate t e), w1)
      | (Inr _, w1) \<Rightarrow> dbtest_Truncate ts w1)"

section \<open>What a test starts from\<close>

lemma reset_Inr:
  assumes "reset_loop [drop_public, create_public fresh] w = (Inr (), w')"
  shows "mig_schema w' = Some fresh \<and> mig_rows w' = None"
proof -
  obtain w1 where d: "pg_exec drop_public w = (Inr (), w1)" and c: "pg_exec (create_public fresh) w1 = (Inr (), w')"
    using assms by (auto split: prod.splits sum.splits)
  obtain v where "drop_public v = (Inr (), w1)" using d by (rule pg_exec_Inr)
  then have "mig_rows w1 = None" by (auto simp: drop_public_def split: option.splits)
  moreover obtain u where "create_public fresh u = (Inr (), w')" "u = w1 \<or> (\<exists>os. u = w1\<lparr>outcomes := os\<rparr>)"
    using c by (rule pg_exec_Inr)
  ultimately show ?thesis by (auto simp: create_public_def split: option.splits)
qed

text \<open>A run of \<open>Pool\<close>, by where it stopped.\<close>

lemma Pool_cases:
  fixes w :: "('s option, 'a) mig_db_scheme"
  assumes "dbtest_Pool x c p w = (r, c', p', w')"
  obtains (early) "\<not> is_ok r" "on_boundary w' = on_boundary w" "c' = c" "pr_pools p' = pr_pools p"
    | (late) w1 y w2 where "on_boundary w1 = on_boundary w" "reset_loop [drop_public, create_public (te_fresh x)] w1 = (y, w2)"
        "y = Inr () \<Longrightarrow> \<exists>vs e. Migrate (te_postgres x) (te_fs x) w2 = ((vs, e), w') \<and> (is_ok r \<longleftrightarrow> e = None)"
        "\<not> is_ok y \<Longrightarrow> \<not> is_ok r \<and> w' = w2" "if is_ok r then c' = Suc c \<and> pr_pools p' = Suc (pr_pools p) else c' = c \<and> pr_pools p' = pr_pools p"
proof (cases "te_getenv x ''DAB_TEST_DATABASE_URL'' = []")
  case True
  then show ?thesis using assms early by (auto simp: dbtest_Pool_def)
next
  case False
  obtain t w0 where n: "now w = (t, w0)" by fastforce
  obtain z p1 w1 where d: "db_New (te_pgx x) (Some (t + 30 * 1000000000))
      (Config0\<lparr>cfg_DatabaseURL := te_getenv x ''DAB_TEST_DATABASE_URL''\<rparr>) p w0 = (z, p1, w1)"
    by (metis surj_pair)
  have w0: "on_boundary (snd (now v)) = on_boundary v" for v :: "('s option, 'a) mig_db_scheme"
    by (simp add: on_boundary_def now_def Let_def)
  have w1: "on_boundary w1 = on_boundary w"
    using db_New_keeps [where f = on_boundary, OF w0 on_boundary_outcomes d] w0 [of w] n by simp
  note pools = db_New_pools [OF d]
  show ?thesis
  proof (cases z)
    case (Inl e)
    then show ?thesis using assms False n d w1 pools early by (auto simp: dbtest_Pool_def)
  next
    case (Inr pc)
    obtain y w2 where rl: "reset_loop [drop_public, create_public (te_fresh x)] w1 = (y, w2)" by fastforce
    obtain vs e w3 where m: "Migrate (te_postgres x) (te_fs x) w2 = ((vs, e), w3)" by (metis surj_pair)
    show ?thesis
      by (rule late [OF w1 rl]; use assms False n d rl m Inr pools in \<open>cases y; cases e\<close>)
        (auto simp: dbtest_Pool_def pool_Close_def simp del: reset_loop.simps)
  qed
qed

lemma load_distinct: "migrate_Load F = Inr migs \<Longrightarrow> distinct (map mg_Version migs)"
proof -
  assume l: "migrate_Load F = Inr migs"
  then obtain es m where c: "collect F es [] = Inr m" and a: "assemble_migs m (sort (map fst m)) = Inr migs"
    by (auto simp: migrate_Load_def split: option.splits sum.splits)
  have "collected F {} []" by (simp add: collected_def)
  from collect_collected [OF c this] have "distinct (map fst m)" by (simp add: collected_def)
  then show ?thesis using assemble_migs_Inr [OF a] by simp
qed

lemma Migrate_fresh:
  assumes "script_law P eff migs" "migrate_Load F = Inr migs" "mig_rows w = None" "Migrate P F w = ((vs, None), w')"
  shows "recorded_rows w' = map row_of migs \<and> replay eff migs (mig_schema w) = Some (mig_schema w')"
proof -
  obtain w1 w2 applied where e: "ensureBookkeeping w = (Inr (), w1)" "appliedSet w1 = (Inr applied, w2)"
      "apply_pending P applied migs [] w2 = ((vs, None), w')"
    using assms(2,4) by (auto simp: Migrate_def Up_def split: prod.splits sum.splits)
  have w1: "mig_rows w1 = Some []" "mig_schema w1 = mig_schema w"
    using e(1) assms(3) by (cases rule: ensureBookkeeping_cases [of w], auto simp: recorded_rows_def)+
  obtain x where av: "appliedVersions w1 = (Inr x, w2)" "applied = set x"
    using e(2) by (auto simp: appliedSet_def split: prod.splits sum.splits)
  note r = appliedVersions_result [OF w1(1) av(1)]
  have w2: "mig_rows w2 = Some []" "mig_schema w2 = mig_schema w" "applied = {}"
    using r(1) r(2) [OF refl] w1 av(2) by (simp_all add: on_boundary_def)
  from apply_pending_advances [OF assms(1) subset_refl w2(1) load_distinct [OF assms(2)] _ e(3)] w2(3)
  have "advanced eff migs w2 (vs, None) w'" by simp
  then show ?thesis using w2 by (auto simp: advanced_def recorded_rows_def [of w2])
qed

text \<open>C37: whatever the database held before, whatever an earlier run left half done, a test that gets a pool
  gets the schema the migrations build from an empty one, with all of them on record; and its pool is closed
  when the test is over.\<close>

theorem test_pool_is_fresh:
  assumes "script_law (te_postgres x) eff migs" "migrate_Load (te_fs x) = Inr migs"
    and "dbtest_Pool x c p w = (Inr pool, c', p', w')"
  shows "recorded_rows w' = map row_of migs \<and> replay eff migs (Some (te_fresh x)) = Some (mig_schema w') \<and>
    c' = Suc c \<and> pr_pools (pool_Close p') = pr_pools p"
  using assms(3)
proof (cases rule: Pool_cases)
  case (late w1 y w2)
  have "y = Inr ()" using late(4) by (cases y) simp_all
  with late(3) obtain vs where m: "Migrate (te_postgres x) (te_fs x) w2 = ((vs, None), w')" by auto
  have "mig_schema w2 = Some (te_fresh x) \<and> mig_rows w2 = None"
    using late(2) \<open>y = Inr ()\<close> by (intro reset_Inr) simp
  then show ?thesis using Migrate_fresh [OF assms(1,2) _ m] late(5) by (simp add: pool_Close_def)
qed simp

text \<open>No end of \<open>Pool\<close> leaves a pool that nothing will close.\<close>

lemma test_pool_no_leak:
  assumes "dbtest_Pool x c p w = (r, c', p', w')"
  shows "pr_pools (test_end (c' - c) p') = pr_pools p"
  using assms by (cases rule: Pool_cases) (auto simp: test_end_def pool_Close_def split: if_splits)

text \<open>The reset does not heal every state a run can leave: a run cut off between the two
  statements leaves no schema \<open>public\<close>, and from then on no run gets a pool, until someone
  makes the schema by hand.\<close>

theorem reset_needs_a_schema:
  fixes w :: "('s option, 'a) mig_db_scheme"
  assumes "mig_schema w = None" "dbtest_Pool x c p w = (r, c', p', w')"
  shows "\<not> is_ok r \<and> mig_schema w' = None"
  using assms(2)
proof (cases rule: Pool_cases)
  case early
  then show ?thesis using assms(1) by (simp add: on_boundary_def)
next
  case (late w1 y w2)
  have w1: "mig_schema w1 = None" using late(1) assms(1) by (simp add: on_boundary_def)
  have "\<not> is_ok y \<and> mig_schema w2 = None"
  proof (cases "drop_public :: ('s option, 'a) mig_db_scheme \<Rightarrow> _" w1 rule: pg_exec_cases)
    case (run v)
    then have "mig_schema v = None" using w1 by auto
    then show ?thesis using late(2) run(1) by (auto simp: drop_public_def)
  next
    case (lost os)
    then show ?thesis using late(2) w1 by auto
  next
    case (unacked v)
    then have "mig_schema v = None" using w1 by auto
    then show ?thesis using late(2) unacked(1) by (auto simp: drop_public_def)
  qed
  then show ?thesis using late(4) by simp
qed

section \<open>Emptying tables\<close>

definition refs_closed :: "string list \<Rightarrow> bool" where
  "refs_closed ts \<longleftrightarrow> list_all (\<lambda>(c, p). p \<in> set ts \<longrightarrow> c \<in> set ts) table_refs"

lemma cascade_closed: "list_all (\<lambda>t. refs_closed (cascade t) \<and> t \<in> set (cascade t)) table_names"
  by code_simp

lemma refs_closed_append: "refs_closed us \<Longrightarrow> refs_closed vs \<Longrightarrow> refs_closed (us @ vs)"
  by (auto simp: refs_closed_def table_refs_def)

lemma clear_data:
  "data (clear_tables [] w) = data w" "data (clear_tables us (clear_tables vs w)) = data (clear_tables (us @ vs) w)"
  "data w' = data w \<Longrightarrow> data (clear_tables us w') = data (clear_tables us w)"
  by (simp_all add: clear_tables_def data_def)

lemma integrity_cong: "data w' = data w \<Longrightarrow> integrity w' = integrity w"
  by (simp add: data_def integrity_def)

lemma clear_integrity: "refs_closed us \<Longrightarrow> integrity w \<Longrightarrow> integrity (clear_tables us w)"
  by (simp add: clear_tables_def integrity_def refs_closed_def table_refs_def ids_unique_def)

definition row_count :: "string \<Rightarrow> 'a usage_db_scheme \<Rightarrow> nat" where
  "row_count t w =
     (if t = ''users'' then length (users w) else if t = ''api_keys'' then length (api_keys w)
      else if t = ''conversations'' then length (conversations w) else if t = ''messages'' then length (messages w)
      else if t = ''gateway_usage'' then length (gateway_usage w) else 0)"

text \<open>A run of \<open>Truncate\<close> has cleared a set of tables that nothing outside refers to.\<close>

definition cleared :: "string list \<Rightarrow> 'a usage_db_scheme \<Rightarrow> 'a usage_db_scheme \<Rightarrow> bool" where
  "cleared us w w' \<longleftrightarrow> refs_closed us \<and> data w' = data (clear_tables us w)"

lemma cleared_none: "data w' = data w \<Longrightarrow> cleared [] w w'"
  by (simp add: cleared_def refs_closed_def table_refs_def clear_data)

lemma truncate_table_cleared:
  fixes w :: "'a usage_db_scheme"
  assumes "pg_exec (truncate_table t) w = (x, w')"
  shows "\<exists>us. set us \<subseteq> set (cascade t) \<and> cleared us w w' \<and> (x = Inr () \<longrightarrow> t \<in> set us)"
proof (cases "t \<in> set table_names")
  case True
  then have t: "refs_closed (cascade t)" "t \<in> set (cascade t)" using cascade_closed by (auto simp: list_all_iff)
  have c: "cleared (cascade t) w (clear_tables (cascade t) v)" if "data v = data w" for v :: "'a usage_db_scheme"
    using t(1) clear_data(3) [OF that] by (simp add: cleared_def)
  have s: "truncate_table t v = (Inr (), clear_tables (cascade t) v)" for v :: "'a usage_db_scheme" using True by (simp add: truncate_table_def)
  show ?thesis
  proof (cases "truncate_table t :: 'a usage_db_scheme \<Rightarrow> _" w rule: pg_exec_cases)
    case (run v)
    then have "data v = data w" by auto
    then show ?thesis using run(1) assms s c t(2) by (intro exI [of _ "cascade t"]) simp
  next
    case (lost os)
    then show ?thesis using assms by (intro exI [of _ "[]"]) (auto intro: cleared_none)
  next
    case (unacked v)
    then have "data v = data w" by auto
    then show ?thesis using unacked(1) assms s c t(2) by (intro exI [of _ "cascade t"]) auto
  qed
next
  case False
  then have s: "truncate_table t v = (Inl undefined_table, v)" for v :: "'a usage_db_scheme" by (simp add: truncate_table_def)
  have "data w' = data w \<and> x \<noteq> Inr ()"
    using assms by (cases "truncate_table t :: 'a usage_db_scheme \<Rightarrow> _" w rule: pg_exec_cases) (auto simp: s)
  then show ?thesis by (intro exI [of _ "[]"]) (auto intro: cleared_none)
qed

text \<open>Emptying tables for a test keeps the database whole: whatever fails on the way, only the
  named tables and those that refer to them lose rows, and no row is left that refers to one that is gone;
  without an error the named tables are empty.\<close>

theorem truncate_keeps_integrity:
  assumes "dbtest_Truncate ts w = (r, w')" "integrity w"
  shows "integrity w' \<and> (\<forall>t. row_count t w' \<noteq> row_count t w \<longrightarrow> t \<in> set (concat (map cascade ts))) \<and>
    (r = Inr () \<longrightarrow> list_all (\<lambda>t. row_count t w' = 0) ts)"
proof -
  have "\<exists>us. set us \<subseteq> set (concat (map cascade ts)) \<and> cleared us w w' \<and> (r = Inr () \<longrightarrow> set ts \<subseteq> set us)"
    using assms(1)
  proof (induction ts arbitrary: w)
    case Nil
    then show ?case by (intro exI [of _ "[]"]) (auto intro: cleared_none)
  next
    case (Cons t ts)
    obtain x w1 where e: "pg_exec (truncate_table t) w = (x, w1)" by fastforce
    from truncate_table_cleared [OF e] obtain us where us: "set us \<subseteq> set (cascade t)" "cleared us w w1" "x = Inr () \<longrightarrow> t \<in> set us"
      by blast
    show ?case
    proof (cases x)
      case (Inl err)
      then show ?thesis using Cons.prems e us by (intro exI [of _ us]) auto
    next
      case (Inr u)
      then have "dbtest_Truncate ts w1 = (r, w')" using Cons.prems e by simp
      from Cons.IH [OF this] obtain vs where vs: "set vs \<subseteq> set (concat (map cascade ts))" "cleared vs w1 w'" "r = Inr () \<longrightarrow> set ts \<subseteq> set vs"
        by blast
      have "data w' = data (clear_tables (vs @ us) w)"
        using us(2) vs(2) clear_data(3) [of w1 "clear_tables us w" vs] by (simp add: cleared_def clear_data(2))
      then have "cleared (vs @ us) w w'" using us(2) vs(2) by (simp add: cleared_def refs_closed_append)
      then show ?thesis using us vs Inr by (intro exI [of _ "vs @ us"]) auto
    qed
  qed
  then obtain us where us: "set us \<subseteq> set (concat (map cascade ts))" "refs_closed us" "data w' = data (clear_tables us w)"
      "r = Inr () \<Longrightarrow> set ts \<subseteq> set us"
    by (auto simp: cleared_def)
  have rows: "row_count t w' = (if t \<in> set us then 0 else row_count t w)" for t
    using us(3) by (auto simp: row_count_def data_def clear_tables_def)
  have "integrity w'" using clear_integrity [OF us(2) assms(2)] integrity_cong [OF us(3)] by simp
  then show ?thesis using us(1,4) rows by (auto simp: list_all_iff)
qed

section \<open>Witnesses\<close>

text \<open>A database whose schema may be gone; the migration of the witnesses adds one to its number.\<close>

definition lifted_eff :: "string \<Rightarrow> int option \<Rightarrow> (pgerr, int option) result" where
  "lifted_eff b s = (case s of None \<Rightarrow> Inl undefined_schema | Some n \<Rightarrow> (case count_eff b n of Inl e \<Rightarrow> Inl e | Inr m \<Rightarrow> Inr (Some m)))"

definition lifted_pg :: "int option postgres" where
  "lifted_pg = \<lparr>pg_script = (\<lambda>script (s, t). case s of None \<Rightarrow> (Some undefined_schema, None, t)
     | Some n \<Rightarrow> (case pg_script count_pg script (n, t) of (e, m, t') \<Rightarrow> (e, Some m, t')))\<rparr>"

lemma lifted_law: "script_law lifted_pg lifted_eff [plus_one]"
  unfolding script_law_def
proof (intro ballI allI)
  fix m s rs assume m: "m \<in> set [plus_one]"
  show "pg_script lifted_pg (wrapTx (mg_Up m) (insert_row m)) (s, Some rs) =
       (case lifted_eff (trim_body (mg_Up m)) s of Inl e \<Rightarrow> (Some e, s, Some rs)
        | Inr s' \<Rightarrow> if mg_Version m \<in> fst ` set rs then (Some unique_violation, s, Some rs) else (None, s', Some (rs @ [row_of m]))) \<and>
     pg_script lifted_pg (wrapTx (mg_Down m) (delete_row m)) (s, Some rs) =
       (case lifted_eff (trim_body (mg_Down m)) s of Inl e \<Rightarrow> (Some e, s, Some rs)
        | Inr s' \<Rightarrow> (None, s', Some (filter (\<lambda>r. fst r \<noteq> mg_Version m) rs)))"
    using count_law [unfolded script_law_def, THEN bspec, OF m]
    by (cases s) (simp_all add: lifted_pg_def lifted_eff_def split: sum.split)
qed

definition one_migration :: fs where
  "one_migration = \<lparr>fs_ReadDir = Some [(''20260606000001_init.up.sql'', False), (''20260606000001_init.down.sql'', False)],
     fs_ReadFile = (\<lambda>f. if f = ''20260606000001_init.up.sql'' then Some ''+;'' else if f = ''20260606000001_init.down.sql'' then Some ''-;'' else None)\<rparr>"

lemma one_migration_load: "migrate_Load one_migration = Inr [plus_one]"
  unfolding plus_one_def by code_simp

definition sample_test :: "int test_env" where
  "sample_test = \<lparr>te_getenv = (\<lambda>_. ''postgres://h/d''),
     te_pgx = \<lparr>pgx_ParseConfig = (\<lambda>_. Some \<lparr>pc_MaxConns = 4, pc_MinConns = 0, pc_MaxConnLifetime = 1, pc_MaxConnIdleTime = 1,
         pc_HealthCheckPeriod = 1\<rparr>), pgx_NewWithConfig = (\<lambda>_. True)\<rparr>,
     te_postgres = lifted_pg, te_fs = one_migration, te_fresh = 0\<rparr>"

text \<open>A database with a stale schema and a row of no migration.\<close>

definition stale_db :: "int option mig_db" where
  "stale_db = env.extend (env.truncate sample_world) \<lparr>mig_schema = Some 99, mig_rows = Some [(''1'', ''x'')]\<rparr>"

definition no_pools :: proc where "no_pools = \<lparr>pr_pools = 0, pr_stdout = []\<rparr>"

lemma sample_pool: "is_ok (fst (dbtest_Pool sample_test 0 no_pools stale_db))"
  by code_simp

theorem test_pool_is_fresh_witness:
  "mig_schema (snd (snd (snd (dbtest_Pool sample_test 0 no_pools stale_db)))) = Some 1"
proof -
  obtain pool c' p' w' where d: "dbtest_Pool sample_test 0 no_pools stale_db = (Inr pool, c', p', w')"
    using sample_pool by (cases "dbtest_Pool sample_test 0 no_pools stale_db") (auto simp: is_ok_iff)
  have "te_postgres sample_test = lifted_pg" "te_fs sample_test = one_migration" "te_fresh sample_test = 0"
    by (simp_all add: sample_test_def)
  then have "replay lifted_eff [plus_one] (Some 0) = Some (mig_schema w')"
    using test_pool_is_fresh [OF _ _ d, of lifted_eff "[plus_one]"] lifted_law one_migration_load by simp
  then show ?thesis by (simp add: d lifted_eff_def count_bodies count_eff_def)
qed

text \<open>The connection is lost between the two statements; the next test finds no schema.\<close>

definition cut_off_db :: "int option mig_db" where
  "cut_off_db = snd (snd (snd (dbtest_Pool sample_test 0 no_pools (stale_db\<lparr>outcomes := [Delivered, Delivered, NotSent]\<rparr>))))"

theorem reset_needs_a_schema_witness: "\<not> is_ok (fst (dbtest_Pool sample_test 0 no_pools cut_off_db))"
proof -
  have "mig_schema cut_off_db = None" by code_simp
  then show ?thesis using reset_needs_a_schema [of cut_off_db sample_test 0 no_pools] by (metis surj_pair fst_conv)
qed

theorem truncate_keeps_integrity_witness:
  "integrity (snd (dbtest_Truncate [''api_keys'', ''users''] sample_world)) \<and>
   row_count ''api_keys'' (snd (dbtest_Truncate [''api_keys'', ''users''] sample_world)) = 0"
proof -
  have "integrity sample_world"
    by (simp add: integrity_def ids_unique_def sample_world_def sample_message_def sample_key_def turn_role_def)
  moreover have "fst (dbtest_Truncate [''api_keys'', ''users''] sample_world) = Inr ()" by code_simp
  ultimately show ?thesis
    using truncate_keeps_integrity [OF surjective_pairing, where ts = "[''api_keys'', ''users'']" and w = sample_world] by simp
qed

end
