(* ===== verification/Spec2Isabelle.thy ===== *)
theory Spec2Isabelle
  imports Data_Properties Access_Properties Turn_Properties Admin_Properties Config_Properties
    Rate_Refinement System Migrate_Concurrent Server_Properties Migrate_Cli Superuser_Properties
    Dbtest
begin

text \<open>
  The backend of the DAB gateway, \<open>src/backend\<close>: a Go service that puts a two-key authenticated
  chat endpoint with server-side sessions in front of a vLLM server, with an admin API for the
  keys, over Postgres. This development models its Go code, package by package, and proves what
  makes the parts correct. The properties carry the ids C1 to C40; each stands in the theory of
  its component, after a text that states it.

  The program and its theories

  A request enters the handler of \<open>internal/app\<close> (App): the base chain of \<open>internal/httpserver\<close>
  and \<open>internal/log\<close> (Httpserver, Log_Middleware: request id, recorder and summary line, CORS,
  panic recovery) around a \<open>ServeMux\<close> (Go_Mux) with four groups of routes.
    - \<open>/version\<close>, \<open>/healthz\<close>, \<open>/readyz\<close>: Httpserver and Health.
    - \<open>POST /api/admin/login\<close>: the per-address limiter of \<open>internal/ratelimit\<close> (Ratelimit), then the
      login of \<open>internal/admin\<close> (Admin_Auth) over \<open>internal/user\<close> (User_Repo), \<open>internal/auth\<close>
      (Password) and \<open>internal/token\<close> (Token).
    - \<open>/api/admin/keys\<close>: the session guard (Admin_Auth), then the handlers of keys.go (Admin_Keys)
      over a key store (Key_Interface), which \<open>internal/apikey\<close> (Apikey, with SHA-256 in Sha256) is.
    - \<open>POST /v1/gateway/chat\<close>: the two-key middleware of \<open>internal/gateway\<close> (Gateway_Auth), the
      per-credential limiter, then the chat handler (Gateway_Chat, Gateway_Stream for the SSE path),
      which works through the core of \<open>internal/gatewaycore\<close> (Gatewaycore) on a conversation store
      (Conv_Interface; \<open>internal/conversation\<close> is Conversation; Exchange says what a stored exchange is), the client of \<open>internal/vllm\<close>
      (Vllm) and the audit of \<open>internal/usage\<close> (Usage). Gateway composes these as app.go does.
  The process around it: \<open>internal/config\<close> (Config), \<open>internal/db\<close> (Db_Pool),
  \<open>internal/db/migrate\<close> (Migrate), and the commands: \<open>cmd/server\<close> (Server), \<open>cmd/migrate\<close>
  (Migrate_Cli), \<open>cmd/createsuperuser\<close> (Superuser).
  The helpers of the integration tests, \<open>internal/dbtest\<close>, are in Dbtest.
  Prelude holds the shared lemmas and collections, Runtime the outside world, Go_Strings, Go_Json,
  Go_Url, Go_Time and Go_Http the parts of Go's standard library that the code uses, Req_Context
  the values on a context, Sample and Sample_Admin the concrete worlds of the witnesses.

  How code becomes definitions

  A Go function is a definition of the same name (with a package prefix where the name is taken)
  from its arguments and the world to its result and the new world. A pair of a value and an error
  is a sum, \<open>Inl\<close> the error. A string is its bytes. An \<open>int\<close> that cannot overflow on any input the
  code lets through is an \<open>int\<close>; the widths that matter are kept (the 32-bit columns of the audit,
  the saturating \<open>Time.Sub\<close>, the words of SHA-256, \<open>Atoi\<close> and \<open>ParseDuration\<close> with their limits).
  The world is the record \<open>env\<close> of Runtime (clock, random source, network, log, and for every
  database round trip whether it ran and whether its answer arrived), extended by the tables:
  \<open>users_db\<close>, \<open>keys_db\<close>, \<open>conv_db\<close>, \<open>usage_db\<close> with the detached goroutines, \<open>app\<close> with the two
  limiter sets, and \<open>mig_db\<close> for the migration runner. A table is the list of its rows, and an SQL
  statement the definition of its effect, with the constraints of the migrations. A parameter for a uuid column that is no UUID is refused
  as Postgres refuses it, by its encoding or by its syntax (\<open>uuid_error\<close>).
  A handler maps a request and a world to its calls on the response writer, how it ended
  (returned, aborted, panicked) and the world; the response is what \<open>net/http\<close> makes of the calls
  (\<open>status_of\<close>, \<open>body_of\<close>, \<open>sent_header\<close>); \<open>body_of\<close> is the body that was written, \<open>sent_body\<close> what goes over
  the wire, which is nothing for a \<open>HEAD\<close> and for a status without a body. A goroutine that outlives its request is a task of the
  world, and \<open>run_task\<close> its body. The server process is a step relation (\<open>srv_step\<close>), in which the
  goroutine of \<open>runServer\<close>, the one that serves, the requests, the signal and the grace timer move
  in any order.
  Interfaces are locales, interpreted on the model: \<open>conv_repo\<close> (what the core needs of a
  conversation store) on \<open>internal/conversation\<close>, \<open>credential_store\<close> and \<open>key_store\<close> on
  \<open>internal/apikey\<close>, \<open>admin_keys\<close> (a key store the random source does not touch) likewise,
  \<open>user_getter\<close> and \<open>admin_login\<close> on \<open>internal/user\<close>, \<open>upstream\<close> on the vLLM client, and \<open>service\<close>
  (a route table whose handlers return and keep to their part) on the routes of app.go and on the
  scaffold of httpserver.go; and \<open>extends_harmless\<close> (a transitive relation between worlds that
  contains every step without an effect) on \<open>harmless\<close> itself and on \<open>lawful\<close>, which takes a fact
  about every route through the base chain and the mux. The facts of the core, of the handlers and of the base chain are proved
  once over them.

  What is proved

  Data layer (Data_Properties): minted credentials verify and have their shape; revocation is
  final and the key table keeps its invariant under every sequence of operations; an append is
  atomic and ordered; the echo of the history that a turn repeats is the longest one and is dropped
  alike when the context is assembled and when the exchange is stored, so what was sent is what is
  stored, with the reply, and read back in that order on a settled session.
  Access (Access_Properties): the two-key middleware decides exactly by the active rows and the SHA-256
  digest of the secret; failures of
  the database never let anyone in; a call changes sessions of its own credential only.
  Turns (Stream_Spec, Turn_Properties): the relay loop computes a specification on the whole
  upstream body and gives back a streamed reply exactly; when an exchange is stored, what an
  upstream failure does, stated on what the network answered, that every accepted call is audited exactly once, what a system message
  can be.
  Admin (Admin_Properties): logins and sessions up to their expiry, the guard, the life of a key
  from creation to its acceptance at the public endpoint and to its revocation, and the absence of
  secrets from what the management answers.
  System (Integrity, System): every statement, every repository operation, every handler, every
  background task and createsuperuser keep the integrity of the whole database and lose or
  rewrite no row (\<open>lawful\<close>); so does every run of \<open>system_step\<close>, in which whole requests,
  single operations of requests in flight, waiting goroutines, new accounts, faults and restarts come in
  any order. That revocation is final for the whole service is a consequence.
  Service (Http_Properties, App_Properties): every request is answered with its id and one truthful
  summary line, if the logger's level lets it through, and what it says is what the handler of its route says; panics are contained; the
  allowlist alone grants origins; an anonymous request changes nothing.
  Limits (Rate_Properties, Rate_Refinement): admissions in a window are bounded, waiting as long as a
  refusal says is enough unless the burst is zero, and a limiter set with its lazy sweep implements one token bucket per key,
  \<open>bucket_spec\<close>, when the rate refills a bucket within \<open>staleAfter\<close> less the longest wait for the mutex.
  Configuration (Config_Properties): what a loaded configuration guarantees, that all missing
  variables are reported, and what its log rendering cannot reveal: the two secrets, and the password of a
  Postgres URL in the form \<open>password_apart\<close> describes, not every DSN (\<open>slash_password_survives\<close>).
  Migrations (Migrate_Files, Migrate_Properties, Migrate_Concurrent): file names, loading, the
  boundary between two migrations after any failure, resumption by a run that is proved to complete, and rollback; and processes that
  migrate one database at once (\<open>replicas\<close>), each one \<open>Up\<close> cut into round trips (\<open>up_step\<close>, equal to
  \<open>Up\<close> by \<open>up_steps_are_up\<close>): the same boundary, and one of them gets through.
  Process (Server_Properties, Superuser_Properties): a failed startup leaves no pool, the pool
  outlives the requests, a shutdown that has begun ends, and what a successful createsuperuser has
  done.
  Test helpers (Dbtest): what a test that gets a pool starts from, that a reset needs a schema to drop,
  and that emptying tables keeps the integrity of the database.

  Parameters and hypotheses

  Code outside the repository is an argument or a field of the world. What the code relies on is
  stated as a named predicate, and a witness instantiates it: \<open>bcrypt_law\<close> (a hash verifies its
  password), \<open>jwt_law\<close> (a signed token parses back under its key and method until it expires),
  \<open>rate_law\<close> (the documented token bucket of x/time/rate, in whole units, without the rounding of
  its float arithmetic and without the truncation of a wait to whole nanoseconds, by which the real one
  admits up to a nanosecond early), \<open>script_law\<close> (a script in an explicit transaction takes effect as a whole
  or not at all, for bodies that manage no transaction of their own and end outside a comment and
  a literal), \<open>rand_fills\<close> (a successful read of random bytes fills the buffer). pgx
  (\<open>pgx_ParseConfig\<close>), \<open>net/mail\<close>, the terminal, the float step of a fractional duration and the
  collation key of \<open>citext\<close> are parameters without hypotheses. \<open>healthy\<close> says that the database
  answers; \<open>settled\<close> that the clock is past every message of a session, which is no invariant (a batch is
  dated ahead of the clock, see \<open>appends_interleave\<close>): the rows an exchange stores do not depend on it
  (\<open>exchange_stored\<close>), only the order in which a session is read back does;
  \<open>users_inv\<close>, \<open>keys_inv\<close> and \<open>ids_unique\<close> are the tables' constraints, which every operation
  keeps, and \<open>integrity\<close> adds the references between them.

  Bounds. The loops are structural or come with a measure (the unread part of a body in
  \<open>relayStream\<close>, the remaining text in the parsers and matchers, the arguments in \<open>parse_flags\<close>).
  Only the JSON scanner runs on fuel, twice the length of its input and one; \<open>json_scan_eq\<close> shows
  that no larger amount changes a result. Windows of
  the limiter property are at most \<open>staleAfter\<close>, ten minutes: beyond that the sweep may hand out a
  new, full bucket. \<open>shutdown_terminates\<close> bounds a run by the measure \<open>remaining\<close> of its first state; in it
  \<open>hung_step k\<close> is the step relation in which k of the requests in flight never finish, so that the grace timer and
  the forced close are what ends the run.
  A process that migrates returns within three steps more than there are migrations (\<open>up_step_rank\<close>).
  \<open>cascade\<close> follows the references of the schema three times, the length of their longest chain
  (\<open>cascade_closed\<close>).

  Not modelled

  Of \<open>net/http\<close>: reading requests off the wire, the connection that \<open>MaxBytesReader\<close> closes, requests
  for \<open>*\<close>, HTTP/2, the nesting limit of \<open>encoding/json\<close>, hijacking (no handler hijacks) and \<open>Unwrap\<close> (nothing calls it). Deadlines of
  single operations are not clocks: that one strikes is one of the fates of a round trip or of the
  network. Fair scheduling is not assumed, and a data race inside one operation cannot be expressed:
  the mutex of the limiter set makes its body one step. What is proved of a handler's answer takes the
  handler as one step; requests in flight interleave, operation by operation, in \<open>system_step\<close>. The errors of closing a
  listener or a body, which the code drops, are left out; \<open>os.Exit\<close> ends a command without its
  deferred calls, as in the code. Error values are kept as constructors; where their text never leaves
  the process it is not spelled out, and neither is the text of \<open>usage\<close> in the migrate command.
  \<open>Truncate\<close> takes names of the schema's tables; other text in its place is not parsed. The tests themselves
  are not modelled. The SQL files are data: their schema is in the records and
  constraints, their text in \<open>embedded_names\<close> by name only. The web app under \<open>src/frontend\<close> is
  another program.
\<close>

end
